theory Spec2Isabelle
  imports Complex_Main "HOL-Library.Word"
begin

section \<open>Result codes, property keys and property values\<close>

text \<open>
  An HRESULT is a signed 32-bit value. The driver only tests its sign
  (\<open>SUCCEEDED\<close>, \<open>FAILED\<close>) and compares it for equality, so it is an \<open>int\<close>
  holding the signed reading of the 32-bit pattern.
\<close>

type_synonym hresult = int

definition SUCCEEDED :: "hresult \<Rightarrow> bool" where
  "SUCCEEDED hr = (0 \<le> hr)"

definition FAILED :: "hresult \<Rightarrow> bool" where
  "FAILED hr = (hr < 0)"

definition S_OK :: hresult where
  "S_OK = 0"

definition S_FALSE :: hresult where
  "S_FALSE = 1"

text \<open>\<open>(x & 0xFFFF) | (FACILITY_WIN32 << 16) | 0x80000000\<close>, read as a signed value.\<close>

definition HRESULT_FROM_WIN32 :: "int \<Rightarrow> hresult" where
  "HRESULT_FROM_WIN32 x = (if x \<le> 0 then x else x mod 65536 + 7 * 65536 + 2 ^ 31 - 2 ^ 32)"

definition E_INVALIDARG :: hresult where
  "E_INVALIDARG = HRESULT_FROM_WIN32 87"

definition E_OUTOFMEMORY :: hresult where
  "E_OUTOFMEMORY = HRESULT_FROM_WIN32 14"

definition E_UNEXPECTED :: hresult where
  "E_UNEXPECTED = 65535 + 2 ^ 31 - 2 ^ 32"

definition ERROR_FILE_NOT_FOUND :: int where
  "ERROR_FILE_NOT_FOUND = 2"

definition ERROR_NOT_SUPPORTED :: int where
  "ERROR_NOT_SUPPORTED = 50"

definition ERROR_FILE_EXISTS :: int where
  "ERROR_FILE_EXISTS = 80"

definition ERROR_NOT_FOUND :: int where
  "ERROR_NOT_FOUND = 1168"

definition ERROR_INVALID_STATE :: int where
  "ERROR_INVALID_STATE = 5023"

text \<open>
  A PROPERTYKEY. The keys the driver names are constructors; \<open>Other_key n\<close> stands
  for every other key a caller may pass.
\<close>

datatype propertykey =
    SENSOR_PROPERTY_STATE
  | SENSOR_PROPERTY_CURRENT_REPORT_INTERVAL
  | SENSOR_PROPERTY_CHANGE_SENSITIVITY
  | SENSOR_PROPERTY_TEST_REGISTER
  | SENSOR_PROPERTY_TEST_DATA_SIZE
  | SENSOR_PROPERTY_TEST_DATA
  | SENSOR_DATA_TYPE_TIMESTAMP
  | SENSOR_DATA_TYPE_ACCELERATION_X_G
  | SENSOR_DATA_TYPE_ACCELERATION_Y_G
  | SENSOR_DATA_TYPE_ACCELERATION_Z_G
  | Other_key nat

text \<open>
  A PROPVARIANT: the tag \<open>vt\<close> together with the member of the union that the tag
  selects. \<open>VT_R4\<close> and \<open>VT_R8\<close> carry the number the float or double denotes
  (a finite value; NaN and the infinities are not modelled). \<open>VT_UNKNOWN\<close> carries
  the IPortableDeviceValues collection the interface pointer refers to.
\<close>

datatype propvariant =
    VT_EMPTY
  | VT_NULL
  | VT_R4 real
  | VT_R8 real
  | VT_UI4 "32 word"
  | VT_ERROR hresult
  | VT_FILETIME nat
  | VT_VECTOR_UI1 "8 word list"
  | VT_UNKNOWN "(propertykey \<times> propvariant) list"

text \<open>The tag of a PROPVARIANT, as its VARENUM number.\<close>

fun vt :: "propvariant \<Rightarrow> nat" where
  "vt VT_EMPTY = 0"
| "vt VT_NULL = 1"
| "vt (VT_R4 x) = 4"
| "vt (VT_R8 x) = 5"
| "vt (VT_ERROR e) = 10"
| "vt (VT_UNKNOWN p) = 13"
| "vt (VT_UI4 w) = 19"
| "vt (VT_FILETIME t) = 64"
| "vt (VT_VECTOR_UI1 bs) = 4113"

text \<open>
  An IPortableDeviceValues collection: keyed values in index order. \<open>SetValue\<close>
  replaces the value of a key that is present, in place, and appends a new key
  at the end; \<open>GetValue\<close> of an absent key fails with ERROR\_NOT\_FOUND.
  Allocation failures of the collection are not modelled, so \<open>SetValue\<close> has no
  failing branch.
\<close>

type_synonym portable_device_values = "(propertykey \<times> propvariant) list"

definition GetCount :: "portable_device_values \<Rightarrow> nat" where
  "GetCount vs = length vs"

definition GetAt :: "nat \<Rightarrow> portable_device_values \<Rightarrow> hresult \<times> propertykey \<times> propvariant" where
  "GetAt i vs = (if i < length vs then (S_OK, fst (vs ! i), snd (vs ! i))
                 else (E_INVALIDARG, Other_key 0, VT_EMPTY))"

definition GetValue :: "propertykey \<Rightarrow> portable_device_values \<Rightarrow> hresult \<times> propvariant" where
  "GetValue key vs = (case map_of vs key of
                        None \<Rightarrow> (HRESULT_FROM_WIN32 ERROR_NOT_FOUND, VT_EMPTY)
                      | Some v \<Rightarrow> (S_OK, v))"

fun SetValue :: "propertykey \<Rightarrow> propvariant \<Rightarrow> portable_device_values \<Rightarrow> portable_device_values" where
  "SetValue key v [] = [(key, v)]"
| "SetValue key v ((k, w) # vs) = (if k = key then (key, v) # vs else (k, w) # SetValue key v vs)"

definition SetErrorValue :: "propertykey \<Rightarrow> hresult \<Rightarrow> portable_device_values \<Rightarrow> portable_device_values" where
  "SetErrorValue key hr vs = SetValue key (VT_ERROR hr) vs"

section \<open>The client manager (ClientManager.h, ClientManager.cpp)\<close>

datatype DATA_UPDATE_MODE = DataUpdateModeOff | DataUpdateModePolling | DataUpdateModeEventing

text \<open>
  CLIENT\_ENTRY. \<open>pDesiredSensitivityValues\<close> points to a collection created for
  this client at Connect and shared with no other entry, so the entry holds the
  collection itself.
\<close>

record CLIENT_ENTRY =
  fSubscribed :: bool
  pDesiredSensitivityValues :: portable_device_values
  desiredReportInterval :: "32 word"

text \<open>
  CLIENT\_MAP is a \<open>std::map\<close> keyed by the client's IWDFFile pointer: an association
  list kept in increasing key order, which is the order the iterator visits.
  A pointer is a \<open>nat\<close>; \<open>nullptr\<close> is 0.
\<close>

type_synonym IWDFFile = nat

type_synonym CLIENT_MAP = "(IWDFFile \<times> CLIENT_ENTRY) list"

definition nullptr :: IWDFFile where
  "nullptr = 0"

definition find_client :: "IWDFFile \<Rightarrow> CLIENT_MAP \<Rightarrow> CLIENT_ENTRY option" where
  "find_client p m = map_of m p"

text \<open>\<open>m[p] = entry\<close>\<close>

fun assign :: "IWDFFile \<Rightarrow> CLIENT_ENTRY \<Rightarrow> CLIENT_MAP \<Rightarrow> CLIENT_MAP" where
  "assign p e [] = [(p, e)]"
| "assign p e ((q, f) # m) =
     (if p < q then (p, e) # (q, f) # m
      else if p = q then (p, e) # m
      else (q, f) # assign p e m)"

definition erase :: "IWDFFile \<Rightarrow> CLIENT_MAP \<Rightarrow> CLIENT_MAP" where
  "erase p m = filter (\<lambda>qe. fst qe \<noteq> p) m"

record CClientManager =
  m_pClientList :: CLIENT_MAP
  m_ClientCount :: "32 word"
  m_SubscriberCount :: "32 word"
  m_spDefaultSensitivityValues :: portable_device_values
  m_spMinSensitivityValues :: portable_device_values
  m_defaultReportInterval :: "32 word"
  m_minSupportedReportInterval :: "32 word"
  m_minReportInterval :: "32 word"
  m_minReportIntervalExplicitlySet :: bool

definition CURRENT_REPORT_INTERVAL_NOT_SET :: "32 word" where
  "CURRENT_REPORT_INTERVAL_NOT_SET = 0"

definition ULONG_MAX :: "32 word" where
  "ULONG_MAX = 0xFFFFFFFF"

text \<open>The constructor.\<close>

definition CClientManager_new :: CClientManager where
  "CClientManager_new =
     \<lparr> m_pClientList = [], m_ClientCount = 0, m_SubscriberCount = 0,
       m_spDefaultSensitivityValues = [], m_spMinSensitivityValues = [],
       m_defaultReportInterval = 0, m_minSupportedReportInterval = 0,
       m_minReportInterval = 0, m_minReportIntervalExplicitlySet = False \<rparr>"

text \<open>CClientManager::CopyValues: every source value is set in the target.\<close>

definition CopyValues :: "portable_device_values \<Rightarrow> portable_device_values \<Rightarrow> portable_device_values" where
  "CopyValues src tgt = fold (\<lambda>kv t. SetValue (fst kv) (snd kv) t) src tgt"

text \<open>CClientManager::Initialize\<close>

definition Initialize :: "32 word \<Rightarrow> 32 word \<Rightarrow> portable_device_values \<Rightarrow> CClientManager \<Rightarrow> hresult \<times> CClientManager" where
  "Initialize DefaultReportInterval MinReportInterval pDefaultChangeSensitivities cm =
     (S_OK,
      cm \<lparr> m_spDefaultSensitivityValues :=
             CopyValues pDefaultChangeSensitivities (m_spDefaultSensitivityValues cm),
           m_spMinSensitivityValues :=
             CopyValues pDefaultChangeSensitivities (m_spMinSensitivityValues cm),
           m_defaultReportInterval := DefaultReportInterval,
           m_minSupportedReportInterval := MinReportInterval,
           m_minReportInterval := DefaultReportInterval \<rparr>)"

text \<open>CClientManager::GetDataUpdateMode\<close>

definition GetDataUpdateMode :: "CClientManager \<Rightarrow> DATA_UPDATE_MODE" where
  "GetDataUpdateMode cm =
     (if m_ClientCount cm = 0 then DataUpdateModeOff
      else if 0 < m_SubscriberCount cm \<or> m_minReportIntervalExplicitlySet cm
           then DataUpdateModeEventing
           else DataUpdateModePolling)"

text \<open>
  CClientManager::RecalculateProperties, first loop: every minimum sensitivity value is
  reset to VT\_NULL, by index.
\<close>

definition reset_min_values :: "portable_device_values \<Rightarrow> portable_device_values" where
  "reset_min_values vs =
     fold (\<lambda>i m. case GetAt i m of (hr, key, var) \<Rightarrow>
                    if SUCCEEDED hr then SetValue key VT_NULL m else m)
          [0..<GetCount vs] vs"

text \<open>
  The \<open>min\<close> of the running minimum and a client's value. The source writes
  \<open>var.fltVal\<close> (or \<open>var.dblVal\<close>) by the tag of the running minimum alone; when the
  client's value has another tag that write reinterprets the union's bytes, which is
  outside this model, and the client's value is returned as it is. The stored values
  never have different tags (see \<open>cm_inv\<close> below).
\<close>

fun min_sensitivity :: "propvariant \<Rightarrow> propvariant \<Rightarrow> hresult \<times> propvariant" where
  "min_sensitivity VT_NULL var = (S_OK, var)"
| "min_sensitivity (VT_R4 m) (VT_R4 x) = (S_OK, VT_R4 (min m x))"
| "min_sensitivity (VT_R4 m) var = (S_OK, var)"
| "min_sensitivity (VT_R8 m) (VT_R8 x) = (S_OK, VT_R8 (min m x))"
| "min_sensitivity (VT_R8 m) var = (S_OK, var)"
| "min_sensitivity varMin var = (HRESULT_FROM_WIN32 ERROR_NOT_SUPPORTED, var)"

text \<open>The loop over one client's desired sensitivity values.\<close>

fun fold_client_values ::
  "portable_device_values \<Rightarrow> hresult \<times> portable_device_values \<Rightarrow> hresult \<times> portable_device_values" where
  "fold_client_values [] (hr, mins) = (hr, mins)"
| "fold_client_values ((key, var) # rest) (hr, mins) =
     (if SUCCEEDED hr then
        (if vt var \<noteq> vt VT_NULL then
           (case GetValue key mins of (hr1, varMin) \<Rightarrow>
              if SUCCEEDED hr1 then
                (case min_sensitivity varMin var of (hr2, var') \<Rightarrow>
                   if SUCCEEDED hr2 then fold_client_values rest (S_OK, SetValue key var' mins)
                   else fold_client_values rest (hr2, mins))
              else fold_client_values rest (hr1, mins))
         else fold_client_values rest (S_OK, mins))
      else (hr, mins))"

text \<open>
  The loop over the client list. The state is the status, the minimum sensitivity
  values, \<open>m_minReportInterval\<close> and \<open>m_minReportIntervalExplicitlySet\<close>.
\<close>

fun fold_clients ::
  "CLIENT_MAP \<Rightarrow> hresult \<times> portable_device_values \<times> 32 word \<times> bool
     \<Rightarrow> hresult \<times> portable_device_values \<times> 32 word \<times> bool" where
  "fold_clients [] s = s"
| "fold_clients ((p, entry) # rest) (hr, mins, minRI, explicitlySet) =
     (if SUCCEEDED hr then
        (case fold_client_values (pDesiredSensitivityValues entry) (hr, mins) of (hr1, mins1) \<Rightarrow>
           if SUCCEEDED hr1 then
             (if desiredReportInterval entry \<noteq> CURRENT_REPORT_INTERVAL_NOT_SET \<and>
                 desiredReportInterval entry < minRI
              then fold_clients rest (hr1, mins1, desiredReportInterval entry, True)
              else fold_clients rest (hr1, mins1, minRI, explicitlySet))
           else fold_clients rest (hr1, mins1, minRI, explicitlySet))
      else (hr, mins, minRI, explicitlySet))"

text \<open>The last loop: a value still VT\_NULL is filled from the defaults, by index.\<close>

fun fill_defaults ::
  "nat list \<Rightarrow> portable_device_values \<Rightarrow> hresult \<times> portable_device_values
     \<Rightarrow> hresult \<times> portable_device_values" where
  "fill_defaults [] dflt s = s"
| "fill_defaults (i # is) dflt (hr, mins) =
     (if SUCCEEDED hr then
        (case GetAt i mins of (hr1, key, var) \<Rightarrow>
           if SUCCEEDED hr1 \<and> vt var = vt VT_NULL then
             (case GetValue key dflt of (hr2, var') \<Rightarrow>
                if SUCCEEDED hr2 then fill_defaults is dflt (S_OK, SetValue key var' mins)
                else fill_defaults is dflt (hr2, mins))
           else fill_defaults is dflt (hr1, mins))
      else (hr, mins))"

definition RecalculateProperties :: "CClientManager \<Rightarrow> hresult \<times> CClientManager" where
  "RecalculateProperties cm =
     (let sensitivityCount = GetCount (m_spMinSensitivityValues cm);
          mins0 = reset_min_values (m_spMinSensitivityValues cm)
      in case fold_clients (m_pClientList cm) (S_OK, mins0, ULONG_MAX, False) of
           (hr, mins1, minRI, explicitlySet) \<Rightarrow>
             if SUCCEEDED hr then
               (case fill_defaults [0..<sensitivityCount] (m_spDefaultSensitivityValues cm) (hr, mins1) of
                  (hr2, mins2) \<Rightarrow>
                    (hr2, cm \<lparr> m_spMinSensitivityValues := mins2,
                               m_minReportInterval :=
                                 (if minRI = ULONG_MAX then m_defaultReportInterval cm else minRI),
                               m_minReportIntervalExplicitlySet := explicitlySet \<rparr>))
             else (hr, cm \<lparr> m_spMinSensitivityValues := mins1,
                             m_minReportInterval := minRI,
                             m_minReportIntervalExplicitlySet := explicitlySet \<rparr>))"

text \<open>CClientManager::Connect\<close>

definition Connect :: "IWDFFile \<Rightarrow> CClientManager \<Rightarrow> hresult \<times> CClientManager" where
  "Connect pClientFile cm =
     (if pClientFile = nullptr then (E_INVALIDARG, cm)
      else if length (m_pClientList cm) \<noteq> unat (m_ClientCount cm)
        then (HRESULT_FROM_WIN32 ERROR_INVALID_STATE, cm)
      else if find_client pClientFile (m_pClientList cm) \<noteq> None
        then (HRESULT_FROM_WIN32 ERROR_FILE_EXISTS, cm)
      else RecalculateProperties
             (cm \<lparr> m_pClientList :=
                     assign pClientFile
                       \<lparr> fSubscribed = False, pDesiredSensitivityValues = [],
                         desiredReportInterval = CURRENT_REPORT_INTERVAL_NOT_SET \<rparr>
                       (m_pClientList cm),
                   m_ClientCount := m_ClientCount cm + 1 \<rparr>))"

text \<open>CClientManager::Disconnect\<close>

definition Disconnect :: "IWDFFile \<Rightarrow> CClientManager \<Rightarrow> hresult \<times> CClientManager" where
  "Disconnect pClientFile cm =
     (if pClientFile = nullptr then (E_INVALIDARG, cm)
      else if m_ClientCount cm = 0 then (HRESULT_FROM_WIN32 ERROR_INVALID_STATE, cm)
      else if length (m_pClientList cm) \<noteq> unat (m_ClientCount cm)
        then (HRESULT_FROM_WIN32 ERROR_INVALID_STATE, cm)
      else case find_client pClientFile (m_pClientList cm) of
             None \<Rightarrow> (HRESULT_FROM_WIN32 ERROR_FILE_NOT_FOUND, cm)
           | Some entry \<Rightarrow>
               RecalculateProperties
                 (cm \<lparr> m_pClientList := erase pClientFile (m_pClientList cm),
                       m_SubscriberCount :=
                         (if fSubscribed entry then m_SubscriberCount cm - 1
                          else m_SubscriberCount cm),
                       m_ClientCount := m_ClientCount cm - 1 \<rparr>))"

text \<open>CClientManager::Subscribe\<close>

definition Subscribe :: "IWDFFile \<Rightarrow> CClientManager \<Rightarrow> hresult \<times> CClientManager" where
  "Subscribe pClientFile cm =
     (if pClientFile = nullptr then (E_INVALIDARG, cm)
      else case find_client pClientFile (m_pClientList cm) of
             None \<Rightarrow> (HRESULT_FROM_WIN32 ERROR_FILE_NOT_FOUND, cm)
           | Some entry \<Rightarrow>
               if fSubscribed entry then (HRESULT_FROM_WIN32 ERROR_INVALID_STATE, cm)
               else RecalculateProperties
                      (cm \<lparr> m_pClientList :=
                              assign pClientFile (entry \<lparr> fSubscribed := True \<rparr>) (m_pClientList cm),
                            m_SubscriberCount := m_SubscriberCount cm + 1 \<rparr>))"

text \<open>CClientManager::Unsubscribe\<close>

definition Unsubscribe :: "IWDFFile \<Rightarrow> CClientManager \<Rightarrow> hresult \<times> CClientManager" where
  "Unsubscribe pClientFile cm =
     (if pClientFile = nullptr then (E_INVALIDARG, cm)
      else case find_client pClientFile (m_pClientList cm) of
             None \<Rightarrow> (HRESULT_FROM_WIN32 ERROR_FILE_NOT_FOUND, cm)
           | Some entry \<Rightarrow>
               if \<not> fSubscribed entry then (HRESULT_FROM_WIN32 ERROR_INVALID_STATE, cm)
               else RecalculateProperties
                      (cm \<lparr> m_pClientList :=
                              assign pClientFile (entry \<lparr> fSubscribed := False \<rparr>) (m_pClientList cm),
                            m_SubscriberCount := m_SubscriberCount cm - 1 \<rparr>))"

text \<open>CClientManager::SetDesiredReportInterval\<close>

definition SetDesiredReportInterval ::
  "IWDFFile \<Rightarrow> 32 word \<Rightarrow> CClientManager \<Rightarrow> hresult \<times> CClientManager" where
  "SetDesiredReportInterval pClientFile reportInterval cm =
     (if pClientFile = nullptr then (E_INVALIDARG, cm)
      else if reportInterval \<noteq> 0 \<and> reportInterval < m_minSupportedReportInterval cm
        then (E_INVALIDARG, cm)
      else case find_client pClientFile (m_pClientList cm) of
             None \<Rightarrow> (HRESULT_FROM_WIN32 ERROR_FILE_NOT_FOUND, cm)
           | Some entry \<Rightarrow>
               RecalculateProperties
                 (cm \<lparr> m_pClientList :=
                         assign pClientFile (entry \<lparr> desiredReportInterval := reportInterval \<rparr>)
                           (m_pClientList cm) \<rparr>))"

text \<open>
  CClientManager::SetDesiredChangeSensitivity, the validation of one item against the
  current minimum values: the status \<open>hrTemp\<close> before the value is stored.
\<close>

definition validate_sensitivity ::
  "portable_device_values \<Rightarrow> propertykey \<Rightarrow> propvariant \<Rightarrow> hresult" where
  "validate_sensitivity mins key var =
     (case GetValue key mins of (hrTemp, varTemp) \<Rightarrow>
        if SUCCEEDED hrTemp then
          (if (vt var \<noteq> vt varTemp \<and> vt var \<noteq> vt VT_NULL) \<or>
              (case var of VT_R4 x \<Rightarrow> x < 0 | _ \<Rightarrow> False) \<or>
              (case var of VT_R8 x \<Rightarrow> x < 0 | _ \<Rightarrow> False)
           then E_INVALIDARG else hrTemp)
        else hrTemp)"

text \<open>
  The loop over the items of the batch. The state is the client's own collection of
  desired values (the only part of the client list the loop writes), the result
  collection and \<open>fError\<close>.
\<close>

fun sensitivity_loop ::
  "portable_device_values \<Rightarrow> portable_device_values
     \<Rightarrow> portable_device_values \<times> portable_device_values \<times> bool
     \<Rightarrow> portable_device_values \<times> portable_device_values \<times> bool" where
  "sensitivity_loop mins [] s = s"
| "sensitivity_loop mins ((key, var) # rest) (desired, results, fError) =
     (if SUCCEEDED (validate_sensitivity mins key var)
      then sensitivity_loop mins rest (SetValue key var desired, SetValue key var results, fError)
      else sensitivity_loop mins rest
             (desired, SetErrorValue key (validate_sensitivity mins key var) results, True))"

text \<open>
  When the client is not found the result collection is never created; the model
  returns the empty collection there.
\<close>

definition SetDesiredChangeSensitivity ::
  "IWDFFile \<Rightarrow> portable_device_values \<Rightarrow> CClientManager
     \<Rightarrow> hresult \<times> portable_device_values \<times> CClientManager" where
  "SetDesiredChangeSensitivity pClientFile pValues cm =
     (if pClientFile = nullptr then (E_INVALIDARG, [], cm)
      else case find_client pClientFile (m_pClientList cm) of
             None \<Rightarrow> (HRESULT_FROM_WIN32 ERROR_FILE_NOT_FOUND, [], cm)
           | Some entry \<Rightarrow>
               (case sensitivity_loop (m_spMinSensitivityValues cm) pValues
                       (pDesiredSensitivityValues entry, [], False) of
                  (desired, results, fError) \<Rightarrow>
                    (case RecalculateProperties
                            (cm \<lparr> m_pClientList :=
                                    assign pClientFile
                                      (entry \<lparr> pDesiredSensitivityValues := desired \<rparr>)
                                      (m_pClientList cm) \<rparr>) of
                       (hr, cm') \<Rightarrow>
                         (if SUCCEEDED hr \<and> fError then S_FALSE else hr, results, cm'))))"

text \<open>CClientManager::SetDesiredProperty. \<open>pVarResult\<close> is VT\_EMPTY on entry.\<close>

definition SetDesiredProperty ::
  "IWDFFile \<Rightarrow> propertykey \<Rightarrow> propvariant \<Rightarrow> CClientManager
     \<Rightarrow> hresult \<times> propvariant \<times> CClientManager" where
  "SetDesiredProperty pClientFile key pVar cm =
     (if pClientFile = nullptr then (E_INVALIDARG, VT_EMPTY, cm)
      else if key = SENSOR_PROPERTY_CHANGE_SENSITIVITY then
        (case pVar of
           VT_UNKNOWN spPerDataFieldValues \<Rightarrow>
             (case SetDesiredChangeSensitivity pClientFile spPerDataFieldValues cm of
                (hr, spPerDataFieldResults, cm') \<Rightarrow>
                  if SUCCEEDED hr then (hr, VT_UNKNOWN spPerDataFieldResults, cm')
                  else (hr, VT_EMPTY, cm'))
         | _ \<Rightarrow> (E_INVALIDARG, VT_EMPTY, cm))
      else if key = SENSOR_PROPERTY_CURRENT_REPORT_INTERVAL then
        (case pVar of
           VT_UI4 reportInterval \<Rightarrow>
             (case SetDesiredReportInterval pClientFile reportInterval cm of
                (hr, cm') \<Rightarrow>
                  if SUCCEEDED hr then (hr, pVar, cm') else (hr, VT_EMPTY, cm'))
         | _ \<Rightarrow> (E_INVALIDARG, VT_EMPTY, cm))
      else (HRESULT_FROM_WIN32 ERROR_NOT_FOUND, VT_EMPTY, cm))"

text \<open>CClientManager::GetArbitratedProperty\<close>

definition GetArbitratedProperty :: "propertykey \<Rightarrow> CClientManager \<Rightarrow> hresult \<times> propvariant" where
  "GetArbitratedProperty key cm =
     (if key = SENSOR_PROPERTY_CHANGE_SENSITIVITY
        then (S_OK, VT_UNKNOWN (CopyValues (m_spMinSensitivityValues cm) []))
      else if key = SENSOR_PROPERTY_CURRENT_REPORT_INTERVAL
        then (S_OK, VT_UI4 (m_minReportInterval cm))
      else (HRESULT_FROM_WIN32 ERROR_NOT_FOUND, VT_EMPTY))"

section \<open>Arbitration: what the settings should be\<close>

fun null_or_r8 :: "propvariant \<Rightarrow> bool" where
  "null_or_r8 VT_NULL = True"
| "null_or_r8 (VT_R8 x) = True"
| "null_or_r8 v = False"

fun is_r8 :: "propvariant \<Rightarrow> bool" where
  "is_r8 (VT_R8 x) = True"
| "is_r8 v = False"

fun r8_values :: "propertykey \<Rightarrow> portable_device_values \<Rightarrow> real list" where
  "r8_values key [] = []"
| "r8_values key ((k, VT_R8 x) # vs) = (if k = key then x # r8_values key vs else r8_values key vs)"
| "r8_values key ((k, v) # vs) = r8_values key vs"

definition client_overrides :: "propertykey \<Rightarrow> CLIENT_MAP \<Rightarrow> real list" where
  "client_overrides key clients =
     concat (map (\<lambda>pe. r8_values key (pDesiredSensitivityValues (snd pe))) clients)"

definition arbitrated_sensitivity :: "propertykey \<Rightarrow> CClientManager \<Rightarrow> propvariant" where
  "arbitrated_sensitivity key cm =
     (if client_overrides key (m_pClientList cm) = []
      then snd (GetValue key (m_spDefaultSensitivityValues cm))
      else VT_R8 (Min (set (client_overrides key (m_pClientList cm)))))"

definition values_ok :: "portable_device_values \<Rightarrow> portable_device_values \<Rightarrow> bool" where
  "values_ok mins vs = list_all (\<lambda>kv. null_or_r8 (snd kv) \<and> fst kv \<in> set (map fst mins)) vs"

definition cm_inv :: "CClientManager \<Rightarrow> bool" where
  "cm_inv cm =
     (distinct (map fst (m_spMinSensitivityValues cm)) \<and>
      map fst (m_spDefaultSensitivityValues cm) = map fst (m_spMinSensitivityValues cm) \<and>
      list_all (\<lambda>kv. is_r8 (snd kv)) (m_spDefaultSensitivityValues cm) \<and>
      list_all (\<lambda>kv. null_or_r8 (snd kv)) (m_spMinSensitivityValues cm) \<and>
      list_all (\<lambda>pe. values_ok (m_spMinSensitivityValues cm) (pDesiredSensitivityValues (snd pe)))
        (m_pClientList cm))"

definition lookup_sens :: "portable_device_values \<Rightarrow> propertykey \<Rightarrow> real option" where
  "lookup_sens mins k = (case map_of mins k of Some (VT_R8 x) \<Rightarrow> Some x | _ \<Rightarrow> None)"

fun combine :: "real option \<Rightarrow> real list \<Rightarrow> real option" where
  "combine m [] = m"
| "combine m (x # xs) = combine (Some (case m of None \<Rightarrow> x | Some y \<Rightarrow> min y x)) xs"

definition explicit_intervals :: "CLIENT_MAP \<Rightarrow> 32 word list" where
  "explicit_intervals clients =
     filter (\<lambda>d. d \<noteq> 0) (map (\<lambda>pe. desiredReportInterval (snd pe)) clients)"

definition fill_default :: "portable_device_values \<Rightarrow> propertykey \<times> propvariant \<Rightarrow> propertykey \<times> propvariant" where
  "fill_default dflt kv = (if vt (snd kv) = vt VT_NULL then (fst kv, snd (GetValue (fst kv) dflt)) else kv)"

definition arbitrated_report_interval :: "CClientManager \<Rightarrow> 32 word" where
  "arbitrated_report_interval cm =
     (if explicit_intervals (m_pClientList cm) = [] then m_defaultReportInterval cm
      else Min (set (explicit_intervals (m_pClientList cm))))"

datatype registry_op =
    OpConnect IWDFFile
  | OpDisconnect IWDFFile
  | OpSubscribe IWDFFile
  | OpUnsubscribe IWDFFile
  | OpSetDesiredReportInterval IWDFFile "32 word"
  | OpSetDesiredChangeSensitivity IWDFFile portable_device_values

fun apply_op :: "registry_op \<Rightarrow> CClientManager \<Rightarrow> hresult \<times> CClientManager" where
  "apply_op (OpConnect p) cm = Connect p cm"
| "apply_op (OpDisconnect p) cm = Disconnect p cm"
| "apply_op (OpSubscribe p) cm = Subscribe p cm"
| "apply_op (OpUnsubscribe p) cm = Unsubscribe p cm"
| "apply_op (OpSetDesiredReportInterval p v) cm = SetDesiredReportInterval p v cm"
| "apply_op (OpSetDesiredChangeSensitivity p vs) cm =
     (case SetDesiredChangeSensitivity p vs cm of (hr, results, cm') \<Rightarrow> (hr, cm'))"

definition GetDefaultSettableProperties :: "real \<Rightarrow> portable_device_values" where
  "GetDefaultSettableProperties sens =
     SetValue SENSOR_DATA_TYPE_ACCELERATION_Z_G (VT_R8 sens)
       (SetValue SENSOR_DATA_TYPE_ACCELERATION_Y_G (VT_R8 sens)
          (SetValue SENSOR_DATA_TYPE_ACCELERATION_X_G (VT_R8 sens) []))"

definition example_manager :: CClientManager where
  "example_manager = snd (Initialize 1000 1 (GetDefaultSettableProperties (1 / 2)) CClientManager_new)"


definition example_one_client :: CClientManager where
  "example_one_client = snd (Connect 1 example_manager)"

definition example_subscribed :: CClientManager where
  "example_subscribed = snd (Subscribe 1 example_one_client)"

section \<open>The supported events (SensorDevice.cpp, GetSupportedEvents)\<close>

type_synonym GUID = nat

text \<open>
  The loop \<open>for (DWORD i = 0; i < count; count++) *(pBuf + i) = events[i].fmtid;\<close>.
  \<open>events\<close> is the table of supported events (\<open>fmtid\<close>, \<open>pid\<close>); \<open>pBuf\<close> is the
  freshly allocated buffer, an entry being \<open>None\<close> until it is written; \<open>i\<close> and
  \<open>count\<close> are 32-bit and \<open>count++\<close> wraps. An access outside the table or the buffer
  ends the model with \<open>None\<close>. The last component counts the iterations.
\<close>

function events_loop ::
  "(GUID \<times> 32 word) list \<Rightarrow> GUID option list \<Rightarrow> 32 word \<Rightarrow> 32 word \<Rightarrow> nat
     \<Rightarrow> (GUID option list \<times> 32 word \<times> nat) option" where
  "events_loop events pBuf i count iterations =
     (if i < count then
        (if unat i < length events \<and> unat i < length pBuf
         then events_loop events (pBuf [unat i := Some (fst (events ! unat i))]) i (count + 1)
                (Suc iterations)
         else None)
      else Some (pBuf, count, iterations))"
  by pat_completeness auto
termination
proof (relation "measure (\<lambda>(events, pBuf, i, count, iterations). unat (- count))")
  show "wf (measure (\<lambda>(events, pBuf, i, count, iterations). unat (- count)))"
    by simp
next
  fix events :: "(GUID \<times> 32 word) list" and pBuf :: "GUID option list"
    and i count :: "32 word" and iterations :: nat
  assume "i < count"
  then have "count \<noteq> 0"
    by auto
  then have "- count \<noteq> 0"
    by simp
  then have "unat (- count - 1) = unat (- count) - 1" and "unat (- count) \<noteq> 0"
    by (simp_all add: unat_minus_one unat_eq_zero)
  then have "unat (- (count + 1)) < unat (- count)"
    by simp
  then show "((events, pBuf [unat i := Some (fst (events ! unat i))], i, count + 1, Suc iterations),
              (events, pBuf, i, count, iterations))
             \<in> measure (\<lambda>(events, pBuf, i, count, iterations). unat (- count))"
    by simp
qed

declare events_loop.simps [simp del]

text \<open>
  CSensorDevice::GetSupportedEvents. \<open>events\<close> and its length are what the sensor's
  GetSupportedEvents(\<open>&count\<close>) returns; \<open>alloc_ok\<close> says whether CoTaskMemAlloc
  returned memory. The result is the status, \<open>*ppSupportedEvents\<close> and \<open>*pEventCount\<close>.
\<close>

definition GetSupportedEvents ::
  "(GUID \<times> 32 word) list \<Rightarrow> bool \<Rightarrow> hresult \<times> GUID option list option \<times> 32 word" where
  "GetSupportedEvents events alloc_ok =
     (let count = (of_nat (length events) :: 32 word) in
      if alloc_ok then
        (case events_loop events (replicate (unat count) None) 0 count 0 of
           Some (pBuf, count', iterations) \<Rightarrow> (S_OK, Some pBuf, count')
         | None \<Rightarrow> (E_UNEXPECTED, None, 0))
      else (E_OUTOFMEMORY, None, 0))"

section \<open>The sensor device (SensorDevice.cpp, AccelerometerDevice.cpp)\<close>

text \<open>
  CReportManager. Its implementation is not among the sources; the device calls
  SetReportInterval and NewDataAvailable on it, and the model keeps the interval last
  passed and the number of calls of NewDataAvailable.
\<close>

record CReportManager =
  m_ReportInterval :: "32 word"
  NewDataAvailable_calls :: nat

definition ReportManager_SetReportInterval :: "32 word \<Rightarrow> CReportManager \<Rightarrow> CReportManager" where
  "ReportManager_SetReportInterval reportInterval rm = rm \<lparr> m_ReportInterval := reportInterval \<rparr>"

definition NewDataAvailable :: "CReportManager \<Rightarrow> CReportManager" where
  "NewDataAvailable rm = rm \<lparr> NewDataAvailable_calls := Suc (NewDataAvailable_calls rm) \<rparr>"

text \<open>
  The ADXL345 registers the device names, and the values it writes to them, by the names
  of Adxl345.h (which is not among the sources): no claim depends on their numbers.
  \<open>Test_register\<close> is the register a test property names, \<open>(BYTE)m_TestRegister\<close>.
  \<open>Test_data\<close> is the buffer SetTestProperty passes on, the pointer \<open>caub.pElems\<close> of
  the caller's variant: \<open>None\<close> when it is null, otherwise the bytes it points to. Every
  other value is written from a buffer the device has just allocated, which is not null.
\<close>

datatype adxl345_register =
    ADXL345_INT_ENABLE
  | ADXL345_INT_SOURCE
  | ADXL345_POWER_CTL
  | ADXL345_BW_RATE
  | ADXL345_THRESH_ACT
  | ADXL345_DATA_X0
  | Test_register "8 word"

datatype register_value =
    Zero
  | ADXL345_INT_ACTIVITY
  | ADXL345_POWER_CTL_STANDBY
  | ADXL345_POWER_CTL_MEASURE
  | RateCode_for "32 word"
  | Threshold_for "real option"
  | Test_data "8 word list option"

text \<open>
  The bus. Every request the device sends (CSpbRequest, not among the sources) takes the
  next response of the environment: a status and, for a read, the bytes read. When the
  responses are used up a request succeeds and reads zeros.
\<close>

type_synonym spb_response = "hresult \<times> 8 word list"

record CAccelerometerDevice =
  m_spSensorPropertyValues :: portable_device_values
  m_spSensorDataFieldValues :: portable_device_values
  m_pClientManager :: CClientManager
  m_pReportManager :: CReportManager
  m_fStateChanged :: bool
  m_fSensorInitialized :: bool
  m_DataUpdateMode :: DATA_UPDATE_MODE
  m_fInitialized :: bool
  m_InterruptsEnabled :: register_value
  m_TestRegister :: "32 word"
  m_TestDataSize :: "32 word"
  spb_responses :: "spb_response list"
  system_time :: nat

text \<open>
  CAccelerometerDevice::WriteRegister. A null \<open>pDataBuffer\<close> is refused before the bus is
  used. The bytes written do not influence the responses of the model's bus, so the
  length is not carried.
\<close>

definition WriteRegister ::
  "adxl345_register \<Rightarrow> register_value \<Rightarrow> CAccelerometerDevice \<Rightarrow> hresult \<times> CAccelerometerDevice" where
  "WriteRegister reg pDataBuffer dev =
     (if \<not> m_fInitialized dev then (E_UNEXPECTED, dev)
      else if pDataBuffer = Test_data None then (E_INVALIDARG, dev)
      else case spb_responses dev of
             [] \<Rightarrow> (S_OK, dev)
           | (hr, bytes) # rest \<Rightarrow> (hr, dev \<lparr> spb_responses := rest \<rparr>))"

text \<open>CAccelerometerDevice::ReadRegister; the bytes are those of the buffer on success.\<close>

definition ReadRegister ::
  "adxl345_register \<Rightarrow> nat \<Rightarrow> CAccelerometerDevice \<Rightarrow> hresult \<times> 8 word list \<times> CAccelerometerDevice" where
  "ReadRegister reg dataBufferLength dev =
     (if \<not> m_fInitialized dev then (E_UNEXPECTED, [], dev)
      else case spb_responses dev of
             [] \<Rightarrow> (S_OK, replicate dataBufferLength 0, dev)
           | (hr, bytes) # rest \<Rightarrow>
               (hr, take dataBufferLength (bytes @ replicate dataBufferLength 0),
                dev \<lparr> spb_responses := rest \<rparr>))"

text \<open>CAccelerometerDevice::SetDeviceStateStandby\<close>

definition SetDeviceStateStandby :: "CAccelerometerDevice \<Rightarrow> hresult \<times> CAccelerometerDevice" where
  "SetDeviceStateStandby dev =
     (case WriteRegister ADXL345_INT_ENABLE Zero dev of (hr1, dev1) \<Rightarrow>
        let dev1' = (if FAILED hr1 then dev1 else dev1 \<lparr> m_InterruptsEnabled := Zero \<rparr>) in
        case (if SUCCEEDED hr1
              then (case ReadRegister ADXL345_INT_SOURCE 1 dev1' of (hr2, bytes, dev2) \<Rightarrow> (hr2, dev2))
              else (hr1, dev1')) of (hr2, dev2) \<Rightarrow>
          WriteRegister ADXL345_POWER_CTL ADXL345_POWER_CTL_STANDBY dev2)"

text \<open>CAccelerometerDevice::SetDeviceStatePolling\<close>

definition SetDeviceStatePolling :: "CAccelerometerDevice \<Rightarrow> hresult \<times> CAccelerometerDevice" where
  "SetDeviceStatePolling dev =
     (case WriteRegister ADXL345_INT_ENABLE Zero dev of (hr1, dev1) \<Rightarrow>
        if FAILED hr1 then (hr1, dev1)
        else WriteRegister ADXL345_POWER_CTL ADXL345_POWER_CTL_MEASURE
               (dev1 \<lparr> m_InterruptsEnabled := Zero \<rparr>))"

text \<open>CAccelerometerDevice::SetDeviceStateEventing\<close>

definition SetDeviceStateEventing :: "CAccelerometerDevice \<Rightarrow> hresult \<times> CAccelerometerDevice" where
  "SetDeviceStateEventing dev =
     (case WriteRegister ADXL345_POWER_CTL ADXL345_POWER_CTL_MEASURE dev of (hr1, dev1) \<Rightarrow>
        if SUCCEEDED hr1 then
          (case WriteRegister ADXL345_INT_ENABLE ADXL345_INT_ACTIVITY dev1 of (hr2, dev2) \<Rightarrow>
             if FAILED hr2 then (hr2, dev2)
             else (hr2, dev2 \<lparr> m_InterruptsEnabled := ADXL345_INT_ACTIVITY \<rparr>))
        else (hr1, dev1))"

text \<open>
  The three writes that CAccelerometerDevice::SetReportInterval and SetChangeSensitivity
  share: interrupts off, the register, interrupts on; each only after the one before
  succeeded.
\<close>

definition reprogram ::
  "adxl345_register \<Rightarrow> register_value \<Rightarrow> CAccelerometerDevice \<Rightarrow> hresult \<times> CAccelerometerDevice" where
  "reprogram reg v dev =
     (case WriteRegister ADXL345_INT_ENABLE Zero dev of (hr1, dev1) \<Rightarrow>
        if SUCCEEDED hr1 then
          (case WriteRegister reg v dev1 of (hr2, dev2) \<Rightarrow>
             if SUCCEEDED hr2 then WriteRegister ADXL345_INT_ENABLE ADXL345_INT_ACTIVITY dev2
             else (hr2, dev2))
        else (hr1, dev1))"

text \<open>CAccelerometerDevice::SetReportInterval\<close>

definition SetReportInterval :: "32 word \<Rightarrow> CAccelerometerDevice \<Rightarrow> hresult \<times> CAccelerometerDevice" where
  "SetReportInterval ReportInterval dev =
     (if \<not> m_fInitialized dev then (E_UNEXPECTED, dev)
      else reprogram ADXL345_BW_RATE (RateCode_for ReportInterval) dev)"

text \<open>
  CAccelerometerDevice::SetChangeSensitivity: the smallest VT\_R8 value of the collection
  (\<open>None\<close> stands for the DBL\_MAX the search starts from) is turned into the threshold.
\<close>

definition minChangeSensitivity :: "portable_device_values \<Rightarrow> real option" where
  "minChangeSensitivity vs =
     fold (\<lambda>kv m. case snd kv of
                     VT_R8 x \<Rightarrow> (case m of None \<Rightarrow> Some x | Some y \<Rightarrow> if x < y then Some x else Some y)
                   | _ \<Rightarrow> m) vs None"

definition SetChangeSensitivity :: "propvariant \<Rightarrow> CAccelerometerDevice \<Rightarrow> hresult \<times> CAccelerometerDevice" where
  "SetChangeSensitivity pVar dev =
     (if \<not> m_fInitialized dev then (E_UNEXPECTED, dev)
      else case pVar of
             VT_UNKNOWN spPerDataFieldValues \<Rightarrow>
               reprogram ADXL345_THRESH_ACT (Threshold_for (minChangeSensitivity spPerDataFieldValues)) dev
           | _ \<Rightarrow> (E_INVALIDARG, dev))"

text \<open>CSensorDevice::SetDataUpdateMode\<close>

definition SetDataUpdateMode :: "DATA_UPDATE_MODE \<Rightarrow> CAccelerometerDevice \<Rightarrow> hresult \<times> CAccelerometerDevice" where
  "SetDataUpdateMode Mode dev =
     (case (case Mode of
              DataUpdateModeOff \<Rightarrow> SetDeviceStateStandby dev
            | DataUpdateModePolling \<Rightarrow> SetDeviceStatePolling dev
            | DataUpdateModeEventing \<Rightarrow> SetDeviceStateEventing dev) of (hr, dev1) \<Rightarrow>
        if SUCCEEDED hr then (hr, dev1 \<lparr> m_DataUpdateMode := Mode \<rparr>) else (hr, dev1))"

text \<open>
  \<open>var.ulVal\<close> in ApplyUpdatedProperties: the member of the union read as a ULONG, from
  the variant GetArbitratedProperty has just filled for the report interval, which is
  always a VT\_UI4. The other tags do not occur there.
\<close>

definition ulVal :: "propvariant \<Rightarrow> 32 word" where
  "ulVal var = (case var of VT_UI4 w \<Rightarrow> w | _ \<Rightarrow> 0)"

text \<open>CSensorDevice::ApplyUpdatedProperties, the block that updates the report interval.\<close>

definition apply_report_interval :: "CAccelerometerDevice \<Rightarrow> hresult \<times> CAccelerometerDevice" where
  "apply_report_interval dev =
     (case GetArbitratedProperty SENSOR_PROPERTY_CURRENT_REPORT_INTERVAL (m_pClientManager dev) of
        (hr, var) \<Rightarrow>
          if SUCCEEDED hr then
            (case SetReportInterval (ulVal var) dev of (hr1, dev1) \<Rightarrow>
               if SUCCEEDED hr1
               then (hr1, dev1 \<lparr> m_pReportManager :=
                        ReportManager_SetReportInterval (ulVal var) (m_pReportManager dev1) \<rparr>)
               else (hr1, dev1))
          else (hr, dev))"

text \<open>The block that updates the change sensitivity.\<close>

definition apply_change_sensitivity :: "CAccelerometerDevice \<Rightarrow> hresult \<times> CAccelerometerDevice" where
  "apply_change_sensitivity dev =
     (case GetArbitratedProperty SENSOR_PROPERTY_CHANGE_SENSITIVITY (m_pClientManager dev) of
        (hr, var) \<Rightarrow> if SUCCEEDED hr then SetChangeSensitivity var dev else (hr, dev))"

text \<open>CSensorDevice::ApplyUpdatedProperties\<close>

definition ApplyUpdatedProperties :: "CAccelerometerDevice \<Rightarrow> hresult \<times> CAccelerometerDevice" where
  "ApplyUpdatedProperties dev =
     (if \<not> m_fSensorInitialized dev then (E_UNEXPECTED, dev)
      else
        case apply_report_interval dev of (hr1, dev1) \<Rightarrow>
        case (if SUCCEEDED hr1 then apply_change_sensitivity dev1 else (hr1, dev1)) of (hr2, dev2) \<Rightarrow>
        if SUCCEEDED hr2 then
          (if GetDataUpdateMode (m_pClientManager dev2) \<noteq> m_DataUpdateMode dev2
           then SetDataUpdateMode (GetDataUpdateMode (m_pClientManager dev2)) dev2
           else (hr2, dev2))
        else (hr2, dev2))"

text \<open>CSensorDevice::IsTestProperty\<close>

definition IsTestProperty :: "propertykey \<Rightarrow> bool" where
  "IsTestProperty key =
     (key = SENSOR_PROPERTY_TEST_REGISTER \<or> key = SENSOR_PROPERTY_TEST_DATA_SIZE \<or>
      key = SENSOR_PROPERTY_TEST_DATA)"

text \<open>CAccelerometerDevice::GetTestProperty\<close>

definition GetTestProperty ::
  "propertykey \<Rightarrow> CAccelerometerDevice \<Rightarrow> hresult \<times> propvariant \<times> CAccelerometerDevice" where
  "GetTestProperty key dev =
     (if \<not> m_fInitialized dev then (E_UNEXPECTED, VT_EMPTY, dev)
      else if key = SENSOR_PROPERTY_TEST_REGISTER then (S_OK, VT_UI4 (m_TestRegister dev), dev)
      else if key = SENSOR_PROPERTY_TEST_DATA_SIZE then (S_OK, VT_UI4 (m_TestDataSize dev), dev)
      else if key = SENSOR_PROPERTY_TEST_DATA then
        (case ReadRegister (Test_register (ucast (m_TestRegister dev))) (unat (m_TestDataSize dev)) dev of
           (hr, bytes, dev1) \<Rightarrow>
             if SUCCEEDED hr then (hr, VT_VECTOR_UI1 bytes, dev1) else (hr, VT_EMPTY, dev1))
      else (HRESULT_FROM_WIN32 ERROR_NOT_FOUND, VT_EMPTY, dev))"

text \<open>
  The members of the PROPVARIANT union that SetTestProperty reads without looking at the
  tag: \<open>ulVal\<close> and \<open>caub.pElems\<close>. Where the tag selects the member, what is read is what
  the variant carries: the number of a VT\_UI4, the bytes of a non-empty byte vector.
  \<open>ulVal\<close> shares its four bytes with the element count of a vector, with the status of
  a VT\_ERROR and with the low half of a FILETIME. Everywhere else the bytes read belong
  to another member of the union or to none, and the value the model keeps for the
  variant does not determine them; \<open>other\<close> gives what is read there (\<open>None\<close> for a null
  pointer).
\<close>

record union_members =
  ulVal_member :: "32 word"
  pElems_member :: "8 word list option"

definition read_ulVal :: "(propvariant \<Rightarrow> union_members) \<Rightarrow> propvariant \<Rightarrow> 32 word" where
  "read_ulVal other pVar =
     (case pVar of
        VT_UI4 w \<Rightarrow> w
      | VT_VECTOR_UI1 bytes \<Rightarrow> of_nat (length bytes)
      | VT_ERROR e \<Rightarrow> word_of_int e
      | VT_FILETIME t \<Rightarrow> of_nat t
      | _ \<Rightarrow> ulVal_member (other pVar))"

definition read_pElems :: "(propvariant \<Rightarrow> union_members) \<Rightarrow> propvariant \<Rightarrow> 8 word list option" where
  "read_pElems other pVar =
     (case pVar of
        VT_VECTOR_UI1 bytes \<Rightarrow> if bytes = [] then pElems_member (other pVar) else Some bytes
      | _ \<Rightarrow> pElems_member (other pVar))"

text \<open>CAccelerometerDevice::SetTestProperty; \<open>pVar\<close> is never null in the model.\<close>

definition SetTestProperty ::
  "(propvariant \<Rightarrow> union_members) \<Rightarrow> propertykey \<Rightarrow> propvariant \<Rightarrow> CAccelerometerDevice
     \<Rightarrow> hresult \<times> CAccelerometerDevice" where
  "SetTestProperty other key pVar dev =
     (if \<not> m_fInitialized dev then (E_UNEXPECTED, dev)
      else if key = SENSOR_PROPERTY_TEST_REGISTER
        then (S_OK, dev \<lparr> m_TestRegister := read_ulVal other pVar \<rparr>)
      else if key = SENSOR_PROPERTY_TEST_DATA_SIZE
        then (S_OK, dev \<lparr> m_TestDataSize := read_ulVal other pVar \<rparr>)
      else if key = SENSOR_PROPERTY_TEST_DATA
        then WriteRegister (Test_register (ucast (m_TestRegister dev)))
               (Test_data (read_pElems other pVar)) dev
      else (HRESULT_FROM_WIN32 ERROR_NOT_FOUND, dev))"

text \<open>CSensorDevice::GetProperty\<close>

definition GetProperty ::
  "propertykey \<Rightarrow> CAccelerometerDevice \<Rightarrow> hresult \<times> propvariant \<times> CAccelerometerDevice" where
  "GetProperty key dev =
     (if IsTestProperty key then GetTestProperty key dev
      else if key = SENSOR_PROPERTY_CHANGE_SENSITIVITY \<or> key = SENSOR_PROPERTY_CURRENT_REPORT_INTERVAL
        then (case GetArbitratedProperty key (m_pClientManager dev) of (hr, var) \<Rightarrow> (hr, var, dev))
      else (case GetValue key (m_spSensorPropertyValues dev) of (hr, var) \<Rightarrow> (hr, var, dev)))"

text \<open>The SensorState values the device uses, as stored in the state property.\<close>

definition SENSOR_STATE_READY :: "32 word" where
  "SENSOR_STATE_READY = 0"

definition SENSOR_STATE_NO_DATA :: "32 word" where
  "SENSOR_STATE_NO_DATA = 2"

text \<open>PropVariantToUInt32, whose result the device does not check: 0 when the value has no such reading.\<close>

definition PropVariantToUInt32 :: "propvariant \<Rightarrow> 32 word" where
  "PropVariantToUInt32 var = (case var of VT_UI4 w \<Rightarrow> w | _ \<Rightarrow> 0)"

text \<open>CSensorDevice::SetState\<close>

definition SetState :: "32 word \<Rightarrow> CAccelerometerDevice \<Rightarrow> hresult \<times> CAccelerometerDevice" where
  "SetState newState dev =
     (case GetProperty SENSOR_PROPERTY_STATE dev of (hr, var, dev1) \<Rightarrow>
        if SUCCEEDED hr then
          (if PropVariantToUInt32 var \<noteq> newState
           then (S_OK, dev1 \<lparr> m_spSensorPropertyValues :=
                           SetValue SENSOR_PROPERTY_STATE (VT_UI4 newState) (m_spSensorPropertyValues dev1),
                         m_fStateChanged := True \<rparr>)
           else (hr, dev1))
        else (hr, dev1))"

text \<open>CSensorDevice::SetTimeStamp; \<open>system_time\<close> is what the clock returns.\<close>

definition SetTimeStamp :: "CAccelerometerDevice \<Rightarrow> hresult \<times> CAccelerometerDevice" where
  "SetTimeStamp dev =
     (S_OK, dev \<lparr> m_spSensorDataFieldValues :=
                    SetValue SENSOR_DATA_TYPE_TIMESTAMP (VT_FILETIME (system_time dev))
                      (m_spSensorDataFieldValues dev) \<rparr>)"

text \<open>The loop of DataAvailable and PollForData that writes each value into the cache.\<close>

definition update_cache :: "portable_device_values \<Rightarrow> CAccelerometerDevice \<Rightarrow> CAccelerometerDevice" where
  "update_cache pValues dev =
     dev \<lparr> m_spSensorDataFieldValues :=
             fold (\<lambda>kv cache. SetValue (fst kv) (snd kv) cache) pValues (m_spSensorDataFieldValues dev) \<rparr>"

text \<open>CSensorDevice::RaiseDataEvent\<close>

definition RaiseDataEvent :: "CAccelerometerDevice \<Rightarrow> CAccelerometerDevice" where
  "RaiseDataEvent dev =
     (if 0 < m_SubscriberCount (m_pClientManager dev)
      then dev \<lparr> m_pReportManager := NewDataAvailable (m_pReportManager dev) \<rparr>
      else dev)"

text \<open>CSensorDevice::DataAvailable\<close>

definition DataAvailable :: "portable_device_values \<Rightarrow> CAccelerometerDevice \<Rightarrow> hresult \<times> CAccelerometerDevice" where
  "DataAvailable pValues dev =
     (case SetTimeStamp dev of (hr1, dev1) \<Rightarrow>
        if SUCCEEDED hr1 then
          (case SetState SENSOR_STATE_READY (update_cache pValues dev1) of (hr2, dev2) \<Rightarrow>
             if SUCCEEDED hr2 then (hr2, RaiseDataEvent dev2) else (hr2, dev2))
        else (hr1, dev1))"

text \<open>
  CAccelerometerDevice::AddDataFieldValue. The bounds ACCELEROMETER\_MIN\_ACCELERATION\_G
  and ACCELEROMETER\_MAX\_ACCELERATION\_G come from Adxl345.h, which is not among the
  sources, and are the parameter \<open>bounds\<close> (minimum, maximum).
\<close>

definition AddDataFieldValue ::
  "real \<times> real \<Rightarrow> propertykey \<Rightarrow> propvariant \<Rightarrow> portable_device_values
     \<Rightarrow> hresult \<times> portable_device_values" where
  "AddDataFieldValue bounds key pVar pValues =
     (if key = SENSOR_DATA_TYPE_ACCELERATION_X_G \<or> key = SENSOR_DATA_TYPE_ACCELERATION_Y_G \<or>
         key = SENSOR_DATA_TYPE_ACCELERATION_Z_G
      then (case pVar of
              VT_R8 dblVal \<Rightarrow>
                if dblVal < fst bounds \<or> dblVal > snd bounds then (E_INVALIDARG, pValues)
                else (S_OK, SetValue key pVar pValues)
            | _ \<Rightarrow> (E_INVALIDARG, pValues))
      else (S_OK, SetValue key pVar pValues))"

text \<open>\<open>(SHORT)((hi << 8) | lo) * (1/256.0F)\<close>\<close>

definition acceleration :: "8 word \<Rightarrow> 8 word \<Rightarrow> real" where
  "acceleration hi lo =
     (let u = 256 * uint hi + uint lo;
          raw = (if u < 32768 then u else u - 65536)
      in real_of_int raw / 256)"

text \<open>CAccelerometerDevice::RequestData\<close>

definition RequestData ::
  "real \<times> real \<Rightarrow> portable_device_values \<Rightarrow> CAccelerometerDevice
     \<Rightarrow> hresult \<times> portable_device_values \<times> CAccelerometerDevice" where
  "RequestData bounds pValues dev =
     (if \<not> m_fInitialized dev then (E_UNEXPECTED, pValues, dev)
      else case ReadRegister ADXL345_DATA_X0 6 dev of (hr, buf, dev1) \<Rightarrow>
        if SUCCEEDED hr then
          (case AddDataFieldValue bounds SENSOR_DATA_TYPE_ACCELERATION_X_G
                  (VT_R8 (acceleration (buf ! 1) (buf ! 0))) pValues of (hrX, valuesX) \<Rightarrow>
             if SUCCEEDED hrX then
               (case AddDataFieldValue bounds SENSOR_DATA_TYPE_ACCELERATION_Y_G
                       (VT_R8 (acceleration (buf ! 3) (buf ! 2))) valuesX of (hrY, valuesY) \<Rightarrow>
                  if SUCCEEDED hrY then
                    (case AddDataFieldValue bounds SENSOR_DATA_TYPE_ACCELERATION_Z_G
                            (VT_R8 (acceleration (buf ! 5) (buf ! 4))) valuesY of (hrZ, valuesZ) \<Rightarrow>
                       (hrZ, valuesZ, dev1))
                  else (hrY, valuesY, dev1))
             else (hrX, valuesX, dev1))
        else (hr, pValues, dev1))"

text \<open>CAccelerometerDevice::RequestNewData\<close>

definition RequestNewData ::
  "real \<times> real \<Rightarrow> portable_device_values \<Rightarrow> CAccelerometerDevice
     \<Rightarrow> hresult \<times> portable_device_values \<times> CAccelerometerDevice" where
  "RequestNewData bounds pValues dev =
     (if \<not> m_fInitialized dev then (E_UNEXPECTED, pValues, dev)
      else RequestData bounds pValues dev)"

text \<open>CSensorDevice::PollForData\<close>

definition PollForData :: "real \<times> real \<Rightarrow> CAccelerometerDevice \<Rightarrow> hresult \<times> CAccelerometerDevice" where
  "PollForData bounds dev =
     (case RequestNewData bounds [] dev of (hr, spValues, dev1) \<Rightarrow>
        if SUCCEEDED hr then
          (case SetTimeStamp (update_cache spValues dev1) of (hr2, dev2) \<Rightarrow>
             if SUCCEEDED hr2 then SetState SENSOR_STATE_READY dev2 else (hr2, dev2))
        else (hr, dev1))"

text \<open>CAccelerometerDevice::OnInterruptWorkItem, for a device whose context is retrieved.\<close>

definition OnInterruptWorkItem :: "real \<times> real \<Rightarrow> CAccelerometerDevice \<Rightarrow> CAccelerometerDevice" where
  "OnInterruptWorkItem bounds dev =
     (case RequestData bounds [] dev of (hr, spValues, dev1) \<Rightarrow>
        if SUCCEEDED hr then snd (DataAvailable spValues dev1) else dev1)"

text \<open>
  CSensorDevice::SetProperties, the body of the loop for one item: the status
  \<open>hrTemp\<close>, \<open>varResult\<close> and the device afterwards.
\<close>

definition SetProperties_item ::
  "(propvariant \<Rightarrow> union_members) \<Rightarrow> IWDFFile \<Rightarrow> propertykey \<times> propvariant \<Rightarrow> CAccelerometerDevice
     \<Rightarrow> hresult \<times> propvariant \<times> CAccelerometerDevice" where
  "SetProperties_item other appId kv dev =
     (if IsTestProperty (fst kv)
      then (case SetTestProperty other (fst kv) (snd kv) dev of (hrTemp, dev1) \<Rightarrow> (hrTemp, VT_EMPTY, dev1))
      else (case SetDesiredProperty appId (fst kv) (snd kv) (m_pClientManager dev) of
              (hrTemp, varResult, cm) \<Rightarrow> (hrTemp, varResult, dev \<lparr> m_pClientManager := cm \<rparr>)))"

text \<open>The loop; the state is the result collection, \<open>fError\<close> and the device.\<close>

fun SetProperties_loop ::
  "(propvariant \<Rightarrow> union_members) \<Rightarrow> IWDFFile \<Rightarrow> portable_device_values
     \<Rightarrow> portable_device_values \<times> bool \<times> CAccelerometerDevice
     \<Rightarrow> portable_device_values \<times> bool \<times> CAccelerometerDevice" where
  "SetProperties_loop other appId [] s = s"
| "SetProperties_loop other appId (kv # rest) (results, fError, dev) =
     (case SetProperties_item other appId kv dev of (hrTemp, varResult, dev1) \<Rightarrow>
        if SUCCEEDED hrTemp
        then SetProperties_loop other appId rest
               (SetValue (fst kv) varResult results, fError \<or> hrTemp \<noteq> S_OK, dev1)
        else SetProperties_loop other appId rest
               (SetErrorValue (fst kv) hrTemp results, True, dev1))"

text \<open>CSensorDevice::SetProperties\<close>

definition SetProperties ::
  "(propvariant \<Rightarrow> union_members) \<Rightarrow> IWDFFile \<Rightarrow> portable_device_values \<Rightarrow> CAccelerometerDevice
     \<Rightarrow> hresult \<times> portable_device_values \<times> CAccelerometerDevice" where
  "SetProperties other appId pProperties dev =
     (case SetProperties_loop other appId pProperties ([], False, dev) of (results, fError, dev1) \<Rightarrow>
        case ApplyUpdatedProperties dev1 of (hr, dev2) \<Rightarrow>
          (if SUCCEEDED hr \<and> fError then S_FALSE else hr, results, dev2))"

text \<open>
  A device as it stands after initialisation: the state property holds NO\_DATA, every
  data field is present and empty, no client is connected, the mode is Off.
\<close>

definition example_device :: CAccelerometerDevice where
  "example_device =
     \<lparr> m_spSensorPropertyValues = [(SENSOR_PROPERTY_STATE, VT_UI4 SENSOR_STATE_NO_DATA)],
       m_spSensorDataFieldValues =
         [(SENSOR_DATA_TYPE_TIMESTAMP, VT_EMPTY),
          (SENSOR_DATA_TYPE_ACCELERATION_X_G, VT_EMPTY),
          (SENSOR_DATA_TYPE_ACCELERATION_Y_G, VT_EMPTY),
          (SENSOR_DATA_TYPE_ACCELERATION_Z_G, VT_EMPTY)],
       m_pClientManager = example_manager,
       m_pReportManager = \<lparr> m_ReportInterval = 1000, NewDataAvailable_calls = 0 \<rparr>,
       m_fStateChanged = False,
       m_fSensorInitialized = True,
       m_DataUpdateMode = DataUpdateModeOff,
       m_fInitialized = True,
       m_InterruptsEnabled = Zero,
       m_TestRegister = 0,
       m_TestDataSize = 0,
       spb_responses = [],
       system_time = 0 \<rparr>"

definition E_FAIL :: hresult where
  "E_FAIL = 16389 + 2 ^ 31 - 2 ^ 32"

text \<open>
  The last client has gone (the client manager derives Off) while the device is still
  in Polling mode; of the two writes of SetDeviceStateStandby the first fails.
\<close>

definition standby_device :: CAccelerometerDevice where
  "standby_device =
     example_device \<lparr> m_DataUpdateMode := DataUpdateModePolling,
                      spb_responses := [(E_FAIL, []), (S_OK, [])] \<rparr>"

text \<open>The same device before ApplyUpdatedProperties: six successful writes come first.\<close>

definition apply_device :: CAccelerometerDevice where
  "apply_device =
     example_device \<lparr> m_DataUpdateMode := DataUpdateModePolling,
                      spb_responses := replicate 6 (S_OK, []) @ [(E_FAIL, []), (S_OK, [])] \<rparr>"

text \<open>A value lies within the declared range.\<close>

definition in_range :: "real \<times> real \<Rightarrow> real \<Rightarrow> bool" where
  "in_range bounds v = (fst bounds \<le> v \<and> v \<le> snd bounds)"

text \<open>
  A sample whose X value is 32767/256 g, far outside \<open>\<plusminus>16 g\<close>, and whose Y and Z values
  are 0 g.
\<close>

definition overrange_device :: CAccelerometerDevice where
  "overrange_device = example_device \<lparr> spb_responses := [(S_OK, [0xFF, 0x7F, 0, 0, 0, 0])] \<rparr>"

section \<open>Batches: what each item should give\<close>

text \<open>The desired sensitivity values the client manager holds for a client.\<close>

definition desired_values :: "IWDFFile \<Rightarrow> CClientManager \<Rightarrow> portable_device_values" where
  "desired_values pClientFile cm =
     (case find_client pClientFile (m_pClientList cm) of
        Some entry \<Rightarrow> pDesiredSensitivityValues entry
      | None \<Rightarrow> [])"

text \<open>A device with one connected client, and two batches with an invalid item in the middle.\<close>

definition example_connected_device :: CAccelerometerDevice where
  "example_connected_device =
     example_device \<lparr> m_pClientManager := example_one_client,
                      m_DataUpdateMode := DataUpdateModePolling \<rparr>"

definition example_properties :: portable_device_values where
  "example_properties =
     [(SENSOR_PROPERTY_CURRENT_REPORT_INTERVAL, VT_UI4 200),
      (Other_key 7, VT_UI4 1),
      (SENSOR_PROPERTY_CHANGE_SENSITIVITY,
       VT_UNKNOWN [(SENSOR_DATA_TYPE_ACCELERATION_X_G, VT_R8 (1 / 10))])]"

definition example_sensitivities :: portable_device_values where
  "example_sensitivities =
     [(SENSOR_DATA_TYPE_ACCELERATION_X_G, VT_R8 (1 / 10)),
      (Other_key 9, VT_R8 1),
      (SENSOR_DATA_TYPE_ACCELERATION_Z_G, VT_R8 (1 / 5))]"

text \<open>The desired report interval the client manager holds for a client.\<close>

definition desired_interval :: "IWDFFile \<Rightarrow> CClientManager \<Rightarrow> 32 word" where
  "desired_interval pClientFile cm =
     (case find_client pClientFile (m_pClientList cm) of
        Some entry \<Rightarrow> desiredReportInterval entry
      | None \<Rightarrow> CURRENT_REPORT_INTERVAL_NOT_SET)"

text \<open>
  A valid report-interval item: an unsigned number that is 0 (revert to the default) or
  at least the minimum supported interval.
\<close>

definition valid_report_interval :: "CClientManager \<Rightarrow> propvariant \<Rightarrow> bool" where
  "valid_report_interval cm var =
     (case var of VT_UI4 v \<Rightarrow> v = 0 \<or> m_minSupportedReportInterval cm \<le> v | _ \<Rightarrow> False)"

text \<open>
  A valid sensitivity item: its key is one of the data fields that have a default
  sensitivity, and its value is VT\_NULL (which clears the override) or a double that is
  not negative.
\<close>

definition valid_sensitivity :: "CClientManager \<Rightarrow> propertykey \<Rightarrow> propvariant \<Rightarrow> bool" where
  "valid_sensitivity cm key var =
     (key \<in> set (map fst (m_spDefaultSensitivityValues cm)) \<and>
      (case var of VT_NULL \<Rightarrow> True | VT_R8 x \<Rightarrow> 0 \<le> x | _ \<Rightarrow> False))"

text \<open>The error an invalid sensitivity item gets: unknown field, or bad value.\<close>

definition sensitivity_error :: "CClientManager \<Rightarrow> propertykey \<Rightarrow> hresult" where
  "sensitivity_error cm key =
     (if key \<in> set (map fst (m_spDefaultSensitivityValues cm)) then E_INVALIDARG
      else HRESULT_FROM_WIN32 ERROR_NOT_FOUND)"

text \<open>
  The state Initialize and every registry operation leave the client manager in: the
  invariant \<open>cm_inv\<close>, and every arbitrated minimum sensitivity is a double.
\<close>

definition cm_ready :: "CClientManager \<Rightarrow> bool" where
  "cm_ready cm = (cm_inv cm \<and> list_all (\<lambda>kv. is_r8 (snd kv)) (m_spMinSensitivityValues cm))"

text \<open>The parts of the device that no access to the hardware changes.\<close>

definition kept_by_hardware :: "CAccelerometerDevice \<Rightarrow> CClientManager \<times> 32 word \<times> 32 word \<times> bool" where
  "kept_by_hardware dev = (m_pClientManager dev, m_TestRegister dev, m_TestDataSize dev, m_fInitialized dev)"

text \<open>
  What is read from a variant whose bytes outside the selected member are zero, as
  PropVariantInit leaves them.
\<close>

definition zeroed_members :: "propvariant \<Rightarrow> union_members" where
  "zeroed_members pVar = \<lparr> ulVal_member = 0, pElems_member = None \<rparr>"

text \<open>
  A batch with test properties, a report interval of the wrong type, a null test
  buffer and a sensitivity collection with a negative value, an unknown field and a
  cleared field; and a batch whose sensitivity item is not a collection.
\<close>

definition example_mixed_properties :: portable_device_values where
  "example_mixed_properties =
     [(SENSOR_PROPERTY_TEST_REGISTER, VT_UI4 45),
      (SENSOR_PROPERTY_CURRENT_REPORT_INTERVAL, VT_R8 5),
      (SENSOR_PROPERTY_TEST_DATA, VT_EMPTY),
      (SENSOR_PROPERTY_CHANGE_SENSITIVITY,
       VT_UNKNOWN [(SENSOR_DATA_TYPE_ACCELERATION_X_G, VT_R8 (- 1)),
                   (Other_key 3, VT_R8 1),
                   (SENSOR_DATA_TYPE_ACCELERATION_Y_G, VT_NULL)]),
      (SENSOR_PROPERTY_TEST_DATA_SIZE, VT_UI4 1)]"

definition example_wrong_sensitivity :: portable_device_values where
  "example_wrong_sensitivity =
     [(SENSOR_PROPERTY_CHANGE_SENSITIVITY, VT_UI4 3),
      (SENSOR_PROPERTY_CURRENT_REPORT_INTERVAL, VT_UI4 0)]"

section \<open>The report throttle (ReportManager.h)\<close>

text \<open>
  Modelled from the spec: the implementation of CReportManager (ReportManager.cpp) is not
  among the sources, only its declaration. The state is the one the spec lists: the time
  of the last report, the report interval, whether the loop is active, and the
  pending-data flag. Times are clock readings in milliseconds.
\<close>

record ReportThrottle =
  last_report_time :: nat
  report_interval :: nat
  active :: bool
  pending_data :: bool

text \<open>
  Modelled from the spec: what can happen to the throttle. \<open>Wake now\<close> is the loop
  waking (by the signal or by the timeout) when the clock reads \<open>now\<close>.
\<close>

datatype throttle_event =
    Start nat
  | Stop
  | Set_report_interval nat
  | Notify_new_data
  | Wake nat

text \<open>
  Modelled from the spec: one event. \<open>start\<close> while active is a no-op; \<open>stop\<close> ends the
  loop; \<open>set_report_interval\<close> takes effect on the next wake; \<open>notify_new_data\<close> sets
  the pending flag; on a wake the loop emits a report when it is active, at least the
  report interval has elapsed since the previous report and the pending flag is set, and
  then clears the flag and records the time. The result is the new state and the report
  emitted, if any, as the time of emission and the interval then in effect.
\<close>

fun throttle_step :: "ReportThrottle \<Rightarrow> throttle_event \<Rightarrow> ReportThrottle \<times> (nat \<times> nat) option" where
  "throttle_step s (Start initial_interval) =
     (if active s then (s, None)
      else (s \<lparr> active := True, report_interval := initial_interval \<rparr>, None))"
| "throttle_step s Stop = (s \<lparr> active := False \<rparr>, None)"
| "throttle_step s (Set_report_interval v) = (s \<lparr> report_interval := v \<rparr>, None)"
| "throttle_step s Notify_new_data = (s \<lparr> pending_data := True \<rparr>, None)"
| "throttle_step s (Wake now) =
     (if active s \<and> report_interval s \<le> now - last_report_time s \<and> pending_data s
      then (s \<lparr> pending_data := False, last_report_time := now \<rparr>, Some (now, report_interval s))
      else (s, None))"

text \<open>The reports emitted over a sequence of events, in order.\<close>

fun throttle_run :: "ReportThrottle \<Rightarrow> throttle_event list \<Rightarrow> (nat \<times> nat) list" where
  "throttle_run s [] = []"
| "throttle_run s (e # es) =
     (case throttle_step s e of
        (s', None) \<Rightarrow> throttle_run s' es
      | (s', Some report) \<Rightarrow> report # throttle_run s' es)"

text \<open>The state after a sequence of events.\<close>

fun throttle_state :: "ReportThrottle \<Rightarrow> throttle_event list \<Rightarrow> ReportThrottle" where
  "throttle_state s [] = s"
| "throttle_state s (e # es) = throttle_state (fst (throttle_step s e)) es"

text \<open>The clock readings of the wakes of a sequence of events.\<close>

fun wake_times :: "throttle_event list \<Rightarrow> nat list" where
  "wake_times [] = []"
| "wake_times (Wake now # es) = now # wake_times es"
| "wake_times (e # es) = wake_times es"

text \<open>
  Reports (time, interval in effect) that are each at least their interval after the
  report before them, the first one after \<open>previous\<close>.
\<close>

fun well_spaced :: "nat \<Rightarrow> (nat \<times> nat) list \<Rightarrow> bool" where
  "well_spaced previous [] = True"
| "well_spaced previous ((time, interval) # reports) =
     (previous + interval \<le> time \<and> well_spaced time reports)"

fun is_Start :: "throttle_event \<Rightarrow> bool" where
  "is_Start (Start v) = True"
| "is_Start e = False"

definition example_throttle :: ReportThrottle where
  "example_throttle = \<lparr> last_report_time = 0, report_interval = 100, active = True, pending_data = False \<rparr>"

definition example_events :: "throttle_event list" where
  "example_events =
     [Notify_new_data, Wake 40, Wake 100, Notify_new_data, Set_report_interval 50, Wake 120, Wake 150,
      Notify_new_data, Stop, Notify_new_data, Wake 400]"

section \<open>The data-update mode\<close>

lemma GetDataUpdateMode_cases:
  "(GetDataUpdateMode cm = DataUpdateModeOff) = (m_ClientCount cm = 0) \<and>
   (GetDataUpdateMode cm = DataUpdateModeEventing) =
     (m_ClientCount cm \<noteq> 0 \<and> (0 < m_SubscriberCount cm \<or> m_minReportIntervalExplicitlySet cm)) \<and>
   (GetDataUpdateMode cm = DataUpdateModePolling) =
     (m_ClientCount cm \<noteq> 0 \<and> \<not> (0 < m_SubscriberCount cm \<or> m_minReportIntervalExplicitlySet cm))"
  by (simp add: GetDataUpdateMode_def)

section \<open>Recalculation of the arbitrated settings\<close>

lemma SUCCEEDED_S_OK [simp]: "SUCCEEDED S_OK"
  by (simp add: SUCCEEDED_def S_OK_def)

lemma map_of_SetValue: "map_of (SetValue k v m) = (map_of m)(k \<mapsto> v)"
  by (induction m) auto

lemma keys_SetValue_in: "k \<in> fst ` set m \<Longrightarrow> map fst (SetValue k v m) = map fst m"
  by (induction m) force+

lemma set_SetValue_subset: "set (SetValue k v m) \<subseteq> insert (k, v) (set m)"
  by (induction m) (auto split: if_splits)

lemma SetValue_append_notin:
  "k \<notin> fst ` set pre \<Longrightarrow> SetValue k v (pre @ (k, w) # rest) = pre @ (k, v) # rest"
  by (induction pre) auto

lemma GetAt_append_length: "GetAt (length pre) (pre @ kv # rest) = (S_OK, fst kv, snd kv)"
  by (simp add: GetAt_def)

lemma upt_shift: "[n..<Suc (n + k)] = n # [Suc n..<Suc (n + k)]"
  by (simp add: upt_conv_Cons del: upt_Suc)

lemma reset_loop_aux:
  "distinct (map fst (pre @ rest)) \<Longrightarrow>
   fold (\<lambda>i m. case GetAt i m of (hr, key, var) \<Rightarrow>
                    if SUCCEEDED hr then SetValue key VT_NULL m else m)
     [length pre..<length pre + length rest] (pre @ rest)
   = pre @ map (\<lambda>kv. (fst kv, VT_NULL)) rest"
proof (induction rest arbitrary: pre)
  case Nil
  then show ?case by simp
next
  case (Cons kv rest)
  let ?f = "\<lambda>i m. case GetAt i m of (hr, key, var) \<Rightarrow>
                    if SUCCEEDED hr then SetValue key VT_NULL m else m"
  let ?pre = "pre @ [(fst kv, VT_NULL)]"
  have notin: "fst kv \<notin> fst ` set pre"
    using Cons.prems by auto
  have step: "?f (length pre) (pre @ kv # rest) = ?pre @ rest"
    using SetValue_append_notin [OF notin, of VT_NULL "snd kv" rest]
    by (simp add: GetAt_append_length case_prod_beta)
  have d: "distinct (map fst (?pre @ rest))"
    using Cons.prems by simp
  have "fold ?f [length pre..<length pre + length (kv # rest)] (pre @ kv # rest)
        = fold ?f [Suc (length pre)..<Suc (length pre) + length rest] (?f (length pre) (pre @ kv # rest))"
    by (simp add: upt_shift del: upt_Suc)
  also have "\<dots> = fold ?f [length ?pre..<length ?pre + length rest] (?pre @ rest)"
    by (simp only: step) (simp del: upt_Suc)
  also have "\<dots> = ?pre @ map (\<lambda>kv. (fst kv, VT_NULL)) rest"
    by (rule Cons.IH [OF d])
  finally show ?case by simp
qed

lemma reset_min_values_eq:
  "distinct (map fst vs) \<Longrightarrow> reset_min_values vs = map (\<lambda>kv. (fst kv, VT_NULL)) vs"
  using reset_loop_aux [of "[]" vs] by (simp add: reset_min_values_def GetCount_def)

lemma list_all_SetValue:
  "P (k, v) \<Longrightarrow> list_all P m \<Longrightarrow> list_all P (SetValue k v m)"
  using set_SetValue_subset [of k v m] by (auto simp: list_all_iff)

lemma GetValue_in:
  "k \<in> fst ` set m \<Longrightarrow> \<exists>v. GetValue k m = (S_OK, v) \<and> map_of m k = Some v \<and> (k, v) \<in> set m"
proof -
  assume "k \<in> fst ` set m"
  then obtain v where v: "map_of m k = Some v"
    by (metis domD dom_map_of_conv_image_fst)
  then show ?thesis
    by (auto simp: GetValue_def dest: map_of_SomeD)
qed

lemma combine_append: "combine m (xs @ ys) = combine (combine m xs) ys"
  by (induction xs arbitrary: m) auto

lemma combine_Some: "combine (Some y) xs = Some (Min (insert y (set xs)))"
proof (induction xs arbitrary: y)
  case Nil
  then show ?case by simp
next
  case (Cons x xs)
  have "Min (insert (min y x) (set xs)) = Min (insert y (insert x (set xs)))"
    by (cases "set xs = {}") (auto simp: min.assoc)
  with Cons show ?case by simp
qed

lemma combine_None: "combine None xs = (if xs = [] then None else Some (Min (set xs)))"
  by (cases xs) (simp_all add: combine_Some)

lemma r8_values_Cons: "r8_values k (kv # rest) = r8_values k [kv] @ r8_values k rest"
  by (cases "(k, kv # rest)" rule: r8_values.cases) auto

lemma lookup_sens_SetValue:
  "lookup_sens (SetValue key v mins) k = (if k = key then (case v of VT_R8 x \<Rightarrow> Some x | _ \<Rightarrow> None) else lookup_sens mins k)"
  by (simp add: lookup_sens_def map_of_SetValue)

lemma client_value_step:
  assumes ok: "list_all (\<lambda>kv. null_or_r8 (snd kv)) mins"
    and var: "null_or_r8 var" and key: "key \<in> fst ` set mins"
  shows "\<exists>mins1. fold_client_values ((key, var) # rest) (S_OK, mins) = fold_client_values rest (S_OK, mins1) \<and>
           map fst mins1 = map fst mins \<and> list_all (\<lambda>kv. null_or_r8 (snd kv)) mins1 \<and>
           (\<forall>k. lookup_sens mins1 k = combine (lookup_sens mins k) (r8_values k [(key, var)]))"
proof (cases var)
  case VT_NULL
  then show ?thesis using ok by (intro exI [of _ mins]) simp
next
  case (VT_R8 x)
  obtain varMin where g: "GetValue key mins = (S_OK, varMin)" "map_of mins key = Some varMin" "(key, varMin) \<in> set mins"
    using GetValue_in [OF key] by blast
  have vm: "null_or_r8 varMin"
    using ok g(3) by (auto simp: list_all_iff)
  show ?thesis
  proof (cases varMin)
    case VT_NULL
    show ?thesis
      using ok g VT_R8 VT_NULL key
      by (intro exI [of _ "SetValue key (VT_R8 x) mins"])
         (simp add: keys_SetValue_in list_all_SetValue lookup_sens_SetValue, simp add: lookup_sens_def)
  next
    case (VT_R8 m)
    show ?thesis
      using ok g \<open>var = VT_R8 x\<close> VT_R8 key
      by (intro exI [of _ "SetValue key (VT_R8 (min m x)) mins"])
         (simp add: keys_SetValue_in list_all_SetValue lookup_sens_SetValue, simp add: lookup_sens_def)
  qed (use vm in simp_all)
qed (use var in simp_all)

lemma fold_client_values_ok:
  assumes "list_all (\<lambda>kv. null_or_r8 (snd kv)) mins" and "values_ok mins cv"
  shows "\<exists>mins'. fold_client_values cv (S_OK, mins) = (S_OK, mins') \<and>
           map fst mins' = map fst mins \<and> list_all (\<lambda>kv. null_or_r8 (snd kv)) mins' \<and>
           (\<forall>k. lookup_sens mins' k = combine (lookup_sens mins k) (r8_values k cv))"
  using assms
proof (induction cv arbitrary: mins)
  case Nil
  then show ?case by simp
next
  case (Cons kv cv)
  obtain key var where kv: "kv = (key, var)" by (cases kv)
  have var: "null_or_r8 var" and key: "key \<in> fst ` set mins" and rest: "values_ok mins cv"
    using Cons.prems(2) by (auto simp: values_ok_def kv)
  obtain mins1 where m1: "fold_client_values ((key, var) # cv) (S_OK, mins) = fold_client_values cv (S_OK, mins1)"
      "map fst mins1 = map fst mins" "list_all (\<lambda>kv. null_or_r8 (snd kv)) mins1"
      "\<forall>k. lookup_sens mins1 k = combine (lookup_sens mins k) (r8_values k [(key, var)])"
    using client_value_step [OF Cons.prems(1) var key, of cv] by blast
  have rest1: "values_ok mins1 cv"
    using rest m1(2) by (simp add: values_ok_def)
  obtain mins' where m': "fold_client_values cv (S_OK, mins1) = (S_OK, mins')"
      "map fst mins' = map fst mins1" "list_all (\<lambda>kv. null_or_r8 (snd kv)) mins'"
      "\<forall>k. lookup_sens mins' k = combine (lookup_sens mins1 k) (r8_values k cv)"
    using Cons.IH [OF m1(3) rest1] by blast
  have "\<forall>k. lookup_sens mins' k = combine (lookup_sens mins k) (r8_values k (kv # cv))"
    using m'(4) m1(4) by (subst r8_values_Cons) (simp add: combine_append kv)
  then show ?case
    using m1 m' by (simp add: kv)
qed

lemma client_overrides_Cons:
  "client_overrides k (pe # clients) = r8_values k (pDesiredSensitivityValues (snd pe)) @ client_overrides k clients"
  by (simp add: client_overrides_def)

lemma Min_insert_less:
  fixes d ri :: "'a::linorder"
  assumes "finite S" "d < ri"
  shows "Min (insert ri (insert d S)) = Min (insert d S)"
proof -
  have "Min (insert d S) \<le> d" using assms(1) by simp
  then have "Min (insert d S) \<le> ri" using assms(2) by simp
  then show ?thesis using assms(1) by (simp add: min_absorb2)
qed

lemma Min_insert_ge:
  fixes d ri :: "'a::linorder"
  assumes "finite S" "\<not> d < ri"
  shows "Min (insert ri (insert d S)) = Min (insert ri S)"
proof -
  have "insert ri (insert d S) = insert d (insert ri S)" by auto
  moreover have "Min (insert ri S) \<le> d" using assms by (auto simp: Min_le_iff not_less)
  ultimately show ?thesis using assms(1) by (simp add: min_absorb2)
qed

lemma fold_clients_ok:
  assumes "list_all (\<lambda>kv. null_or_r8 (snd kv)) mins"
    and "list_all (\<lambda>pe. values_ok mins (pDesiredSensitivityValues (snd pe))) clients"
  shows "\<exists>mins'. fold_clients clients (S_OK, mins, ri, ex) =
             (S_OK, mins', Min (insert ri (set (explicit_intervals clients))),
              ex \<or> (\<exists>d \<in> set (explicit_intervals clients). d < ri)) \<and>
           map fst mins' = map fst mins \<and> list_all (\<lambda>kv. null_or_r8 (snd kv)) mins' \<and>
           (\<forall>k. lookup_sens mins' k = combine (lookup_sens mins k) (client_overrides k clients))"
  using assms
proof (induction clients arbitrary: mins ri ex)
  case Nil
  then show ?case by (simp add: explicit_intervals_def client_overrides_def)
next
  case (Cons pe clients)
  obtain p entry where pe: "pe = (p, entry)" by (cases pe)
  let ?d = "desiredReportInterval entry"
  have v: "values_ok mins (pDesiredSensitivityValues entry)"
    and rest: "list_all (\<lambda>pe. values_ok mins (pDesiredSensitivityValues (snd pe))) clients"
    using Cons.prems(2) by (simp_all add: pe)
  obtain mins1 where m1: "fold_client_values (pDesiredSensitivityValues entry) (S_OK, mins) = (S_OK, mins1)"
      "map fst mins1 = map fst mins" "list_all (\<lambda>kv. null_or_r8 (snd kv)) mins1"
      "\<forall>k. lookup_sens mins1 k = combine (lookup_sens mins k) (r8_values k (pDesiredSensitivityValues entry))"
    using fold_client_values_ok [OF Cons.prems(1) v] by blast
  have rest1: "list_all (\<lambda>pe. values_ok mins1 (pDesiredSensitivityValues (snd pe))) clients"
    using rest m1(2) by (simp add: values_ok_def)
  have sens: "\<And>mins'. \<forall>k. lookup_sens mins' k = combine (lookup_sens mins1 k) (client_overrides k clients) \<Longrightarrow>
     \<forall>k. lookup_sens mins' k = combine (lookup_sens mins k) (client_overrides k (pe # clients))"
    using m1(4) by (simp add: client_overrides_Cons combine_append pe)
  show ?case
  proof (cases "?d \<noteq> CURRENT_REPORT_INTERVAL_NOT_SET \<and> ?d < ri")
    case True
    obtain mins' where m': "fold_clients clients (S_OK, mins1, ?d, True) =
             (S_OK, mins', Min (insert ?d (set (explicit_intervals clients))),
              True \<or> (\<exists>d \<in> set (explicit_intervals clients). d < ?d))"
         "map fst mins' = map fst mins1" "list_all (\<lambda>kv. null_or_r8 (snd kv)) mins'"
         "\<forall>k. lookup_sens mins' k = combine (lookup_sens mins1 k) (client_overrides k clients)"
      using Cons.IH [OF m1(3) rest1, of ?d True] by blast
    have e: "explicit_intervals (pe # clients) = ?d # explicit_intervals clients"
      using True by (simp add: explicit_intervals_def pe CURRENT_REPORT_INTERVAL_NOT_SET_def)
    have "Min (insert ri (set (explicit_intervals (pe # clients)))) = Min (insert ?d (set (explicit_intervals clients)))"
      unfolding e list.set using True by (intro Min_insert_less) simp_all
    moreover have "ex \<or> (\<exists>d \<in> set (explicit_intervals (pe # clients)). d < ri)"
      using True by (simp add: e)
    ultimately show ?thesis
      using m1 m' sens [OF m'(4)] True by (simp add: pe)
  next
    case False
    obtain mins' where m': "fold_clients clients (S_OK, mins1, ri, ex) =
             (S_OK, mins', Min (insert ri (set (explicit_intervals clients))),
              ex \<or> (\<exists>d \<in> set (explicit_intervals clients). d < ri))"
         "map fst mins' = map fst mins1" "list_all (\<lambda>kv. null_or_r8 (snd kv)) mins'"
         "\<forall>k. lookup_sens mins' k = combine (lookup_sens mins1 k) (client_overrides k clients)"
      using Cons.IH [OF m1(3) rest1, of ri ex] by blast
    have "Min (insert ri (set (explicit_intervals (pe # clients)))) = Min (insert ri (set (explicit_intervals clients)))"
    proof (cases "?d = 0")
      case True
      then show ?thesis by (simp add: explicit_intervals_def pe)
    next
      case d0: False
      then have e: "explicit_intervals (pe # clients) = ?d # explicit_intervals clients"
        by (simp add: explicit_intervals_def pe)
      have "\<not> ?d < ri"
        using False d0 by (simp add: CURRENT_REPORT_INTERVAL_NOT_SET_def)
      then show ?thesis
        unfolding e list.set by (intro Min_insert_ge) simp_all
    qed
    moreover have "(\<exists>d \<in> set (explicit_intervals (pe # clients)). d < ri) = (\<exists>d \<in> set (explicit_intervals clients). d < ri)"
      using False by (auto simp: explicit_intervals_def pe CURRENT_REPORT_INTERVAL_NOT_SET_def)
    moreover have "fold_clients (pe # clients) (S_OK, mins, ri, ex) = fold_clients clients (S_OK, mins1, ri, ex)"
      using m1(1) False by (auto simp: pe)
    ultimately show ?thesis
      using m1(2) m' sens [OF m'(4)] by simp
  qed
qed

lemma fill_defaults_aux:
  assumes "distinct (map fst (pre @ rest))"
    and "fst ` set rest \<subseteq> fst ` set dflt"
  shows "fill_defaults [length pre..<length pre + length rest] dflt (S_OK, pre @ rest)
         = (S_OK, pre @ map (fill_default dflt) rest)"
  using assms
proof (induction rest arbitrary: pre)
  case Nil
  then show ?case by simp
next
  case (Cons kv rest)
  let ?pre = "pre @ [fill_default dflt kv]"
  have notin: "fst kv \<notin> fst ` set pre"
    using Cons.prems(1) by auto
  obtain d where d: "GetValue (fst kv) dflt = (S_OK, d)"
    using GetValue_in [of "fst kv" dflt] Cons.prems(2) by auto
  have fk: "fst (fill_default dflt kv) = fst kv"
    by (simp add: fill_default_def)
  have dist: "distinct (map fst (?pre @ rest))"
    using Cons.prems(1) by (simp add: fk)
  have sub: "fst ` set rest \<subseteq> fst ` set dflt"
    using Cons.prems(2) by simp
  have "fill_defaults [length pre..<length pre + length (kv # rest)] dflt (S_OK, pre @ kv # rest)
        = fill_defaults [Suc (length pre)..<Suc (length pre + length rest)] dflt (S_OK, ?pre @ rest)"
    using SetValue_append_notin [OF notin, of d "snd kv" rest] d
    by (simp add: upt_shift GetAt_append_length fill_default_def case_prod_beta del: upt_Suc)
  also have "\<dots> = fill_defaults [length ?pre..<length ?pre + length rest] dflt (S_OK, ?pre @ rest)"
    by (simp del: upt_Suc)
  also have "\<dots> = (S_OK, ?pre @ map (fill_default dflt) rest)"
    by (rule Cons.IH [OF dist sub])
  finally show ?case by simp
qed

lemma fill_defaults_eq:
  "distinct (map fst mins) \<Longrightarrow> fst ` set mins \<subseteq> fst ` set dflt \<Longrightarrow>
   fill_defaults [0..<length mins] dflt (S_OK, mins) = (S_OK, map (fill_default dflt) mins)"
  using fill_defaults_aux [of "[]" mins dflt] by simp

lemma map_of_fill_default:
  "map_of (map (fill_default dflt) m) k =
     map_option (\<lambda>v. if vt v = vt VT_NULL then snd (GetValue k dflt) else v) (map_of m k)"
  by (induction m) (auto simp: fill_default_def)

lemma lookup_sens_reset: "lookup_sens (map (\<lambda>kv. (fst kv, VT_NULL)) m) k = None"
proof -
  have "map_of (map (\<lambda>kv. (fst kv, VT_NULL)) m) k = map_option (\<lambda>v. VT_NULL) (map_of m k)"
    by (induction m) auto
  then show ?thesis
    by (cases "map_of m k") (simp_all add: lookup_sens_def)
qed

lemma ULONG_MAX_top: "d \<le> ULONG_MAX"
  by (simp add: ULONG_MAX_def word_le_def) (use uint_lt2p [of d] in simp)

lemma map_of_in_keys:
  fixes m :: portable_device_values
  shows "k \<in> fst ` set m \<Longrightarrow> \<exists>v. map_of m k = Some v \<and> (k, v) \<in> set m"
  using GetValue_in [of k m] by blast

lemma RecalculateProperties_ok:
  assumes inv: "cm_inv cm"
  shows "\<exists>mins'. RecalculateProperties cm =
           (S_OK, cm \<lparr> m_spMinSensitivityValues := mins',
                        m_minReportInterval :=
                          (if Min (insert ULONG_MAX (set (explicit_intervals (m_pClientList cm)))) = ULONG_MAX
                           then m_defaultReportInterval cm
                           else Min (insert ULONG_MAX (set (explicit_intervals (m_pClientList cm))))),
                        m_minReportIntervalExplicitlySet :=
                          (\<exists>d \<in> set (explicit_intervals (m_pClientList cm)). d < ULONG_MAX) \<rparr>) \<and>
           map fst mins' = map fst (m_spMinSensitivityValues cm) \<and>
           list_all (\<lambda>kv. is_r8 (snd kv)) mins' \<and>
           (\<forall>k \<in> fst ` set (m_spMinSensitivityValues cm). map_of mins' k = Some (arbitrated_sensitivity k cm))"
proof -
  let ?mins = "m_spMinSensitivityValues cm"
  let ?dflt = "m_spDefaultSensitivityValues cm"
  let ?reset = "map (\<lambda>kv. (fst kv, VT_NULL)) ?mins"
  have dist: "distinct (map fst ?mins)"
    using inv by (simp add: cm_inv_def)
  have keys: "map fst ?mins = map fst ?dflt"
    using inv by (simp add: cm_inv_def)
  have dr8: "list_all (\<lambda>kv. is_r8 (snd kv)) ?dflt"
    using inv by (simp add: cm_inv_def)
  have cl: "list_all (\<lambda>pe. values_ok ?mins (pDesiredSensitivityValues (snd pe))) (m_pClientList cm)"
    using inv by (simp add: cm_inv_def)
  have r: "reset_min_values ?mins = ?reset"
    by (rule reset_min_values_eq [OF dist])
  have k0: "map fst ?reset = map fst ?mins"
    by simp
  have ok0: "list_all (\<lambda>kv. null_or_r8 (snd kv)) ?reset"
    by (simp add: list_all_iff)
  have cl0: "list_all (\<lambda>pe. values_ok ?reset (pDesiredSensitivityValues (snd pe))) (m_pClientList cm)"
    using cl by (simp add: values_ok_def comp_def)
  obtain mins1 where m1: "fold_clients (m_pClientList cm) (S_OK, ?reset, ULONG_MAX, False) =
             (S_OK, mins1, Min (insert ULONG_MAX (set (explicit_intervals (m_pClientList cm)))),
              False \<or> (\<exists>d \<in> set (explicit_intervals (m_pClientList cm)). d < ULONG_MAX))"
      "map fst mins1 = map fst ?reset" "list_all (\<lambda>kv. null_or_r8 (snd kv)) mins1"
      "\<forall>k. lookup_sens mins1 k = combine (lookup_sens ?reset k) (client_overrides k (m_pClientList cm))"
    using fold_clients_ok [OF ok0 cl0, of ULONG_MAX False] by blast
  have k1: "map fst mins1 = map fst ?mins"
    using m1(2) k0 by simp
  have len: "length mins1 = length ?mins"
    using k1 by (metis length_map)
  have d1: "distinct (map fst mins1)"
    using dist k1 by simp
  have s1: "fst ` set mins1 \<subseteq> fst ` set ?dflt"
    using k1 keys by (metis list.set_map order_refl)
  let ?filled = "map (fill_default ?dflt) mins1"
  have f: "fill_defaults [0..<length ?mins] ?dflt (S_OK, mins1) = (S_OK, ?filled)"
    using fill_defaults_eq [OF d1 s1] len by simp
  have k2: "map fst ?filled = map fst ?mins"
    using k1 by (simp add: fill_default_def comp_def if_distrib [of fst] cong: if_cong)
  have val: "map_of ?filled k = Some (arbitrated_sensitivity k cm) \<and> is_r8 (arbitrated_sensitivity k cm)"
    if kin: "k \<in> fst ` set ?mins" for k
  proof -
    have "k \<in> fst ` set mins1"
      using kin k1 by (metis list.set_map)
    then obtain v where v: "map_of mins1 k = Some v" "(k, v) \<in> set mins1"
      using map_of_in_keys by blast
    have nv: "null_or_r8 v"
      using m1(3) v(2) by (auto simp: list_all_iff)
    have "k \<in> fst ` set ?dflt"
      using kin keys by (metis list.set_map)
    then obtain dv where dv: "GetValue k ?dflt = (S_OK, dv)" "(k, dv) \<in> set ?dflt"
      using GetValue_in by blast
    have dvr: "is_r8 dv"
      using dr8 dv(2) by (auto simp: list_all_iff)
    have ls: "lookup_sens mins1 k = combine None (client_overrides k (m_pClientList cm))"
      using m1(4) by (simp add: lookup_sens_reset)
    show ?thesis
    proof (cases v)
      case VT_NULL
      then have "client_overrides k (m_pClientList cm) = []"
        using ls v(1) by (simp add: lookup_sens_def combine_None split: if_splits)
      then show ?thesis
        using v(1) VT_NULL dv(1) dvr by (simp add: map_of_fill_default arbitrated_sensitivity_def)
    next
      case (VT_R8 x)
      then have "client_overrides k (m_pClientList cm) \<noteq> [] \<and> x = Min (set (client_overrides k (m_pClientList cm)))"
        using ls v(1) by (simp add: lookup_sens_def combine_None split: if_splits)
      then show ?thesis
        using v(1) VT_R8 by (simp add: map_of_fill_default arbitrated_sensitivity_def)
    qed (use nv in simp_all)
  qed
  have r8: "list_all (\<lambda>kv. is_r8 (snd kv)) ?filled"
  proof -
    have "is_r8 w" if "(k, w) \<in> set ?filled" for k w
    proof -
      have "k \<in> fst ` set ?mins"
        using that k2 by (metis fst_conv image_eqI list.set_map)
      moreover have "distinct (map fst ?filled)"
        using dist k2 by simp
      ultimately show ?thesis
        using val [of k] that by (metis map_of_is_SomeI option.inject)
    qed
    then have "is_r8 (snd kv)" if "kv \<in> set ?filled" for kv
      using that by (cases kv) simp
    then show ?thesis unfolding list_all_iff by blast
  qed
  have "RecalculateProperties cm =
           (S_OK, cm \<lparr> m_spMinSensitivityValues := ?filled,
                        m_minReportInterval :=
                          (if Min (insert ULONG_MAX (set (explicit_intervals (m_pClientList cm)))) = ULONG_MAX
                           then m_defaultReportInterval cm
                           else Min (insert ULONG_MAX (set (explicit_intervals (m_pClientList cm))))),
                        m_minReportIntervalExplicitlySet :=
                          (\<exists>d \<in> set (explicit_intervals (m_pClientList cm)). d < ULONG_MAX) \<rparr>)"
    using r m1(1) f by (simp add: RecalculateProperties_def GetCount_def)
  then show ?thesis
    using k2 r8 val by blast
qed

lemma set_assign_subset: "set (assign p e m) \<subseteq> insert (p, e) (set m)"
  by (induction m) (auto split: if_splits)

lemma list_all_assign: "P (p, e) \<Longrightarrow> list_all P m \<Longrightarrow> list_all P (assign p e m)"
  using set_assign_subset [of p e m] by (auto simp: list_all_iff)

lemma list_all_erase: "list_all P m \<Longrightarrow> list_all P (erase p m)"
  by (auto simp: list_all_iff erase_def)

lemma find_client_Some: "find_client p m = Some e \<Longrightarrow> (p, e) \<in> set m"
  by (simp add: find_client_def map_of_SomeD)

lemma values_ok_keys:
  assumes "map fst m2 = map fst m1"
  shows "values_ok m2 vs = values_ok m1 vs"
  by (simp only: values_ok_def assms)

lemma cm_inv_clients:
  assumes "cm_inv cm"
    and "list_all (\<lambda>pe. values_ok (m_spMinSensitivityValues cm) (pDesiredSensitivityValues (snd pe))) clients"
  shows "cm_inv (cm \<lparr> m_pClientList := clients, m_SubscriberCount := sc, m_ClientCount := cc \<rparr>)"
  using assms by (simp add: cm_inv_def)

lemma cm_inv_entry:
  "cm_inv cm \<Longrightarrow> find_client p (m_pClientList cm) = Some e \<Longrightarrow>
   values_ok (m_spMinSensitivityValues cm) (pDesiredSensitivityValues e)"
  by (auto simp: cm_inv_def list_all_iff dest!: find_client_Some)

lemma Recalculate_result:
  assumes inv: "cm_inv mid" and r: "RecalculateProperties mid = (hr, cm')"
  shows "hr = S_OK \<and> cm_inv cm' \<and>
         m_pClientList cm' = m_pClientList mid \<and>
         m_ClientCount cm' = m_ClientCount mid \<and>
         m_SubscriberCount cm' = m_SubscriberCount mid \<and>
         m_spDefaultSensitivityValues cm' = m_spDefaultSensitivityValues mid \<and>
         m_defaultReportInterval cm' = m_defaultReportInterval mid \<and>
         (\<forall>k \<in> fst ` set (m_spDefaultSensitivityValues cm').
            GetValue k (m_spMinSensitivityValues cm') = (S_OK, arbitrated_sensitivity k cm')) \<and>
         m_minReportInterval cm' =
           (if Min (insert ULONG_MAX (set (explicit_intervals (m_pClientList cm')))) = ULONG_MAX
            then m_defaultReportInterval cm'
            else Min (insert ULONG_MAX (set (explicit_intervals (m_pClientList cm'))))) \<and>
         m_minReportIntervalExplicitlySet cm' =
           (\<exists>d \<in> set (explicit_intervals (m_pClientList cm')). d < ULONG_MAX)"
proof -
  let ?ri = "if Min (insert ULONG_MAX (set (explicit_intervals (m_pClientList mid)))) = ULONG_MAX
             then m_defaultReportInterval mid
             else Min (insert ULONG_MAX (set (explicit_intervals (m_pClientList mid))))"
  let ?ex = "\<exists>d \<in> set (explicit_intervals (m_pClientList mid)). d < ULONG_MAX"
  obtain mins' where m: "RecalculateProperties mid =
           (S_OK, mid \<lparr> m_spMinSensitivityValues := mins', m_minReportInterval := ?ri,
                        m_minReportIntervalExplicitlySet := ?ex \<rparr>)"
      "map fst mins' = map fst (m_spMinSensitivityValues mid)"
      "list_all (\<lambda>kv. is_r8 (snd kv)) mins'"
      "\<forall>k \<in> fst ` set (m_spMinSensitivityValues mid). map_of mins' k = Some (arbitrated_sensitivity k mid)"
    using RecalculateProperties_ok [OF inv] by blast
  have hr: "hr = S_OK"
    and eq: "cm' = mid \<lparr> m_spMinSensitivityValues := mins', m_minReportInterval := ?ri,
                          m_minReportIntervalExplicitlySet := ?ex \<rparr>"
    using r m(1) by simp_all
  have keys: "map fst (m_spMinSensitivityValues mid) = map fst (m_spDefaultSensitivityValues mid)"
    using inv by (simp add: cm_inv_def)
  have nr: "list_all (\<lambda>kv. null_or_r8 (snd kv)) mins'"
  proof -
    have "null_or_r8 v" if "is_r8 v" for v using that by (cases v) simp_all
    then show ?thesis using m(3) by (auto simp: list_all_iff)
  qed
  have inv': "cm_inv cm'"
    using inv m(2) nr unfolding eq cm_inv_def by (simp add: values_ok_keys [OF m(2)])
  have f1: "m_pClientList cm' = m_pClientList mid" "m_ClientCount cm' = m_ClientCount mid"
    "m_SubscriberCount cm' = m_SubscriberCount mid"
    "m_spDefaultSensitivityValues cm' = m_spDefaultSensitivityValues mid"
    "m_defaultReportInterval cm' = m_defaultReportInterval mid"
    "m_spMinSensitivityValues cm' = mins'"
    "m_minReportInterval cm' = ?ri" "m_minReportIntervalExplicitlySet cm' = ?ex"
    by (simp_all add: eq)
  have arb: "arbitrated_sensitivity k cm' = arbitrated_sensitivity k mid" for k
    by (simp add: arbitrated_sensitivity_def f1)
  have gv: "\<forall>k \<in> fst ` set (m_spDefaultSensitivityValues cm').
            GetValue k (m_spMinSensitivityValues cm') = (S_OK, arbitrated_sensitivity k cm')"
  proof
    fix k assume "k \<in> fst ` set (m_spDefaultSensitivityValues cm')"
    then have "k \<in> fst ` set (m_spMinSensitivityValues mid)"
      using keys f1(4) by (metis list.set_map)
    then have "map_of mins' k = Some (arbitrated_sensitivity k mid)"
      using m(4) by blast
    then show "GetValue k (m_spMinSensitivityValues cm') = (S_OK, arbitrated_sensitivity k cm')"
      by (simp add: GetValue_def f1(6) arb)
  qed
  have ri: "m_minReportInterval cm' =
           (if Min (insert ULONG_MAX (set (explicit_intervals (m_pClientList cm')))) = ULONG_MAX
            then m_defaultReportInterval cm'
            else Min (insert ULONG_MAX (set (explicit_intervals (m_pClientList cm')))))"
    by (simp only: f1)
  have ex: "m_minReportIntervalExplicitlySet cm' =
           (\<exists>d \<in> set (explicit_intervals (m_pClientList cm')). d < ULONG_MAX)"
    by (simp only: f1)
  show ?thesis
    using hr inv' f1(1-5) gv ri ex by blast
qed

lemma validate_sensitivity_SUCCEEDED:
  assumes "list_all (\<lambda>kv. null_or_r8 (snd kv)) mins"
    and "SUCCEEDED (validate_sensitivity mins key var)"
  shows "key \<in> fst ` set mins \<and> null_or_r8 var"
proof (cases "map_of mins key")
  case None
  then show ?thesis
    using assms(2)
    by (simp add: validate_sensitivity_def GetValue_def SUCCEEDED_def HRESULT_FROM_WIN32_def ERROR_NOT_FOUND_def)
next
  case (Some varTemp)
  then have in_set: "(key, varTemp) \<in> set mins"
    by (rule map_of_SomeD)
  then have vt: "null_or_r8 varTemp"
    using assms(1) by (auto simp: list_all_iff)
  have "E_INVALIDARG < 0"
    by (simp add: E_INVALIDARG_def HRESULT_FROM_WIN32_def)
  then have "vt var = vt varTemp \<or> vt var = vt VT_NULL"
    using assms(2) Some
    by (auto simp: validate_sensitivity_def GetValue_def SUCCEEDED_def S_OK_def split: if_splits)
  then have "null_or_r8 var"
    using vt by (cases var; cases varTemp) simp_all
  then show ?thesis
    using in_set by force
qed

lemma sensitivity_loop_ok:
  assumes "list_all (\<lambda>kv. null_or_r8 (snd kv)) mins" and "values_ok mins desired"
  shows "values_ok mins (fst (sensitivity_loop mins items (desired, results, fError)))"
  using assms(2)
proof (induction items arbitrary: desired results fError)
  case Nil
  then show ?case by simp
next
  case (Cons kv items)
  obtain key var where kv: "kv = (key, var)" by (cases kv)
  show ?case
  proof (cases "SUCCEEDED (validate_sensitivity mins key var)")
    case True
    then have "key \<in> fst ` set mins \<and> null_or_r8 var"
      using validate_sensitivity_SUCCEEDED [OF assms(1)] by blast
    then have "values_ok mins (SetValue key var desired)"
      using Cons.prems unfolding values_ok_def by (intro list_all_SetValue) simp_all
    then show ?thesis
      using True Cons.IH by (simp add: kv)
  next
    case False
    then show ?thesis
      using Cons.IH [OF Cons.prems] by (simp add: kv)
  qed
qed

lemma cm_inv_cong:
  assumes "cm_inv cm"
    and "m_spMinSensitivityValues cm2 = m_spMinSensitivityValues cm"
    and "m_spDefaultSensitivityValues cm2 = m_spDefaultSensitivityValues cm"
    and "list_all (\<lambda>pe. values_ok (m_spMinSensitivityValues cm) (pDesiredSensitivityValues (snd pe)))
           (m_pClientList cm2)"
  shows "cm_inv cm2"
  using assms by (simp add: cm_inv_def)

lemma cm_inv_list:
  "cm_inv cm \<Longrightarrow>
   list_all (\<lambda>pe. values_ok (m_spMinSensitivityValues cm) (pDesiredSensitivityValues (snd pe))) (m_pClientList cm)"
  by (simp add: cm_inv_def)

lemma apply_op_cases:
  assumes inv: "cm_inv cm" and ap: "apply_op op cm = (hr, cm')"
  shows "(FAILED hr \<and> cm' = cm) \<or>
         (\<exists>mid hr0. cm_inv mid \<and> RecalculateProperties mid = (hr0, cm') \<and> SUCCEEDED hr)"
proof -
  define T where "T = ((FAILED hr \<and> cm' = cm) \<or>
         (\<exists>mid hr0. cm_inv mid \<and> RecalculateProperties mid = (hr0, cm') \<and> SUCCEEDED hr))"
  have failed: "FAILED E_INVALIDARG" "FAILED (HRESULT_FROM_WIN32 ERROR_INVALID_STATE)"
    "FAILED (HRESULT_FROM_WIN32 ERROR_FILE_EXISTS)" "FAILED (HRESULT_FROM_WIN32 ERROR_FILE_NOT_FOUND)"
    by (simp_all add: FAILED_def E_INVALIDARG_def HRESULT_FROM_WIN32_def ERROR_INVALID_STATE_def
          ERROR_FILE_EXISTS_def ERROR_FILE_NOT_FOUND_def)
  have ok: "SUCCEEDED S_FALSE"
    by (simp add: SUCCEEDED_def S_FALSE_def)
  have fl: "\<And>e. FAILED e \<Longrightarrow> hr = e \<Longrightarrow> cm' = cm \<Longrightarrow> T"
    by (simp add: T_def)
  have rec: "\<And>mid. cm_inv mid \<Longrightarrow> RecalculateProperties mid = (hr, cm') \<Longrightarrow> T"
    unfolding T_def using Recalculate_result by (metis SUCCEEDED_S_OK)
  note cl = cm_inv_list [OF inv]
  have T
  proof (cases op)
    case (OpConnect p)
    let ?e = "\<lparr> fSubscribed = False, pDesiredSensitivityValues = [],
                desiredReportInterval = CURRENT_REPORT_INTERVAL_NOT_SET \<rparr>"
    have "cm_inv (cm \<lparr> m_pClientList := assign p ?e (m_pClientList cm), m_ClientCount := m_ClientCount cm + 1 \<rparr>)"
      using cl by (intro cm_inv_cong [OF inv]) (auto simp: values_ok_def intro!: list_all_assign)
    then show ?thesis
      using ap failed by (auto simp: OpConnect Connect_def split: if_splits intro: rec fl)
  next
    case (OpDisconnect p)
    have "cm_inv (cm \<lparr> m_pClientList := erase p (m_pClientList cm), m_SubscriberCount := sc, m_ClientCount := cc \<rparr>)"
      "cm_inv (cm \<lparr> m_pClientList := erase p (m_pClientList cm), m_ClientCount := cc \<rparr>)" for sc cc
      using cl by (auto intro!: cm_inv_cong [OF inv] list_all_erase)
    then show ?thesis
      using ap failed by (auto simp: OpDisconnect Disconnect_def split: if_splits option.splits intro: rec fl)
  next
    case (OpSubscribe p)
    have "cm_inv (cm \<lparr> m_pClientList := assign p (e \<lparr> fSubscribed := True \<rparr>) (m_pClientList cm), m_SubscriberCount := sc \<rparr>)"
      if "find_client p (m_pClientList cm) = Some e" for e sc
      using cl cm_inv_entry [OF inv that] by (intro cm_inv_cong [OF inv]) (auto intro!: list_all_assign)
    then show ?thesis
      using ap failed by (auto simp: OpSubscribe Subscribe_def split: if_splits option.splits intro: rec fl)
  next
    case (OpUnsubscribe p)
    have "cm_inv (cm \<lparr> m_pClientList := assign p (e \<lparr> fSubscribed := False \<rparr>) (m_pClientList cm), m_SubscriberCount := sc \<rparr>)"
      if "find_client p (m_pClientList cm) = Some e" for e sc
      using cl cm_inv_entry [OF inv that] by (intro cm_inv_cong [OF inv]) (auto intro!: list_all_assign)
    then show ?thesis
      using ap failed by (auto simp: OpUnsubscribe Unsubscribe_def split: if_splits option.splits intro: rec fl)
  next
    case (OpSetDesiredReportInterval p v)
    have "cm_inv (cm \<lparr> m_pClientList := assign p (e \<lparr> desiredReportInterval := v \<rparr>) (m_pClientList cm) \<rparr>)"
      if "find_client p (m_pClientList cm) = Some e" for e
      using cl cm_inv_entry [OF inv that] by (intro cm_inv_cong [OF inv]) (auto intro!: list_all_assign)
    then show ?thesis
      using ap failed by (auto simp: OpSetDesiredReportInterval SetDesiredReportInterval_def split: if_splits option.splits intro: rec fl)
  next
    case (OpSetDesiredChangeSensitivity p vs)
    have mins_ok: "list_all (\<lambda>kv. null_or_r8 (snd kv)) (m_spMinSensitivityValues cm)"
      using inv unfolding cm_inv_def by blast
    have mid: "cm_inv (cm \<lparr> m_pClientList := assign p (e \<lparr> pDesiredSensitivityValues :=
                   fst (sensitivity_loop (m_spMinSensitivityValues cm) vs (pDesiredSensitivityValues e, [], False)) \<rparr>) (m_pClientList cm) \<rparr>)"
      if "find_client p (m_pClientList cm) = Some e" for e
      using cl sensitivity_loop_ok [OF mins_ok cm_inv_entry [OF inv that], of vs "[]" False]
      by (intro cm_inv_cong [OF inv]) (auto intro!: list_all_assign)
    show ?thesis
    proof (cases "p = nullptr")
      case True
      then show ?thesis
        using ap failed by (auto simp: OpSetDesiredChangeSensitivity SetDesiredChangeSensitivity_def intro: fl)
    next
      case pn: False
      show ?thesis
      proof (cases "find_client p (m_pClientList cm)")
        case None
        then show ?thesis
          using ap failed pn by (auto simp: OpSetDesiredChangeSensitivity SetDesiredChangeSensitivity_def intro: fl)
      next
        case (Some e)
        obtain desired results fError where l: "sensitivity_loop (m_spMinSensitivityValues cm) vs (pDesiredSensitivityValues e, [], False) = (desired, results, fError)"
          by (cases "sensitivity_loop (m_spMinSensitivityValues cm) vs (pDesiredSensitivityValues e, [], False)") auto
        let ?mid = "cm \<lparr> m_pClientList := assign p (e \<lparr> pDesiredSensitivityValues := desired \<rparr>) (m_pClientList cm) \<rparr>"
        have cmid: "cm_inv ?mid"
          using mid [OF Some] l by simp
        obtain hr0 cm0 where r0: "RecalculateProperties ?mid = (hr0, cm0)"
          by (cases "RecalculateProperties ?mid") auto
        have "hr0 = S_OK"
          using Recalculate_result [OF cmid r0] by blast
        then have "cm' = cm0 \<and> SUCCEEDED hr"
          using ap pn Some l r0 ok
          by (auto simp: OpSetDesiredChangeSensitivity SetDesiredChangeSensitivity_def)
        then show ?thesis
          unfolding T_def using cmid r0 by blast
      qed
    qed
  qed
  then show ?thesis by (simp add: T_def)
qed

lemma SetValue_new: "k \<notin> fst ` set m \<Longrightarrow> SetValue k v m = m @ [(k, v)]"
  by (induction m) auto

lemma CopyValues_append:
  "distinct (map fst src) \<Longrightarrow> fst ` set tgt \<inter> fst ` set src = {} \<Longrightarrow>
   CopyValues src tgt = tgt @ src"
proof (induction src arbitrary: tgt)
  case Nil
  then show ?case by (simp add: CopyValues_def)
next
  case (Cons kv src)
  have "fst kv \<notin> fst ` set tgt"
    using Cons.prems(2) by auto
  then have s: "SetValue (fst kv) (snd kv) tgt = tgt @ [kv]"
    by (simp add: SetValue_new)
  have "CopyValues src (tgt @ [kv]) = (tgt @ [kv]) @ src"
    using Cons.prems by (intro Cons.IH) auto
  then show ?case
    using s by (simp add: CopyValues_def)
qed

lemma cm_inv_Initialize:
  assumes "distinct (map fst dflt)" and "list_all (\<lambda>kv. is_r8 (snd kv)) dflt"
  shows "cm_inv (snd (Initialize d m dflt CClientManager_new))"
proof -
  have c: "CopyValues dflt [] = dflt"
    using CopyValues_append [OF assms(1), of "[]"] by simp
  have "null_or_r8 v" if "is_r8 v" for v
    using that by (cases v) simp_all
  then have "list_all (\<lambda>kv. null_or_r8 (snd kv)) dflt"
    using assms(2) by (auto simp: list_all_iff)
  then show ?thesis
    using assms by (simp add: Initialize_def CClientManager_new_def c cm_inv_def)
qed

lemma not_FAILED_SUCCEEDED: "FAILED hr \<Longrightarrow> SUCCEEDED hr \<Longrightarrow> False"
  by (simp add: FAILED_def SUCCEEDED_def)

lemma cm_inv_apply_op:
  assumes "cm_inv cm"
  shows "cm_inv (snd (apply_op op cm))"
proof -
  obtain hr cm' where a: "apply_op op cm = (hr, cm')"
    by (cases "apply_op op cm") auto
  have "cm_inv cm'"
    using apply_op_cases [OF assms a] assms Recalculate_result by blast
  then show ?thesis by (simp add: a)
qed


lemma report_interval_after_mutation:
  assumes "cm_inv cm" and "apply_op op cm = (hr, cm')" and "SUCCEEDED hr"
    and "ULONG_MAX \<notin> set (explicit_intervals (m_pClientList cm'))"
  shows "m_minReportInterval cm' = arbitrated_report_interval cm' \<and>
         m_minReportIntervalExplicitlySet cm' = (explicit_intervals (m_pClientList cm') \<noteq> [])"
proof -
  let ?E = "explicit_intervals (m_pClientList cm')"
  obtain mid hr0 where "cm_inv mid" "RecalculateProperties mid = (hr0, cm')"
    using apply_op_cases [OF assms(1,2)] assms(3) not_FAILED_SUCCEEDED by blast
  then have ri: "m_minReportInterval cm' =
           (if Min (insert ULONG_MAX (set ?E)) = ULONG_MAX then m_defaultReportInterval cm'
            else Min (insert ULONG_MAX (set ?E)))"
    and ex: "m_minReportIntervalExplicitlySet cm' = (\<exists>d \<in> set ?E. d < ULONG_MAX)"
    using Recalculate_result by blast+
  have lt: "d < ULONG_MAX" if "d \<in> set ?E" for d
    using that assms(4) ULONG_MAX_top [of d] by (metis order_le_imp_less_or_eq)
  show ?thesis
  proof (cases "?E = []")
    case True
    then show ?thesis
      using ri ex by (simp add: arbitrated_report_interval_def)
  next
    case False
    then have ne: "set ?E \<noteq> {}" by simp
    have "Min (set ?E) \<in> set ?E"
      using ne by (intro Min_in) simp_all
    then have m: "Min (set ?E) < ULONG_MAX"
      by (rule lt)
    then have "Min (insert ULONG_MAX (set ?E)) = Min (set ?E)"
      using ne by (simp add: min_absorb2)
    moreover have "Min (set ?E) \<noteq> ULONG_MAX"
      using m by simp
    moreover have "\<exists>d \<in> set ?E. d < ULONG_MAX"
      using \<open>Min (set ?E) \<in> set ?E\<close> m by blast
    ultimately show ?thesis
      using ri ex False by (simp add: arbitrated_report_interval_def)
  qed
qed

text \<open>
  C4 (as amended). For every state and every non-null client id: disconnecting an id that
  is not registered fails and leaves the whole state unchanged, with the not-found error
  when the client count is not 0 and equals the number of entries, and with the
  invalid-state error otherwise; subscribing or unsubscribing an id that is not
  registered fails with not-found; subscribing a registered id that is already
  subscribed, or unsubscribing a registered id that is not subscribed, fails with
  invalid-state. In each of these calls the returned state is the state passed in.
\<close>

theorem failing_calls_leave_registry_unchanged:
  assumes "pClientFile \<noteq> nullptr"
  shows "(find_client pClientFile (m_pClientList cm) = None \<longrightarrow>
            Disconnect pClientFile cm =
              (if m_ClientCount cm = 0 \<or> length (m_pClientList cm) \<noteq> unat (m_ClientCount cm)
               then HRESULT_FROM_WIN32 ERROR_INVALID_STATE
               else HRESULT_FROM_WIN32 ERROR_FILE_NOT_FOUND, cm)) \<and>
         (find_client pClientFile (m_pClientList cm) = None \<longrightarrow>
            Subscribe pClientFile cm = (HRESULT_FROM_WIN32 ERROR_FILE_NOT_FOUND, cm) \<and>
            Unsubscribe pClientFile cm = (HRESULT_FROM_WIN32 ERROR_FILE_NOT_FOUND, cm)) \<and>
         (\<forall>entry. find_client pClientFile (m_pClientList cm) = Some entry \<and> fSubscribed entry \<longrightarrow>
            Subscribe pClientFile cm = (HRESULT_FROM_WIN32 ERROR_INVALID_STATE, cm)) \<and>
         (\<forall>entry. find_client pClientFile (m_pClientList cm) = Some entry \<and> \<not> fSubscribed entry \<longrightarrow>
            Unsubscribe pClientFile cm = (HRESULT_FROM_WIN32 ERROR_INVALID_STATE, cm)) \<and>
         FAILED (HRESULT_FROM_WIN32 ERROR_INVALID_STATE) \<and>
         FAILED (HRESULT_FROM_WIN32 ERROR_FILE_NOT_FOUND)"
  using assms
  by (simp add: Disconnect_def Subscribe_def Unsubscribe_def FAILED_def HRESULT_FROM_WIN32_def
        ERROR_INVALID_STATE_def ERROR_FILE_NOT_FOUND_def)

lemma example_manager_eq:
  "example_manager =
     \<lparr> m_pClientList = [], m_ClientCount = 0, m_SubscriberCount = 0,
       m_spDefaultSensitivityValues =
         [(SENSOR_DATA_TYPE_ACCELERATION_X_G, VT_R8 (1 / 2)),
          (SENSOR_DATA_TYPE_ACCELERATION_Y_G, VT_R8 (1 / 2)),
          (SENSOR_DATA_TYPE_ACCELERATION_Z_G, VT_R8 (1 / 2))],
       m_spMinSensitivityValues =
         [(SENSOR_DATA_TYPE_ACCELERATION_X_G, VT_R8 (1 / 2)),
          (SENSOR_DATA_TYPE_ACCELERATION_Y_G, VT_R8 (1 / 2)),
          (SENSOR_DATA_TYPE_ACCELERATION_Z_G, VT_R8 (1 / 2))],
       m_defaultReportInterval = 1000, m_minSupportedReportInterval = 1,
       m_minReportInterval = 1000, m_minReportIntervalExplicitlySet = False \<rparr>"
  by (simp add: example_manager_def Initialize_def GetDefaultSettableProperties_def
        CClientManager_new_def CopyValues_def)

theorem Disconnect_empty_registry_counterexample:
  "find_client 1 (m_pClientList example_manager) = None \<and>
   Disconnect 1 example_manager = (HRESULT_FROM_WIN32 ERROR_INVALID_STATE, example_manager) \<and>
   HRESULT_FROM_WIN32 ERROR_INVALID_STATE \<noteq> HRESULT_FROM_WIN32 ERROR_FILE_NOT_FOUND"
  by (simp add: example_manager_eq Disconnect_def find_client_def nullptr_def
        HRESULT_FROM_WIN32_def ERROR_INVALID_STATE_def ERROR_FILE_NOT_FOUND_def)

lemma example_one_client_eq:
  "example_one_client =
     example_manager \<lparr> m_pClientList :=
         [(1, \<lparr> fSubscribed = False, pDesiredSensitivityValues = [], desiredReportInterval = 0 \<rparr>)],
       m_ClientCount := 1 \<rparr>"
  unfolding example_one_client_def by code_simp

lemma example_subscribed_eq:
  "example_subscribed =
     example_manager \<lparr> m_pClientList :=
         [(1, \<lparr> fSubscribed = True, pDesiredSensitivityValues = [], desiredReportInterval = 0 \<rparr>)],
       m_ClientCount := 1, m_SubscriberCount := 1 \<rparr>"
  unfolding example_subscribed_def by code_simp

theorem failing_calls_leave_registry_unchanged_witness:
  "Disconnect 2 example_subscribed = (HRESULT_FROM_WIN32 ERROR_FILE_NOT_FOUND, example_subscribed) \<and>
   Subscribe 1 example_subscribed = (HRESULT_FROM_WIN32 ERROR_INVALID_STATE, example_subscribed) \<and>
   Unsubscribe 1 example_one_client = (HRESULT_FROM_WIN32 ERROR_INVALID_STATE, example_one_client)"
proof -
  have p1: "(1::nat) \<noteq> nullptr" and p2: "(2::nat) \<noteq> nullptr"
    by (simp_all add: nullptr_def)
  have f2: "find_client 2 (m_pClientList example_subscribed) = None"
    by (simp add: example_subscribed_eq find_client_def)
  have c: "\<not> (m_ClientCount example_subscribed = 0 \<or>
              length (m_pClientList example_subscribed) \<noteq> unat (m_ClientCount example_subscribed))"
    by (simp add: example_subscribed_eq)
  have f1: "find_client 1 (m_pClientList example_subscribed) =
              Some \<lparr> fSubscribed = True, pDesiredSensitivityValues = [], desiredReportInterval = 0 \<rparr>"
    by (simp add: example_subscribed_eq find_client_def)
  have g1: "find_client 1 (m_pClientList example_one_client) =
              Some \<lparr> fSubscribed = False, pDesiredSensitivityValues = [], desiredReportInterval = 0 \<rparr>"
    by (simp add: example_one_client_eq find_client_def)
  show ?thesis
    using failing_calls_leave_registry_unchanged [OF p2, of example_subscribed]
      failing_calls_leave_registry_unchanged [OF p1, of example_subscribed]
      failing_calls_leave_registry_unchanged [OF p1, of example_one_client]
      f2 c f1 g1
    by simp
qed



text \<open>
  C2. After a registry mutation the arbitrated minimum report interval should be the
  minimum of the clients' non-zero desired intervals, and the explicit flag should be set
  as soon as one client has a desired interval of at least 1. With one client whose
  desired interval is 0xFFFFFFFF (accepted by SetDesiredReportInterval) the code reports
  the default, 1000, and leaves the flag clear: the interval collides with the value
  RecalculateProperties starts its minimum from.
\<close>

theorem report_interval_ULONG_MAX_is_ignored:
  "fst (SetDesiredReportInterval 1 0xFFFFFFFF example_one_client) = S_OK \<and>
   explicit_intervals (m_pClientList (snd (SetDesiredReportInterval 1 0xFFFFFFFF example_one_client)))
     = [0xFFFFFFFF] \<and>
   arbitrated_report_interval (snd (SetDesiredReportInterval 1 0xFFFFFFFF example_one_client))
     = 0xFFFFFFFF \<and>
   m_minReportInterval (snd (SetDesiredReportInterval 1 0xFFFFFFFF example_one_client)) = 1000 \<and>
   m_minReportIntervalExplicitlySet (snd (SetDesiredReportInterval 1 0xFFFFFFFF example_one_client))
     = False"
  unfolding example_one_client_def by code_simp

section \<open>The data-update mode after a mutation\<close>

lemma mode_after_mutation:
  assumes "cm_inv cm" and "apply_op op cm = (hr, cm')" and "SUCCEEDED hr"
    and "ULONG_MAX \<notin> set (explicit_intervals (m_pClientList cm'))"
  shows "GetDataUpdateMode cm' =
           (if m_ClientCount cm' = 0 then DataUpdateModeOff
            else if 0 < m_SubscriberCount cm' \<or> explicit_intervals (m_pClientList cm') \<noteq> []
                 then DataUpdateModeEventing
                 else DataUpdateModePolling)"
  using report_interval_after_mutation [OF assms] by (simp add: GetDataUpdateMode_def)

text \<open>
  C1. The data-update mode should be Eventing as soon as some client has an explicitly
  set report interval. After Initialize (default 1000, minimum 1), Connect of client 1
  and SetDesiredReportInterval of 0xFFFFFFFF for it, the call has succeeded, the one
  client holds the interval 0xFFFFFFFF, which is not the "not set" value 0, no client is
  subscribed, and the mode is Polling. With 0xFFFFFFFE in its place the mode is Eventing.
\<close>

theorem explicit_interval_ULONG_MAX_gives_Polling:
  "fst (SetDesiredReportInterval 1 0xFFFFFFFF example_one_client) = S_OK \<and>
   map (\<lambda>pe. (fst pe, desiredReportInterval (snd pe)))
     (m_pClientList (snd (SetDesiredReportInterval 1 0xFFFFFFFF example_one_client))) = [(1, 0xFFFFFFFF)] \<and>
   (0xFFFFFFFF :: 32 word) \<noteq> CURRENT_REPORT_INTERVAL_NOT_SET \<and>
   m_ClientCount (snd (SetDesiredReportInterval 1 0xFFFFFFFF example_one_client)) = 1 \<and>
   m_SubscriberCount (snd (SetDesiredReportInterval 1 0xFFFFFFFF example_one_client)) = 0 \<and>
   GetDataUpdateMode (snd (SetDesiredReportInterval 1 0xFFFFFFFF example_one_client)) = DataUpdateModePolling \<and>
   GetDataUpdateMode (snd (SetDesiredReportInterval 1 0xFFFFFFFE example_one_client)) = DataUpdateModeEventing"
  unfolding example_one_client_def by code_simp

section \<open>The supported events\<close>

lemma events_loop_wraps:
  assumes "count \<noteq> 0" and "0 < length events" and "0 < length pBuf"
  shows "events_loop events pBuf 0 count k = Some (pBuf [0 := Some (fst (events ! 0))], 0, k + unat (- count))"
  using assms
proof (induction "unat (- count)" arbitrary: count pBuf k)
  case 0
  then show ?case by (simp add: unat_eq_zero)
next
  case (Suc n)
  have pos: "0 < count"
    using Suc.prems(1) by (simp add: word_gt_0)
  have m: "unat (- (count + 1)) = n"
  proof -
    have "- count \<noteq> 0" using Suc.prems(1) by simp
    then have "unat (- count - 1) = unat (- count) - 1"
      by (simp add: unat_minus_one)
    then show ?thesis using Suc.hyps(2) by simp
  qed
  let ?pBuf = "pBuf [0 := Some (fst (events ! 0))]"
  have step: "events_loop events pBuf 0 count k = events_loop events ?pBuf 0 (count + 1) (Suc k)"
    using pos Suc.prems(2,3) by (subst events_loop.simps) simp
  show ?case
  proof (cases "count + 1 = 0")
    case True
    then have "n = 0" using m by simp
    then show ?thesis
      using step True Suc.hyps(2) by (subst (asm) events_loop.simps) simp
  next
    case False
    have "events_loop events ?pBuf 0 (count + 1) (Suc k)
          = Some (?pBuf [0 := Some (fst (events ! 0))], 0, Suc k + unat (- (count + 1)))"
      using Suc.hyps(1) [OF m [symmetric] False Suc.prems(2)] Suc.prems(3) by simp
    then show ?thesis
      using step m Suc.hyps(2) by simp
  qed
qed

lemma two_events_loop:
  "events_loop [(g1, p1), (g2, p2)] [None, None] 0 2 0 = Some ([Some g1, None], 0, 4294967294)"
proof -
  have "unat (- (2 :: 32 word)) = 4294967294"
    by simp
  then show ?thesis
    using events_loop_wraps [of 2 "[(g1, p1), (g2, p2)]" "[None, None]" 0] by simp
qed

text \<open>
  C8. For a sensor with n declared events the loop of GetSupportedEvents should run n
  times, fill entry i of the buffer with the GUID of event i, and report n events. With
  the accelerometer's two events the loop runs 4294967294 times (it increments \<open>count\<close>,
  not \<open>i\<close>, until \<open>count\<close> wraps to 0), writes entry 0 only, and reports 0 events
  with S\_OK.
\<close>

theorem GetSupportedEvents_two_events:
  "events_loop [(g1, p1), (g2, p2)] [None, None] 0 2 0 = Some ([Some g1, None], 0, 4294967294) \<and>
   GetSupportedEvents [(g1, p1), (g2, p2)] True = (S_OK, Some [Some g1, None], 0)"
proof -
  have "unat (2 :: 32 word) = Suc (Suc 0)"
    by simp
  then have "replicate (unat (2 :: 32 word)) None = [None, None :: GUID option]"
    by (simp only: replicate.simps)
  then show ?thesis
    by (simp add: GetSupportedEvents_def two_events_loop)
qed

section \<open>The device: mode changes\<close>

lemma WriteRegister_mode [simp]:
  "m_DataUpdateMode (snd (WriteRegister reg v dev)) = m_DataUpdateMode dev"
  by (simp add: WriteRegister_def split: list.splits prod.splits)

lemma ReadRegister_mode [simp]:
  "m_DataUpdateMode (snd (snd (ReadRegister reg n dev))) = m_DataUpdateMode dev"
  by (simp add: ReadRegister_def split: list.splits prod.splits)

lemma reprogram_mode [simp]:
  "m_DataUpdateMode (snd (reprogram reg v dev)) = m_DataUpdateMode dev"
proof -
  obtain hr1 dev1 where w1: "WriteRegister ADXL345_INT_ENABLE Zero dev = (hr1, dev1)"
    by (cases "WriteRegister ADXL345_INT_ENABLE Zero dev") auto
  obtain hr2 dev2 where w2: "WriteRegister reg v dev1 = (hr2, dev2)"
    by (cases "WriteRegister reg v dev1") auto
  have "m_DataUpdateMode dev1 = m_DataUpdateMode dev"
    using WriteRegister_mode [of ADXL345_INT_ENABLE Zero dev] by (simp add: w1)
  moreover have "m_DataUpdateMode dev2 = m_DataUpdateMode dev1"
    using WriteRegister_mode [of reg v dev1] by (simp add: w2)
  ultimately show ?thesis
    by (simp add: reprogram_def w1 w2)
qed

lemma SetDeviceStatePolling_mode [simp]:
  "m_DataUpdateMode (snd (SetDeviceStatePolling dev)) = m_DataUpdateMode dev"
proof -
  obtain hr1 dev1 where w1: "WriteRegister ADXL345_INT_ENABLE Zero dev = (hr1, dev1)"
    by (cases "WriteRegister ADXL345_INT_ENABLE Zero dev") auto
  have "m_DataUpdateMode dev1 = m_DataUpdateMode dev"
    using WriteRegister_mode [of ADXL345_INT_ENABLE Zero dev] by (simp add: w1)
  then show ?thesis
    by (simp add: SetDeviceStatePolling_def w1)
qed

lemma SetDeviceStateEventing_mode [simp]:
  "m_DataUpdateMode (snd (SetDeviceStateEventing dev)) = m_DataUpdateMode dev"
proof -
  obtain hr1 dev1 where w1: "WriteRegister ADXL345_POWER_CTL ADXL345_POWER_CTL_MEASURE dev = (hr1, dev1)"
    by (cases "WriteRegister ADXL345_POWER_CTL ADXL345_POWER_CTL_MEASURE dev") auto
  obtain hr2 dev2 where w2: "WriteRegister ADXL345_INT_ENABLE ADXL345_INT_ACTIVITY dev1 = (hr2, dev2)"
    by (cases "WriteRegister ADXL345_INT_ENABLE ADXL345_INT_ACTIVITY dev1") auto
  have "m_DataUpdateMode dev1 = m_DataUpdateMode dev"
    using WriteRegister_mode [of ADXL345_POWER_CTL ADXL345_POWER_CTL_MEASURE dev] by (simp add: w1)
  moreover have "m_DataUpdateMode dev2 = m_DataUpdateMode dev1"
    using WriteRegister_mode [of ADXL345_INT_ENABLE ADXL345_INT_ACTIVITY dev1] by (simp add: w2)
  ultimately show ?thesis
    by (simp add: SetDeviceStateEventing_def w1 w2)
qed

lemma SetDeviceStateStandby_mode [simp]:
  "m_DataUpdateMode (snd (SetDeviceStateStandby dev)) = m_DataUpdateMode dev"
proof -
  obtain hr1 dev1 where w1: "WriteRegister ADXL345_INT_ENABLE Zero dev = (hr1, dev1)"
    by (cases "WriteRegister ADXL345_INT_ENABLE Zero dev") auto
  have m1: "m_DataUpdateMode dev1 = m_DataUpdateMode dev"
    using WriteRegister_mode [of ADXL345_INT_ENABLE Zero dev] by (simp add: w1)
  show ?thesis
    using m1 by (simp add: SetDeviceStateStandby_def w1 Let_def split: prod.splits)
       (metis ReadRegister_mode CAccelerometerDevice.select_convs CAccelerometerDevice.surjective
          CAccelerometerDevice.update_convs snd_conv)
qed

lemma SetReportInterval_mode [simp]:
  "m_DataUpdateMode (snd (SetReportInterval ri dev)) = m_DataUpdateMode dev"
  by (simp add: SetReportInterval_def)

lemma SetChangeSensitivity_mode [simp]:
  "m_DataUpdateMode (snd (SetChangeSensitivity pVar dev)) = m_DataUpdateMode dev"
  by (simp add: SetChangeSensitivity_def split: propvariant.splits)

lemma SetDataUpdateMode_keeps_mode_on_failure:
  assumes "FAILED (fst (SetDataUpdateMode Mode dev))"
  shows "m_DataUpdateMode (snd (SetDataUpdateMode Mode dev)) = m_DataUpdateMode dev"
proof -
  let ?r = "case Mode of DataUpdateModeOff \<Rightarrow> SetDeviceStateStandby dev
            | DataUpdateModePolling \<Rightarrow> SetDeviceStatePolling dev
            | DataUpdateModeEventing \<Rightarrow> SetDeviceStateEventing dev"
  have m: "m_DataUpdateMode (snd ?r) = m_DataUpdateMode dev"
    by (cases Mode) simp_all
  have s: "SetDataUpdateMode Mode dev =
             (if SUCCEEDED (fst ?r) then (fst ?r, (snd ?r) \<lparr> m_DataUpdateMode := Mode \<rparr>) else ?r)"
    by (simp add: SetDataUpdateMode_def split: prod.splits)
  show ?thesis
  proof (cases "SUCCEEDED (fst ?r)")
    case True
    then show ?thesis
      using assms s not_FAILED_SUCCEEDED by (metis fst_conv)
  next
    case False
    then show ?thesis
      using s m by simp
  qed
qed

lemma apply_report_interval_mode [simp]:
  "m_DataUpdateMode (snd (apply_report_interval dev)) = m_DataUpdateMode dev"
proof -
  obtain hr var where g: "GetArbitratedProperty SENSOR_PROPERTY_CURRENT_REPORT_INTERVAL (m_pClientManager dev) = (hr, var)"
    by (cases "GetArbitratedProperty SENSOR_PROPERTY_CURRENT_REPORT_INTERVAL (m_pClientManager dev)") auto
  obtain hr1 dev1 where s: "SetReportInterval (ulVal var) dev = (hr1, dev1)"
    by (cases "SetReportInterval (ulVal var) dev") auto
  have "m_DataUpdateMode dev1 = m_DataUpdateMode dev"
    using SetReportInterval_mode [of "ulVal var" dev] by (simp add: s)
  then show ?thesis
    by (simp add: apply_report_interval_def g s)
qed

lemma apply_change_sensitivity_mode [simp]:
  "m_DataUpdateMode (snd (apply_change_sensitivity dev)) = m_DataUpdateMode dev"
proof -
  obtain hr var where g: "GetArbitratedProperty SENSOR_PROPERTY_CHANGE_SENSITIVITY (m_pClientManager dev) = (hr, var)"
    by (cases "GetArbitratedProperty SENSOR_PROPERTY_CHANGE_SENSITIVITY (m_pClientManager dev)") auto
  show ?thesis
    by (simp add: apply_change_sensitivity_def g)
qed

lemma ApplyUpdatedProperties_keeps_mode_on_failure:
  assumes "FAILED (fst (ApplyUpdatedProperties dev))"
  shows "m_DataUpdateMode (snd (ApplyUpdatedProperties dev)) = m_DataUpdateMode dev"
proof (cases "m_fSensorInitialized dev")
  case False
  then show ?thesis by (simp add: ApplyUpdatedProperties_def)
next
  case True
  obtain hr1 dev1 where s1: "apply_report_interval dev = (hr1, dev1)"
    by (cases "apply_report_interval dev") auto
  have m1: "m_DataUpdateMode dev1 = m_DataUpdateMode dev"
    using apply_report_interval_mode [of dev] by (simp add: s1)
  obtain hr2 dev2 where s2:
    "(if SUCCEEDED hr1 then apply_change_sensitivity dev1 else (hr1, dev1)) = (hr2, dev2)"
    by (cases "if SUCCEEDED hr1 then apply_change_sensitivity dev1 else (hr1, dev1)") auto
  have m2: "m_DataUpdateMode dev2 = m_DataUpdateMode dev1"
  proof (cases "SUCCEEDED hr1")
    case True
    then show ?thesis
      using s2 apply_change_sensitivity_mode [of dev1] by simp
  next
    case False
    then show ?thesis using s2 by simp
  qed
  have a: "ApplyUpdatedProperties dev =
             (if SUCCEEDED hr2 then
                (if GetDataUpdateMode (m_pClientManager dev2) \<noteq> m_DataUpdateMode dev2
                 then SetDataUpdateMode (GetDataUpdateMode (m_pClientManager dev2)) dev2
                 else (hr2, dev2))
              else (hr2, dev2))"
    using True s1 s2 by (simp add: ApplyUpdatedProperties_def)
  show ?thesis
  proof (cases "SUCCEEDED hr2 \<and> GetDataUpdateMode (m_pClientManager dev2) \<noteq> m_DataUpdateMode dev2")
    case True
    then have "ApplyUpdatedProperties dev = SetDataUpdateMode (GetDataUpdateMode (m_pClientManager dev2)) dev2"
      using a by simp
    then show ?thesis
      using assms SetDataUpdateMode_keeps_mode_on_failure m1 m2 by simp
  next
    case False
    then have "ApplyUpdatedProperties dev = (hr2, dev2)"
      using a by auto
    then show ?thesis
      using m1 m2 by simp
  qed
qed

text \<open>
  C7. In a mode-change apply, a failing hardware step should be returned to the caller
  and leave the committed data-update mode as it was. When the new mode is Off,
  SetDeviceStateStandby overwrites the status of its first write (interrupts off) with
  the status of its last write (standby): with the first write failing and the last one
  succeeding, SetDataUpdateMode and ApplyUpdatedProperties return S\_OK and commit Off
  over Polling.
\<close>

theorem standby_failure_is_lost:
  "fst (WriteRegister ADXL345_INT_ENABLE Zero standby_device) = E_FAIL \<and> FAILED E_FAIL \<and>
   m_DataUpdateMode standby_device = DataUpdateModePolling \<and>
   fst (SetDataUpdateMode DataUpdateModeOff standby_device) = S_OK \<and>
   m_DataUpdateMode (snd (SetDataUpdateMode DataUpdateModeOff standby_device)) = DataUpdateModeOff \<and>
   m_DataUpdateMode apply_device = DataUpdateModePolling \<and>
   fst (ApplyUpdatedProperties apply_device) = S_OK \<and>
   m_DataUpdateMode (snd (ApplyUpdatedProperties apply_device)) = DataUpdateModeOff"
  unfolding standby_device_def apply_device_def example_device_def by code_simp

section \<open>The device: data arrival\<close>

lemma FAILED_E_INVALIDARG [simp]: "FAILED E_INVALIDARG" "\<not> SUCCEEDED E_INVALIDARG"
  by (simp_all add: FAILED_def SUCCEEDED_def E_INVALIDARG_def HRESULT_FROM_WIN32_def)

lemma FAILED_E_UNEXPECTED [simp]: "FAILED E_UNEXPECTED" "\<not> SUCCEEDED E_UNEXPECTED"
  by (simp_all add: FAILED_def SUCCEEDED_def E_UNEXPECTED_def)

lemma ReadRegister_rest:
  "m_pReportManager (snd (snd (ReadRegister reg n dev))) = m_pReportManager dev"
  "m_spSensorDataFieldValues (snd (snd (ReadRegister reg n dev))) = m_spSensorDataFieldValues dev"
  "m_spSensorPropertyValues (snd (snd (ReadRegister reg n dev))) = m_spSensorPropertyValues dev"
  "m_pClientManager (snd (snd (ReadRegister reg n dev))) = m_pClientManager dev"
  by (simp_all add: ReadRegister_def split: list.splits prod.splits)

lemma RequestData_device:
  "snd (snd (RequestData bounds pValues dev)) =
     (if m_fInitialized dev then snd (snd (ReadRegister ADXL345_DATA_X0 6 dev)) else dev)"
  by (simp add: RequestData_def split: prod.splits)

lemma RequestData_rest:
  "m_pReportManager (snd (snd (RequestData bounds pValues dev))) = m_pReportManager dev"
  "m_spSensorDataFieldValues (snd (snd (RequestData bounds pValues dev))) = m_spSensorDataFieldValues dev"
  "m_spSensorPropertyValues (snd (snd (RequestData bounds pValues dev))) = m_spSensorPropertyValues dev"
  "m_pClientManager (snd (snd (RequestData bounds pValues dev))) = m_pClientManager dev"
  by (simp_all add: RequestData_device ReadRegister_rest)

lemma RequestNewData_rest:
  "m_pReportManager (snd (snd (RequestNewData bounds pValues dev))) = m_pReportManager dev"
  "m_spSensorDataFieldValues (snd (snd (RequestNewData bounds pValues dev))) = m_spSensorDataFieldValues dev"
  by (simp_all add: RequestNewData_def RequestData_rest)

lemma GetProperty_STATE:
  "GetProperty SENSOR_PROPERTY_STATE dev =
     (fst (GetValue SENSOR_PROPERTY_STATE (m_spSensorPropertyValues dev)),
      snd (GetValue SENSOR_PROPERTY_STATE (m_spSensorPropertyValues dev)), dev)"
  by (simp add: GetProperty_def IsTestProperty_def split: prod.splits)

lemma SetState_rest:
  "m_pReportManager (snd (SetState s dev)) = m_pReportManager dev"
  "m_spSensorDataFieldValues (snd (SetState s dev)) = m_spSensorDataFieldValues dev"
  "m_pClientManager (snd (SetState s dev)) = m_pClientManager dev"
  by (simp_all add: SetState_def GetProperty_STATE)

lemma SetTimeStamp_rest:
  "m_pReportManager (snd (SetTimeStamp dev)) = m_pReportManager dev"
  "m_pClientManager (snd (SetTimeStamp dev)) = m_pClientManager dev"
  "m_spSensorPropertyValues (snd (SetTimeStamp dev)) = m_spSensorPropertyValues dev"
  "fst (SetTimeStamp dev) = S_OK"
  by (simp_all add: SetTimeStamp_def)

lemma update_cache_rest:
  "m_pReportManager (update_cache vs dev) = m_pReportManager dev"
  "m_pClientManager (update_cache vs dev) = m_pClientManager dev"
  "m_spSensorPropertyValues (update_cache vs dev) = m_spSensorPropertyValues dev"
  by (simp_all add: update_cache_def)

lemma PollForData_never_signals:
  "NewDataAvailable_calls (m_pReportManager (snd (PollForData bounds dev)))
     = NewDataAvailable_calls (m_pReportManager dev)"
proof -
  obtain hr spValues dev1 where r: "RequestNewData bounds [] dev = (hr, spValues, dev1)"
    by (cases "RequestNewData bounds [] dev") auto
  have d1: "m_pReportManager dev1 = m_pReportManager dev"
    using RequestNewData_rest(1) [of bounds "[]" dev] by (simp add: r)
  obtain hr2 dev2 where t: "SetTimeStamp (update_cache spValues dev1) = (hr2, dev2)"
    by (cases "SetTimeStamp (update_cache spValues dev1)") auto
  have d2: "m_pReportManager dev2 = m_pReportManager dev1"
    using SetTimeStamp_rest(1) [of "update_cache spValues dev1"] by (simp add: t update_cache_rest)
  show ?thesis
    using d1 d2 by (simp add: PollForData_def r t SetState_rest)
qed

lemma DataAvailable_signals:
  "NewDataAvailable_calls (m_pReportManager (snd (DataAvailable pValues dev)))
     = NewDataAvailable_calls (m_pReportManager dev) +
       (if SUCCEEDED (fst (DataAvailable pValues dev)) \<and> 0 < m_SubscriberCount (m_pClientManager dev)
        then 1 else 0)"
proof -
  obtain hr1 dev1 where t: "SetTimeStamp dev = (hr1, dev1)"
    by (cases "SetTimeStamp dev") auto
  have h1: "hr1 = S_OK" and r1: "m_pReportManager dev1 = m_pReportManager dev"
    and c1: "m_pClientManager dev1 = m_pClientManager dev"
    using SetTimeStamp_rest [of dev] by (simp_all add: t)
  obtain hr2 dev2 where s: "SetState SENSOR_STATE_READY (update_cache pValues dev1) = (hr2, dev2)"
    by (cases "SetState SENSOR_STATE_READY (update_cache pValues dev1)") auto
  have r2: "m_pReportManager dev2 = m_pReportManager dev" and c2: "m_pClientManager dev2 = m_pClientManager dev"
    using SetState_rest [of SENSOR_STATE_READY "update_cache pValues dev1"] r1 c1
    by (simp_all add: s update_cache_rest)
  show ?thesis
    using r2 c2 by (simp add: DataAvailable_def t h1 s RaiseDataEvent_def NewDataAvailable_def)
qed

lemma DataAvailable_result:
  assumes "GetValue SENSOR_PROPERTY_STATE (m_spSensorPropertyValues dev) = (S_OK, VT_UI4 state)"
  shows "fst (DataAvailable pValues dev) = S_OK \<and>
         m_spSensorDataFieldValues (snd (DataAvailable pValues dev)) =
           fold (\<lambda>kv cache. SetValue (fst kv) (snd kv) cache) pValues
             (SetValue SENSOR_DATA_TYPE_TIMESTAMP (VT_FILETIME (system_time dev))
                (m_spSensorDataFieldValues dev)) \<and>
         GetValue SENSOR_PROPERTY_STATE (m_spSensorPropertyValues (snd (DataAvailable pValues dev)))
           = (S_OK, VT_UI4 SENSOR_STATE_READY)"
proof -
  let ?dev1 = "update_cache pValues (snd (SetTimeStamp dev))"
  have p: "m_spSensorPropertyValues ?dev1 = m_spSensorPropertyValues dev"
    by (simp add: update_cache_rest SetTimeStamp_rest)
  have c: "m_spSensorDataFieldValues ?dev1 =
           fold (\<lambda>kv cache. SetValue (fst kv) (snd kv) cache) pValues
             (SetValue SENSOR_DATA_TYPE_TIMESTAMP (VT_FILETIME (system_time dev))
                (m_spSensorDataFieldValues dev))"
    by (simp add: update_cache_def SetTimeStamp_def)
  have s: "fst (SetState SENSOR_STATE_READY ?dev1) = S_OK \<and>
           m_spSensorDataFieldValues (snd (SetState SENSOR_STATE_READY ?dev1)) = m_spSensorDataFieldValues ?dev1 \<and>
           GetValue SENSOR_PROPERTY_STATE (m_spSensorPropertyValues (snd (SetState SENSOR_STATE_READY ?dev1)))
             = (S_OK, VT_UI4 SENSOR_STATE_READY)"
    using assms p
    by (simp add: SetState_def GetProperty_STATE PropVariantToUInt32_def GetValue_def map_of_SetValue
          split: option.splits)
  have d: "DataAvailable pValues dev =
           (fst (SetState SENSOR_STATE_READY ?dev1), RaiseDataEvent (snd (SetState SENSOR_STATE_READY ?dev1)))"
  proof -
    have t: "SetTimeStamp dev = (S_OK, snd (SetTimeStamp dev))"
      by (simp add: SetTimeStamp_def)
    show ?thesis
      unfolding DataAvailable_def by (subst t) (simp add: case_prod_beta s)
  qed
  show ?thesis
    using s c by (simp add: d RaiseDataEvent_def)
qed

text \<open>
  C10. The report manager is told of new data only when the subscriber count is greater
  than zero: a data arrival (DataAvailable) raises the number of NewDataAvailable calls by
  one exactly when it succeeds and the subscriber count is positive; with no subscriber
  and the state property present it still succeeds, writes the timestamp and the sample
  into the cache and sets the state to READY; and the synchronous polling path
  (PollForData) never calls NewDataAvailable.
\<close>

theorem throttle_notified_only_with_subscribers:
  "NewDataAvailable_calls (m_pReportManager (snd (PollForData bounds dev)))
     = NewDataAvailable_calls (m_pReportManager dev) \<and>
   NewDataAvailable_calls (m_pReportManager (snd (DataAvailable pValues dev)))
     = NewDataAvailable_calls (m_pReportManager dev) +
       (if SUCCEEDED (fst (DataAvailable pValues dev)) \<and> 0 < m_SubscriberCount (m_pClientManager dev)
        then 1 else 0) \<and>
   (m_SubscriberCount (m_pClientManager dev) = 0 \<and>
    GetValue SENSOR_PROPERTY_STATE (m_spSensorPropertyValues dev) = (S_OK, VT_UI4 state) \<longrightarrow>
      fst (DataAvailable pValues dev) = S_OK \<and>
      m_spSensorDataFieldValues (snd (DataAvailable pValues dev)) =
        fold (\<lambda>kv cache. SetValue (fst kv) (snd kv) cache) pValues
          (SetValue SENSOR_DATA_TYPE_TIMESTAMP (VT_FILETIME (system_time dev))
             (m_spSensorDataFieldValues dev)) \<and>
      GetValue SENSOR_PROPERTY_STATE (m_spSensorPropertyValues (snd (DataAvailable pValues dev)))
        = (S_OK, VT_UI4 SENSOR_STATE_READY) \<and>
      NewDataAvailable_calls (m_pReportManager (snd (DataAvailable pValues dev)))
        = NewDataAvailable_calls (m_pReportManager dev))"
  using PollForData_never_signals [of bounds dev] DataAvailable_signals [of pValues dev]
    DataAvailable_result [of dev state pValues]
  by simp

theorem throttle_notified_only_with_subscribers_witness:
  "m_SubscriberCount (m_pClientManager example_device) = 0 \<and>
   fst (DataAvailable [(SENSOR_DATA_TYPE_ACCELERATION_X_G, VT_R8 1)] example_device) = S_OK \<and>
   GetValue SENSOR_DATA_TYPE_ACCELERATION_X_G
     (m_spSensorDataFieldValues (snd (DataAvailable [(SENSOR_DATA_TYPE_ACCELERATION_X_G, VT_R8 1)] example_device)))
     = (S_OK, VT_R8 1) \<and>
   GetValue SENSOR_PROPERTY_STATE
     (m_spSensorPropertyValues (snd (DataAvailable [(SENSOR_DATA_TYPE_ACCELERATION_X_G, VT_R8 1)] example_device)))
     = (S_OK, VT_UI4 SENSOR_STATE_READY) \<and>
   NewDataAvailable_calls
     (m_pReportManager (snd (DataAvailable [(SENSOR_DATA_TYPE_ACCELERATION_X_G, VT_R8 1)] example_device))) = 0"
proof -
  have h: "m_SubscriberCount (m_pClientManager example_device) = 0 \<and>
           GetValue SENSOR_PROPERTY_STATE (m_spSensorPropertyValues example_device)
             = (S_OK, VT_UI4 SENSOR_STATE_NO_DATA)"
    by (simp add: example_device_def example_manager_eq GetValue_def)
  have c: "NewDataAvailable_calls (m_pReportManager example_device) = 0"
    by (simp add: example_device_def)
  have v: "GetValue SENSOR_DATA_TYPE_ACCELERATION_X_G
             (fold (\<lambda>kv cache. SetValue (fst kv) (snd kv) cache) [(SENSOR_DATA_TYPE_ACCELERATION_X_G, VT_R8 1)]
                (SetValue SENSOR_DATA_TYPE_TIMESTAMP (VT_FILETIME (system_time example_device))
                   (m_spSensorDataFieldValues example_device))) = (S_OK, VT_R8 1)"
    by (simp add: example_device_def GetValue_def)
  show ?thesis
    using throttle_notified_only_with_subscribers
            [of "(- 16, 16)" example_device "[(SENSOR_DATA_TYPE_ACCELERATION_X_G, VT_R8 1)]" SENSOR_STATE_NO_DATA]
          h c v
    by simp
qed

lemma AddDataFieldValue_acceleration:
  assumes "key = SENSOR_DATA_TYPE_ACCELERATION_X_G \<or> key = SENSOR_DATA_TYPE_ACCELERATION_Y_G \<or>
           key = SENSOR_DATA_TYPE_ACCELERATION_Z_G"
  shows "AddDataFieldValue bounds key (VT_R8 v) pValues =
           (if in_range bounds v then (S_OK, SetValue key (VT_R8 v) pValues) else (E_INVALIDARG, pValues))"
  using assms by (auto simp: AddDataFieldValue_def in_range_def)

lemma ReadRegister_cache:
  "ReadRegister reg n dev = (hr, buf, dev1) \<Longrightarrow> m_spSensorDataFieldValues dev1 = m_spSensorDataFieldValues dev"
  using ReadRegister_rest(2) [of reg n dev] by simp

text \<open>
  C6 (as amended). The three values of a sample read from the hardware are validated in
  the order X, Y, Z. The first value outside the declared range makes RequestData fail
  with E\_INVALIDARG: the fields after it are neither validated nor added to the result
  set, and both callers (PollForData and the interrupt work item) then merge nothing of
  that sample into the cache. When all three values are in range, all three are added.
\<close>

theorem out_of_range_value_rejects_the_sample:
  assumes "m_fInitialized dev"
    and "ReadRegister ADXL345_DATA_X0 6 dev = (hr, buf, dev1)"
    and "SUCCEEDED hr"
    and "x = acceleration (buf ! 1) (buf ! 0)"
    and "y = acceleration (buf ! 3) (buf ! 2)"
    and "z = acceleration (buf ! 5) (buf ! 4)"
  shows "(\<not> in_range bounds x \<longrightarrow>
            RequestData bounds pValues dev = (E_INVALIDARG, pValues, dev1)) \<and>
         (in_range bounds x \<and> \<not> in_range bounds y \<longrightarrow>
            RequestData bounds pValues dev =
              (E_INVALIDARG, SetValue SENSOR_DATA_TYPE_ACCELERATION_X_G (VT_R8 x) pValues, dev1)) \<and>
         (in_range bounds x \<and> in_range bounds y \<and> \<not> in_range bounds z \<longrightarrow>
            RequestData bounds pValues dev =
              (E_INVALIDARG,
               SetValue SENSOR_DATA_TYPE_ACCELERATION_Y_G (VT_R8 y)
                 (SetValue SENSOR_DATA_TYPE_ACCELERATION_X_G (VT_R8 x) pValues), dev1)) \<and>
         (in_range bounds x \<and> in_range bounds y \<and> in_range bounds z \<longrightarrow>
            RequestData bounds pValues dev =
              (S_OK,
               SetValue SENSOR_DATA_TYPE_ACCELERATION_Z_G (VT_R8 z)
                 (SetValue SENSOR_DATA_TYPE_ACCELERATION_Y_G (VT_R8 y)
                    (SetValue SENSOR_DATA_TYPE_ACCELERATION_X_G (VT_R8 x) pValues)), dev1)) \<and>
         (\<not> (in_range bounds x \<and> in_range bounds y \<and> in_range bounds z) \<longrightarrow>
            PollForData bounds dev = (E_INVALIDARG, dev1) \<and>
            OnInterruptWorkItem bounds dev = dev1 \<and>
            m_spSensorDataFieldValues dev1 = m_spSensorDataFieldValues dev)"
proof -
  have rd: "RequestData bounds vs dev =
        (if in_range bounds x then
           (if in_range bounds y then
              (if in_range bounds z
               then (S_OK, SetValue SENSOR_DATA_TYPE_ACCELERATION_Z_G (VT_R8 z)
                       (SetValue SENSOR_DATA_TYPE_ACCELERATION_Y_G (VT_R8 y)
                          (SetValue SENSOR_DATA_TYPE_ACCELERATION_X_G (VT_R8 x) vs)), dev1)
               else (E_INVALIDARG, SetValue SENSOR_DATA_TYPE_ACCELERATION_Y_G (VT_R8 y)
                       (SetValue SENSOR_DATA_TYPE_ACCELERATION_X_G (VT_R8 x) vs), dev1))
            else (E_INVALIDARG, SetValue SENSOR_DATA_TYPE_ACCELERATION_X_G (VT_R8 x) vs, dev1))
         else (E_INVALIDARG, vs, dev1))" for vs
    using assms by (simp add: RequestData_def AddDataFieldValue_acceleration)
  have cache: "m_spSensorDataFieldValues dev1 = m_spSensorDataFieldValues dev"
    using ReadRegister_cache [OF assms(2)] .
  have poll: "PollForData bounds dev = (E_INVALIDARG, dev1) \<and> OnInterruptWorkItem bounds dev = dev1"
    if "\<not> (in_range bounds x \<and> in_range bounds y \<and> in_range bounds z)"
    using that assms(1) by (auto simp: PollForData_def OnInterruptWorkItem_def RequestNewData_def rd)
  show ?thesis
    using rd [of pValues] cache poll by auto
qed

lemma overrange_read:
  "ReadRegister ADXL345_DATA_X0 6 overrange_device = (S_OK, [0xFF, 0x7F, 0, 0, 0, 0], example_device)"
  by (simp add: ReadRegister_def overrange_device_def example_device_def)

lemma overrange_values:
  "acceleration 0x7F 0xFF = 32767 / 256" "acceleration 0 0 = 0"
  by (simp_all add: acceleration_def)

theorem out_of_range_value_rejects_the_sample_witness:
  "\<not> in_range (- 16, 16) (acceleration 0x7F 0xFF) \<and>
   in_range (- 16, 16) (acceleration 0 0) \<and>
   RequestData (- 16, 16) [] overrange_device = (E_INVALIDARG, [], example_device) \<and>
   PollForData (- 16, 16) overrange_device = (E_INVALIDARG, example_device) \<and>
   OnInterruptWorkItem (- 16, 16) overrange_device = example_device \<and>
   m_spSensorDataFieldValues example_device = m_spSensorDataFieldValues overrange_device"
proof -
  have i: "m_fInitialized overrange_device"
    by (simp add: overrange_device_def example_device_def)
  have ok: "SUCCEEDED S_OK"
    by simp
  have x: "acceleration 0x7F 0xFF = acceleration ([0xFF, 0x7F, 0, 0, 0, 0] ! 1) ([0xFF, 0x7F, 0, 0, 0, 0] ! 0)"
    and y: "acceleration 0 0 = acceleration ([0xFF, 0x7F, 0, 0, 0, 0] ! 3) ([0xFF, 0x7F, 0, 0, 0, 0 :: 8 word] ! 2)"
    and z: "acceleration 0 0 = acceleration ([0xFF, 0x7F, 0, 0, 0, 0] ! 5) ([0xFF, 0x7F, 0, 0, 0, 0 :: 8 word] ! 4)"
    by simp_all
  have r: "\<not> in_range (- 16, 16) (acceleration 0x7F 0xFF)" "in_range (- 16, 16) (acceleration 0 0)"
    by (simp_all add: overrange_values in_range_def)
  show ?thesis
    using out_of_range_value_rejects_the_sample [OF i overrange_read ok x y z, of "(- 16, 16)" "[]"] r
    by simp
qed

theorem in_range_fields_are_discarded_counterexample:
  "\<not> in_range (- 16, 16) (acceleration 0x7F 0xFF) \<and>
   in_range (- 16, 16) (acceleration 0 0) \<and>
   fst (snd (RequestData (- 16, 16) [] overrange_device)) = [] \<and>
   GetValue SENSOR_DATA_TYPE_ACCELERATION_Y_G
     (m_spSensorDataFieldValues (snd (PollForData (- 16, 16) overrange_device))) = (S_OK, VT_EMPTY) \<and>
   GetValue SENSOR_DATA_TYPE_ACCELERATION_Y_G
     (m_spSensorDataFieldValues (OnInterruptWorkItem (- 16, 16) overrange_device)) = (S_OK, VT_EMPTY)"
  unfolding overrange_device_def example_device_def by code_simp

section \<open>Batches of values\<close>

lemma map_of_assign: "map_of (assign p e m) = (map_of m)(p \<mapsto> e)"
  by (induction m) (auto simp: fun_eq_iff)

lemma RecalculateProperties_clients:
  "m_pClientList (snd (RecalculateProperties cm)) = m_pClientList cm"
  by (simp add: RecalculateProperties_def Let_def split: prod.splits)

lemma sensitivity_loop_maps:
  assumes "distinct (map fst items)"
  shows "(\<forall>k. map_of (fst (snd (sensitivity_loop mins items (desired, results, fError)))) k =
              (case map_of items k of
                 None \<Rightarrow> map_of results k
               | Some var \<Rightarrow>
                   Some (if SUCCEEDED (validate_sensitivity mins k var) then var
                         else VT_ERROR (validate_sensitivity mins k var)))) \<and>
         (\<forall>k. map_of (fst (sensitivity_loop mins items (desired, results, fError))) k =
              (case map_of items k of
                 None \<Rightarrow> map_of desired k
               | Some var \<Rightarrow>
                   if SUCCEEDED (validate_sensitivity mins k var) then Some var else map_of desired k)) \<and>
         snd (snd (sensitivity_loop mins items (desired, results, fError))) =
           (fError \<or> (\<exists>kv \<in> set items. \<not> SUCCEEDED (validate_sensitivity mins (fst kv) (snd kv))))"
  using assms
proof (induction items arbitrary: desired results fError)
  case Nil
  then show ?case by simp
next
  case (Cons kv items)
  obtain key var where kv: "kv = (key, var)" by (cases kv)
  have d: "distinct (map fst items)" and n: "map_of items key = None"
    using Cons.prems by (auto simp: kv map_of_eq_None_iff)
  show ?case
  proof (cases "SUCCEEDED (validate_sensitivity mins key var)")
    case True
    show ?thesis
      using Cons.IH [OF d, of "SetValue key var desired" "SetValue key var results" fError] True n
      by (auto simp: kv map_of_SetValue split: option.splits)
  next
    case False
    show ?thesis
      using Cons.IH [OF d, of desired "SetErrorValue key (validate_sensitivity mins key var) results" True] False n
      by (auto simp: kv map_of_SetValue SetErrorValue_def split: option.splits)
  qed
qed

lemma GetValue_map_of: "map_of vs k = Some v \<Longrightarrow> GetValue k vs = (S_OK, v)"
  by (simp add: GetValue_def)

lemma GetValue_cong: "map_of vs k = map_of ws k \<Longrightarrow> GetValue k vs = GetValue k ws"
  by (simp add: GetValue_def)

lemma not_SUCCEEDED_FAILED: "(\<not> SUCCEEDED hr) = FAILED hr"
  by (auto simp: SUCCEEDED_def FAILED_def)

lemma SetDesiredChangeSensitivity_items:
  assumes p: "pClientFile \<noteq> nullptr"
    and f: "find_client pClientFile (m_pClientList cm) = Some entry"
    and d: "distinct (map fst pValues)"
    and i: "(key, var) \<in> set pValues"
  shows "(SUCCEEDED (validate_sensitivity (m_spMinSensitivityValues cm) key var) \<longrightarrow>
            GetValue key (fst (snd (SetDesiredChangeSensitivity pClientFile pValues cm))) = (S_OK, var) \<and>
            GetValue key (desired_values pClientFile (snd (snd (SetDesiredChangeSensitivity pClientFile pValues cm))))
              = (S_OK, var)) \<and>
         (\<not> SUCCEEDED (validate_sensitivity (m_spMinSensitivityValues cm) key var) \<longrightarrow>
            FAILED (validate_sensitivity (m_spMinSensitivityValues cm) key var) \<and>
            GetValue key (fst (snd (SetDesiredChangeSensitivity pClientFile pValues cm)))
              = (S_OK, VT_ERROR (validate_sensitivity (m_spMinSensitivityValues cm) key var)) \<and>
            GetValue key (desired_values pClientFile (snd (snd (SetDesiredChangeSensitivity pClientFile pValues cm))))
              = GetValue key (desired_values pClientFile cm) \<and>
            (SUCCEEDED (fst (SetDesiredChangeSensitivity pClientFile pValues cm)) \<longrightarrow>
               fst (SetDesiredChangeSensitivity pClientFile pValues cm) = S_FALSE))"
proof -
  let ?mins = "m_spMinSensitivityValues cm"
  obtain desired results fError where l:
    "sensitivity_loop ?mins pValues (pDesiredSensitivityValues entry, [], False) = (desired, results, fError)"
    by (cases "sensitivity_loop ?mins pValues (pDesiredSensitivityValues entry, [], False)") auto
  let ?mid = "cm \<lparr> m_pClientList := assign pClientFile (entry \<lparr> pDesiredSensitivityValues := desired \<rparr>)
                                      (m_pClientList cm) \<rparr>"
  obtain hr cm' where r: "RecalculateProperties ?mid = (hr, cm')"
    by (cases "RecalculateProperties ?mid") auto
  have s: "SetDesiredChangeSensitivity pClientFile pValues cm =
             (if SUCCEEDED hr \<and> fError then S_FALSE else hr, results, cm')"
    using p f l r by (simp add: SetDesiredChangeSensitivity_def)
  have "m_pClientList cm' = m_pClientList ?mid"
    using RecalculateProperties_clients [of ?mid] by (simp add: r)
  then have dv: "desired_values pClientFile cm' = desired"
    by (simp add: desired_values_def find_client_def map_of_assign)
  have dv0: "desired_values pClientFile cm = pDesiredSensitivityValues entry"
    using f by (simp add: desired_values_def)
  have m: "map_of pValues key = Some var"
    using d i by simp
  note lm = sensitivity_loop_maps [OF d, of ?mins "pDesiredSensitivityValues entry" "[]" False, unfolded l]
  have res: "map_of results key =
               Some (if SUCCEEDED (validate_sensitivity ?mins key var) then var
                     else VT_ERROR (validate_sensitivity ?mins key var))"
    using lm m by simp
  have des: "map_of desired key =
               (if SUCCEEDED (validate_sensitivity ?mins key var) then Some var
                else map_of (pDesiredSensitivityValues entry) key)"
    using lm m by simp
  have fe: "fError" if "\<not> SUCCEEDED (validate_sensitivity ?mins key var)"
  proof -
    have "\<exists>kv \<in> set pValues. \<not> SUCCEEDED (validate_sensitivity ?mins (fst kv) (snd kv))"
      using that i by force
    then show ?thesis using lm by simp
  qed
  show ?thesis
  proof (cases "SUCCEEDED (validate_sensitivity ?mins key var)")
    case True
    then show ?thesis
      using res des by (simp add: s dv GetValue_map_of)
  next
    case False
    then have "GetValue key desired = GetValue key (pDesiredSensitivityValues entry)"
      using des by (intro GetValue_cong) simp
    moreover have "FAILED (validate_sensitivity ?mins key var)"
      using False by (simp add: SUCCEEDED_def FAILED_def)
    ultimately show ?thesis
      using False res fe by (simp add: s dv dv0 GetValue_map_of)
  qed
qed

section \<open>Batches of properties\<close>

lemma WriteRegister_kept [simp]:
  "kept_by_hardware (snd (WriteRegister reg v dev)) = kept_by_hardware dev"
  by (simp add: WriteRegister_def kept_by_hardware_def split: list.splits prod.splits)

lemma ReadRegister_kept [simp]:
  "kept_by_hardware (snd (snd (ReadRegister reg n dev))) = kept_by_hardware dev"
  by (simp add: ReadRegister_def kept_by_hardware_def split: list.splits prod.splits)

lemma kept_InterruptsEnabled [simp]:
  "kept_by_hardware (dev \<lparr> m_InterruptsEnabled := v \<rparr>) = kept_by_hardware dev"
  by (simp add: kept_by_hardware_def)

lemma kept_DataUpdateMode [simp]:
  "kept_by_hardware (dev \<lparr> m_DataUpdateMode := v \<rparr>) = kept_by_hardware dev"
  by (simp add: kept_by_hardware_def)

lemma kept_ReportManager [simp]:
  "kept_by_hardware (dev \<lparr> m_pReportManager := v \<rparr>) = kept_by_hardware dev"
  by (simp add: kept_by_hardware_def)

lemma reprogram_kept [simp]:
  "kept_by_hardware (snd (reprogram reg v dev)) = kept_by_hardware dev"
proof -
  obtain hr1 dev1 where w1: "WriteRegister ADXL345_INT_ENABLE Zero dev = (hr1, dev1)"
    by (cases "WriteRegister ADXL345_INT_ENABLE Zero dev") auto
  obtain hr2 dev2 where w2: "WriteRegister reg v dev1 = (hr2, dev2)"
    by (cases "WriteRegister reg v dev1") auto
  have "kept_by_hardware dev1 = kept_by_hardware dev"
    using WriteRegister_kept [of ADXL345_INT_ENABLE Zero dev] by (simp add: w1)
  moreover have "kept_by_hardware dev2 = kept_by_hardware dev1"
    using WriteRegister_kept [of reg v dev1] by (simp add: w2)
  ultimately show ?thesis
    by (simp add: reprogram_def w1 w2)
qed

lemma SetDeviceStatePolling_kept [simp]:
  "kept_by_hardware (snd (SetDeviceStatePolling dev)) = kept_by_hardware dev"
proof -
  obtain hr1 dev1 where w1: "WriteRegister ADXL345_INT_ENABLE Zero dev = (hr1, dev1)"
    by (cases "WriteRegister ADXL345_INT_ENABLE Zero dev") auto
  have "kept_by_hardware dev1 = kept_by_hardware dev"
    using WriteRegister_kept [of ADXL345_INT_ENABLE Zero dev] by (simp add: w1)
  then show ?thesis
    by (simp add: SetDeviceStatePolling_def w1)
qed

lemma SetDeviceStateEventing_kept [simp]:
  "kept_by_hardware (snd (SetDeviceStateEventing dev)) = kept_by_hardware dev"
proof -
  obtain hr1 dev1 where w1: "WriteRegister ADXL345_POWER_CTL ADXL345_POWER_CTL_MEASURE dev = (hr1, dev1)"
    by (cases "WriteRegister ADXL345_POWER_CTL ADXL345_POWER_CTL_MEASURE dev") auto
  obtain hr2 dev2 where w2: "WriteRegister ADXL345_INT_ENABLE ADXL345_INT_ACTIVITY dev1 = (hr2, dev2)"
    by (cases "WriteRegister ADXL345_INT_ENABLE ADXL345_INT_ACTIVITY dev1") auto
  have "kept_by_hardware dev1 = kept_by_hardware dev"
    using WriteRegister_kept [of ADXL345_POWER_CTL ADXL345_POWER_CTL_MEASURE dev] by (simp add: w1)
  moreover have "kept_by_hardware dev2 = kept_by_hardware dev1"
    using WriteRegister_kept [of ADXL345_INT_ENABLE ADXL345_INT_ACTIVITY dev1] by (simp add: w2)
  ultimately show ?thesis
    by (simp add: SetDeviceStateEventing_def w1 w2)
qed

lemma SetDeviceStateStandby_kept [simp]:
  "kept_by_hardware (snd (SetDeviceStateStandby dev)) = kept_by_hardware dev"
proof -
  obtain hr1 dev1 where w1: "WriteRegister ADXL345_INT_ENABLE Zero dev = (hr1, dev1)"
    by (cases "WriteRegister ADXL345_INT_ENABLE Zero dev") auto
  have k1: "kept_by_hardware dev1 = kept_by_hardware dev"
    using WriteRegister_kept [of ADXL345_INT_ENABLE Zero dev] by (simp add: w1)
  show ?thesis
    using k1 by (simp add: SetDeviceStateStandby_def w1 Let_def case_prod_beta)
qed

lemma SetReportInterval_kept [simp]:
  "kept_by_hardware (snd (SetReportInterval v dev)) = kept_by_hardware dev"
  by (simp add: SetReportInterval_def)

lemma SetChangeSensitivity_kept [simp]:
  "kept_by_hardware (snd (SetChangeSensitivity v dev)) = kept_by_hardware dev"
  by (simp add: SetChangeSensitivity_def split: propvariant.splits)

lemma SetDataUpdateMode_kept [simp]:
  "kept_by_hardware (snd (SetDataUpdateMode Mode dev)) = kept_by_hardware dev"
proof -
  define r where "r = (case Mode of
              DataUpdateModeOff \<Rightarrow> SetDeviceStateStandby dev
            | DataUpdateModePolling \<Rightarrow> SetDeviceStatePolling dev
            | DataUpdateModeEventing \<Rightarrow> SetDeviceStateEventing dev)"
  have k: "kept_by_hardware (snd r) = kept_by_hardware dev"
    by (cases Mode) (simp_all add: r_def)
  obtain hr dev1 where e: "r = (hr, dev1)"
    by (cases r) auto
  show ?thesis
    unfolding SetDataUpdateMode_def r_def [symmetric] using k by (simp add: e)
qed

lemma apply_report_interval_kept [simp]:
  "kept_by_hardware (snd (apply_report_interval dev)) = kept_by_hardware dev"
proof -
  obtain hr var where g: "GetArbitratedProperty SENSOR_PROPERTY_CURRENT_REPORT_INTERVAL (m_pClientManager dev) = (hr, var)"
    by (cases "GetArbitratedProperty SENSOR_PROPERTY_CURRENT_REPORT_INTERVAL (m_pClientManager dev)") auto
  obtain hr1 dev1 where s: "SetReportInterval (ulVal var) dev = (hr1, dev1)"
    by (cases "SetReportInterval (ulVal var) dev") auto
  have "kept_by_hardware dev1 = kept_by_hardware dev"
    using SetReportInterval_kept [of "ulVal var" dev] by (simp add: s)
  then show ?thesis
    by (simp add: apply_report_interval_def g s)
qed

lemma apply_change_sensitivity_kept [simp]:
  "kept_by_hardware (snd (apply_change_sensitivity dev)) = kept_by_hardware dev"
  by (simp add: apply_change_sensitivity_def split: prod.splits)

lemma ApplyUpdatedProperties_kept:
  "kept_by_hardware (snd (ApplyUpdatedProperties dev)) = kept_by_hardware dev"
proof -
  obtain hr1 dev1 where a1: "apply_report_interval dev = (hr1, dev1)"
    by (cases "apply_report_interval dev") auto
  define r where "r = (if SUCCEEDED hr1 then apply_change_sensitivity dev1 else (hr1, dev1))"
  obtain hr2 dev2 where a2: "r = (hr2, dev2)"
    by (cases r) auto
  have k1: "kept_by_hardware dev1 = kept_by_hardware dev"
    using apply_report_interval_kept [of dev] by (simp add: a1)
  have "kept_by_hardware (snd r) = kept_by_hardware dev1"
    by (simp add: r_def)
  then have k2: "kept_by_hardware dev2 = kept_by_hardware dev"
    by (simp add: a2 k1)
  show ?thesis
    unfolding ApplyUpdatedProperties_def a1 prod.case r_def [symmetric] a2
    using k2 by simp
qed

lemma is_r8_null_or_r8: "list_all (\<lambda>kv. is_r8 (snd kv)) m \<Longrightarrow> list_all (\<lambda>kv. null_or_r8 (snd kv)) m"
proof -
  have "null_or_r8 v" if "is_r8 v" for v using that by (cases v) simp_all
  then show "list_all (\<lambda>kv. is_r8 (snd kv)) m \<Longrightarrow> list_all (\<lambda>kv. null_or_r8 (snd kv)) m"
    by (auto simp: list_all_iff)
qed

lemma Recalculate_ready:
  assumes "cm_inv mid"
  obtains mins' ri ex where
    "RecalculateProperties mid =
       (S_OK, mid \<lparr> m_spMinSensitivityValues := mins', m_minReportInterval := ri,
                    m_minReportIntervalExplicitlySet := ex \<rparr>)"
    "cm_ready (mid \<lparr> m_spMinSensitivityValues := mins', m_minReportInterval := ri,
                      m_minReportIntervalExplicitlySet := ex \<rparr>)"
proof -
  obtain mins' ri ex where
    e: "RecalculateProperties mid =
       (S_OK, mid \<lparr> m_spMinSensitivityValues := mins', m_minReportInterval := ri,
                    m_minReportIntervalExplicitlySet := ex \<rparr>)"
    and r8: "list_all (\<lambda>kv. is_r8 (snd kv)) mins'"
    using RecalculateProperties_ok [OF assms] by blast
  have "cm_inv (mid \<lparr> m_spMinSensitivityValues := mins', m_minReportInterval := ri,
                      m_minReportIntervalExplicitlySet := ex \<rparr>)"
    using Recalculate_result [OF assms e] by blast
  then have "cm_ready (mid \<lparr> m_spMinSensitivityValues := mins', m_minReportInterval := ri,
                      m_minReportIntervalExplicitlySet := ex \<rparr>)"
    using r8 by (simp add: cm_ready_def)
  then show ?thesis
    using e that by blast
qed

lemma cm_ready_Initialize:
  assumes "distinct (map fst dflt)" and "list_all (\<lambda>kv. is_r8 (snd kv)) dflt"
  shows "cm_ready (snd (Initialize d m dflt CClientManager_new))"
proof -
  have "CopyValues dflt [] = [] @ dflt"
    using assms(1) by (intro CopyValues_append) simp_all
  then have "m_spMinSensitivityValues (snd (Initialize d m dflt CClientManager_new)) = dflt"
    by (simp add: Initialize_def CClientManager_new_def)
  then show ?thesis
    using cm_inv_Initialize [OF assms, of d m] assms(2) by (simp add: cm_ready_def)
qed

lemma cm_ready_apply_op:
  assumes "cm_ready cm"
  shows "cm_ready (snd (apply_op op cm))"
proof -
  have inv: "cm_inv cm"
    using assms by (simp add: cm_ready_def)
  obtain hr cm' where ap: "apply_op op cm = (hr, cm')"
    by (cases "apply_op op cm") auto
  consider "cm' = cm" | mid hr0 where "cm_inv mid" "RecalculateProperties mid = (hr0, cm')"
    using apply_op_cases [OF inv ap] by blast
  then have "cm_ready cm'"
  proof cases
    case 1
    then show ?thesis using assms by simp
  next
    case 2
    show ?thesis
      using Recalculate_ready [OF 2(1)] 2(2) by (metis snd_conv)
  qed
  then show ?thesis
    by (simp add: ap)
qed

lemma SetDesiredReportInterval_ready:
  assumes ready: "cm_ready cm" and p: "pClientFile \<noteq> nullptr"
    and f: "find_client pClientFile (m_pClientList cm) = Some entry"
    and v: "v = 0 \<or> m_minSupportedReportInterval cm \<le> v"
  obtains cm' where "SetDesiredReportInterval pClientFile v cm = (S_OK, cm')" "cm_ready cm'"
    "m_pClientList cm' = assign pClientFile (entry \<lparr> desiredReportInterval := v \<rparr>) (m_pClientList cm)"
    "m_minSupportedReportInterval cm' = m_minSupportedReportInterval cm"
    "m_spDefaultSensitivityValues cm' = m_spDefaultSensitivityValues cm"
proof -
  have inv: "cm_inv cm"
    using ready by (simp add: cm_ready_def)
  let ?mid = "cm \<lparr> m_pClientList := assign pClientFile (entry \<lparr> desiredReportInterval := v \<rparr>) (m_pClientList cm) \<rparr>"
  have mid: "cm_inv ?mid"
    using cm_inv_list [OF inv] cm_inv_entry [OF inv f]
    by (intro cm_inv_cong [OF inv]) (auto intro!: list_all_assign)
  obtain mins' ri ex where
    e: "RecalculateProperties ?mid =
       (S_OK, ?mid \<lparr> m_spMinSensitivityValues := mins', m_minReportInterval := ri,
                    m_minReportIntervalExplicitlySet := ex \<rparr>)"
    and r: "cm_ready (?mid \<lparr> m_spMinSensitivityValues := mins', m_minReportInterval := ri,
                      m_minReportIntervalExplicitlySet := ex \<rparr>)"
    using Recalculate_ready [OF mid] by blast
  have nv: "\<not> (v \<noteq> 0 \<and> v < m_minSupportedReportInterval cm)"
    using v by auto
  have "SetDesiredReportInterval pClientFile v cm = RecalculateProperties ?mid"
    using p f nv by (auto simp: SetDesiredReportInterval_def)
  then have s: "SetDesiredReportInterval pClientFile v cm =
       (S_OK, ?mid \<lparr> m_spMinSensitivityValues := mins', m_minReportInterval := ri,
                    m_minReportIntervalExplicitlySet := ex \<rparr>)"
    by (simp only: e)
  show ?thesis
    by (rule that [OF s r]) simp_all
qed

lemma SetDesiredChangeSensitivity_ready:
  assumes ready: "cm_ready cm" and p: "pClientFile \<noteq> nullptr"
    and f: "find_client pClientFile (m_pClientList cm) = Some entry"
    and l: "sensitivity_loop (m_spMinSensitivityValues cm) vs (pDesiredSensitivityValues entry, [], False)
              = (desired, results, fError)"
  obtains cm' where
    "SetDesiredChangeSensitivity pClientFile vs cm = (if fError then S_FALSE else S_OK, results, cm')"
    "cm_ready cm'"
    "m_pClientList cm' = assign pClientFile (entry \<lparr> pDesiredSensitivityValues := desired \<rparr>) (m_pClientList cm)"
    "m_minSupportedReportInterval cm' = m_minSupportedReportInterval cm"
    "m_spDefaultSensitivityValues cm' = m_spDefaultSensitivityValues cm"
proof -
  have inv: "cm_inv cm"
    using ready by (simp add: cm_ready_def)
  have mins_ok: "list_all (\<lambda>kv. null_or_r8 (snd kv)) (m_spMinSensitivityValues cm)"
    using inv unfolding cm_inv_def by blast
  let ?mid = "cm \<lparr> m_pClientList := assign pClientFile (entry \<lparr> pDesiredSensitivityValues := desired \<rparr>) (m_pClientList cm) \<rparr>"
  have mid: "cm_inv ?mid"
    using cm_inv_list [OF inv] sensitivity_loop_ok [OF mins_ok cm_inv_entry [OF inv f], of vs "[]" False] l
    by (intro cm_inv_cong [OF inv]) (auto intro!: list_all_assign)
  obtain mins' ri ex where
    e: "RecalculateProperties ?mid =
       (S_OK, ?mid \<lparr> m_spMinSensitivityValues := mins', m_minReportInterval := ri,
                    m_minReportIntervalExplicitlySet := ex \<rparr>)"
    and r: "cm_ready (?mid \<lparr> m_spMinSensitivityValues := mins', m_minReportInterval := ri,
                      m_minReportIntervalExplicitlySet := ex \<rparr>)"
    using Recalculate_ready [OF mid] by blast
  have s: "SetDesiredChangeSensitivity pClientFile vs cm =
       (if fError then S_FALSE else S_OK, results,
        ?mid \<lparr> m_spMinSensitivityValues := mins', m_minReportInterval := ri,
               m_minReportIntervalExplicitlySet := ex \<rparr>)"
    using p f by (simp add: SetDesiredChangeSensitivity_def l e)
  show ?thesis
    by (rule that [OF s r]) simp_all
qed

lemma validate_sensitivity_ready:
  assumes "cm_ready cm"
  shows "validate_sensitivity (m_spMinSensitivityValues cm) key var =
           (if valid_sensitivity cm key var then S_OK else sensitivity_error cm key)"
proof (cases "map_of (m_spMinSensitivityValues cm) key")
  case None
  then have "key \<notin> fst ` set (m_spMinSensitivityValues cm)"
    by (simp add: map_of_eq_None_iff)
  moreover have "map fst (m_spDefaultSensitivityValues cm) = map fst (m_spMinSensitivityValues cm)"
    using assms by (simp add: cm_ready_def cm_inv_def)
  ultimately have "key \<notin> set (map fst (m_spDefaultSensitivityValues cm))"
    by simp
  moreover have "\<not> SUCCEEDED (HRESULT_FROM_WIN32 ERROR_NOT_FOUND)"
    by (simp add: SUCCEEDED_def HRESULT_FROM_WIN32_def ERROR_NOT_FOUND_def)
  ultimately show ?thesis
    using None by (simp add: validate_sensitivity_def GetValue_def valid_sensitivity_def sensitivity_error_def)
next
  case (Some varTemp)
  then have in_set: "(key, varTemp) \<in> set (m_spMinSensitivityValues cm)"
    by (rule map_of_SomeD)
  then have "is_r8 varTemp"
    using assms by (auto simp: cm_ready_def list_all_iff)
  then obtain y where y: "varTemp = VT_R8 y"
    by (cases varTemp) simp_all
  have "key \<in> fst ` set (m_spMinSensitivityValues cm)"
    using in_set by force
  moreover have "map fst (m_spDefaultSensitivityValues cm) = map fst (m_spMinSensitivityValues cm)"
    using assms by (simp add: cm_ready_def cm_inv_def)
  ultimately have k: "key \<in> set (map fst (m_spDefaultSensitivityValues cm))"
    by simp
  show ?thesis
    using Some k
    by (cases var)
       (simp_all add: validate_sensitivity_def GetValue_def valid_sensitivity_def sensitivity_error_def y)
qed

lemma FAILED_sensitivity_error: "FAILED (sensitivity_error cm key)"
  by (simp add: sensitivity_error_def FAILED_def E_INVALIDARG_def HRESULT_FROM_WIN32_def ERROR_NOT_FOUND_def)

lemma item_other:
  assumes "\<not> IsTestProperty key" and "key \<noteq> SENSOR_PROPERTY_CURRENT_REPORT_INTERVAL"
    and "key \<noteq> SENSOR_PROPERTY_CHANGE_SENSITIVITY" and "appId \<noteq> nullptr"
  shows "SetProperties_item other appId (key, var) dev = (HRESULT_FROM_WIN32 ERROR_NOT_FOUND, VT_EMPTY, dev)"
  using assms by (simp add: SetProperties_item_def SetDesiredProperty_def)

lemma item_interval_invalid:
  assumes "appId \<noteq> nullptr" and "\<not> valid_report_interval (m_pClientManager dev) var"
  shows "SetProperties_item other appId (SENSOR_PROPERTY_CURRENT_REPORT_INTERVAL, var) dev
           = (E_INVALIDARG, VT_EMPTY, dev)"
proof -
  have f: "\<not> SUCCEEDED E_INVALIDARG"
    by (simp add: SUCCEEDED_def E_INVALIDARG_def HRESULT_FROM_WIN32_def)
  show ?thesis
    using assms f
    by (cases var)
       (auto simp: SetProperties_item_def SetDesiredProperty_def IsTestProperty_def
          valid_report_interval_def SetDesiredReportInterval_def not_le)
qed

lemma item_interval_valid:
  assumes ready: "cm_ready (m_pClientManager dev)" and p: "appId \<noteq> nullptr"
    and f: "find_client appId (m_pClientList (m_pClientManager dev)) = Some entry"
    and v: "valid_report_interval (m_pClientManager dev) var"
  obtains cm' where
    "SetProperties_item other appId (SENSOR_PROPERTY_CURRENT_REPORT_INTERVAL, var) dev
       = (S_OK, var, dev \<lparr> m_pClientManager := cm' \<rparr>)"
    "cm_ready cm'"
    "m_pClientList cm' =
       assign appId (entry \<lparr> desiredReportInterval := ulVal var \<rparr>) (m_pClientList (m_pClientManager dev))"
    "m_minSupportedReportInterval cm' = m_minSupportedReportInterval (m_pClientManager dev)"
    "m_spDefaultSensitivityValues cm' = m_spDefaultSensitivityValues (m_pClientManager dev)"
proof -
  obtain w where w: "var = VT_UI4 w" and wv: "w = 0 \<or> m_minSupportedReportInterval (m_pClientManager dev) \<le> w"
    using v by (cases var) (simp_all add: valid_report_interval_def)
  obtain cm' where s: "SetDesiredReportInterval appId w (m_pClientManager dev) = (S_OK, cm')"
    and r: "cm_ready cm'"
    and c: "m_pClientList cm' =
       assign appId (entry \<lparr> desiredReportInterval := w \<rparr>) (m_pClientList (m_pClientManager dev))"
    and m: "m_minSupportedReportInterval cm' = m_minSupportedReportInterval (m_pClientManager dev)"
    and d: "m_spDefaultSensitivityValues cm' = m_spDefaultSensitivityValues (m_pClientManager dev)"
    using SetDesiredReportInterval_ready [OF ready p f wv] by blast
  have i: "SetProperties_item other appId (SENSOR_PROPERTY_CURRENT_REPORT_INTERVAL, var) dev
       = (S_OK, var, dev \<lparr> m_pClientManager := cm' \<rparr>)"
    using p by (simp add: SetProperties_item_def SetDesiredProperty_def IsTestProperty_def w s)
  show ?thesis
    by (rule that [OF i r _ m d]) (simp add: c w ulVal_def)
qed

lemma item_sensitivity_invalid:
  assumes "appId \<noteq> nullptr" and "vt var \<noteq> vt (VT_UNKNOWN [])"
  shows "SetProperties_item other appId (SENSOR_PROPERTY_CHANGE_SENSITIVITY, var) dev
           = (E_INVALIDARG, VT_EMPTY, dev)"
  using assms
  by (cases var) (simp_all add: SetProperties_item_def SetDesiredProperty_def IsTestProperty_def)

lemma item_sensitivity:
  assumes ready: "cm_ready (m_pClientManager dev)" and p: "appId \<noteq> nullptr"
    and f: "find_client appId (m_pClientList (m_pClientManager dev)) = Some entry"
    and l: "sensitivity_loop (m_spMinSensitivityValues (m_pClientManager dev)) vs
              (pDesiredSensitivityValues entry, [], False) = (desired, results, fError)"
  obtains cm' where
    "SetProperties_item other appId (SENSOR_PROPERTY_CHANGE_SENSITIVITY, VT_UNKNOWN vs) dev
       = (if fError then S_FALSE else S_OK, VT_UNKNOWN results, dev \<lparr> m_pClientManager := cm' \<rparr>)"
    "cm_ready cm'"
    "m_pClientList cm' =
       assign appId (entry \<lparr> pDesiredSensitivityValues := desired \<rparr>) (m_pClientList (m_pClientManager dev))"
    "m_minSupportedReportInterval cm' = m_minSupportedReportInterval (m_pClientManager dev)"
    "m_spDefaultSensitivityValues cm' = m_spDefaultSensitivityValues (m_pClientManager dev)"
proof -
  obtain cm' where s: "SetDesiredChangeSensitivity appId vs (m_pClientManager dev)
                         = (if fError then S_FALSE else S_OK, results, cm')"
    and r: "cm_ready cm'"
    and c: "m_pClientList cm' =
       assign appId (entry \<lparr> pDesiredSensitivityValues := desired \<rparr>) (m_pClientList (m_pClientManager dev))"
    and m: "m_minSupportedReportInterval cm' = m_minSupportedReportInterval (m_pClientManager dev)"
    and d: "m_spDefaultSensitivityValues cm' = m_spDefaultSensitivityValues (m_pClientManager dev)"
    using SetDesiredChangeSensitivity_ready [OF ready p f l] by blast
  have ok: "SUCCEEDED (if fError then S_FALSE else S_OK)"
    by (simp add: SUCCEEDED_def S_FALSE_def S_OK_def)
  have i: "SetProperties_item other appId (SENSOR_PROPERTY_CHANGE_SENSITIVITY, VT_UNKNOWN vs) dev
       = (if fError then S_FALSE else S_OK, VT_UNKNOWN results, dev \<lparr> m_pClientManager := cm' \<rparr>)"
    using p ok by (simp add: SetProperties_item_def SetDesiredProperty_def IsTestProperty_def s)
  show ?thesis
    by (rule that [OF i r c m d])
qed

lemma item_test:
  assumes "IsTestProperty key"
  shows "fst (snd (SetProperties_item other appId (key, var) dev)) = VT_EMPTY \<and>
         m_pClientManager (snd (snd (SetProperties_item other appId (key, var) dev))) = m_pClientManager dev \<and>
         m_fInitialized (snd (snd (SetProperties_item other appId (key, var) dev))) = m_fInitialized dev \<and>
         (key \<noteq> SENSOR_PROPERTY_TEST_REGISTER \<longrightarrow>
            m_TestRegister (snd (snd (SetProperties_item other appId (key, var) dev))) = m_TestRegister dev) \<and>
         (key \<noteq> SENSOR_PROPERTY_TEST_DATA_SIZE \<longrightarrow>
            m_TestDataSize (snd (snd (SetProperties_item other appId (key, var) dev))) = m_TestDataSize dev)"
proof -
  have w: "kept_by_hardware (snd (WriteRegister reg v dev)) = kept_by_hardware dev" for reg v
    by simp
  show ?thesis
    using assms w
    by (auto simp: SetProperties_item_def SetTestProperty_def IsTestProperty_def case_prod_beta
          kept_by_hardware_def)
qed

lemma item_test_register:
  assumes "m_fInitialized dev"
  shows "SetProperties_item other appId (SENSOR_PROPERTY_TEST_REGISTER, var) dev
           = (S_OK, VT_EMPTY, dev \<lparr> m_TestRegister := read_ulVal other var \<rparr>)"
    and "SetProperties_item other appId (SENSOR_PROPERTY_TEST_DATA_SIZE, var) dev
           = (S_OK, VT_EMPTY, dev \<lparr> m_TestDataSize := read_ulVal other var \<rparr>)"
  using assms by (simp_all add: SetProperties_item_def SetTestProperty_def IsTestProperty_def)

lemma item_test_data_null:
  assumes "m_fInitialized dev" and "read_pElems other var = None"
  shows "SetProperties_item other appId (SENSOR_PROPERTY_TEST_DATA, var) dev = (E_INVALIDARG, VT_EMPTY, dev)"
  using assms
  by (simp add: SetProperties_item_def SetTestProperty_def IsTestProperty_def WriteRegister_def)

lemma item_not_initialized:
  assumes "\<not> m_fInitialized dev" and "IsTestProperty key"
  shows "SetProperties_item other appId (key, var) dev = (E_UNEXPECTED, VT_EMPTY, dev)"
  using assms by (simp add: SetProperties_item_def SetTestProperty_def)

lemma item_keeps:
  assumes p: "appId \<noteq> nullptr" and ready: "cm_ready (m_pClientManager dev)"
    and f: "find_client appId (m_pClientList (m_pClientManager dev)) = Some entry"
    and i: "SetProperties_item other appId (key, var) dev = (hrTemp, varResult, dev1)"
  shows "cm_ready (m_pClientManager dev1) \<and>
         (\<exists>entry1. find_client appId (m_pClientList (m_pClientManager dev1)) = Some entry1) \<and>
         m_minSupportedReportInterval (m_pClientManager dev1) = m_minSupportedReportInterval (m_pClientManager dev) \<and>
         m_spDefaultSensitivityValues (m_pClientManager dev1) = m_spDefaultSensitivityValues (m_pClientManager dev) \<and>
         m_fInitialized dev1 = m_fInitialized dev \<and>
         (key \<noteq> SENSOR_PROPERTY_CURRENT_REPORT_INTERVAL \<longrightarrow>
            desired_interval appId (m_pClientManager dev1) = desired_interval appId (m_pClientManager dev)) \<and>
         (key \<noteq> SENSOR_PROPERTY_CHANGE_SENSITIVITY \<longrightarrow>
            desired_values appId (m_pClientManager dev1) = desired_values appId (m_pClientManager dev)) \<and>
         (key \<noteq> SENSOR_PROPERTY_TEST_REGISTER \<longrightarrow> m_TestRegister dev1 = m_TestRegister dev) \<and>
         (key \<noteq> SENSOR_PROPERTY_TEST_DATA_SIZE \<longrightarrow> m_TestDataSize dev1 = m_TestDataSize dev)"
proof -
  have same: ?thesis if "dev1 = dev"
    using ready f by (simp add: that)
  consider (test) "IsTestProperty key"
    | (interval) "key = SENSOR_PROPERTY_CURRENT_REPORT_INTERVAL"
    | (sensitivity) "key = SENSOR_PROPERTY_CHANGE_SENSITIVITY"
    | (other) "\<not> IsTestProperty key" "key \<noteq> SENSOR_PROPERTY_CURRENT_REPORT_INTERVAL"
        "key \<noteq> SENSOR_PROPERTY_CHANGE_SENSITIVITY"
    by blast
  then show ?thesis
  proof cases
    case test
    have "m_pClientManager dev1 = m_pClientManager dev" "m_fInitialized dev1 = m_fInitialized dev"
      "key \<noteq> SENSOR_PROPERTY_TEST_REGISTER \<longrightarrow> m_TestRegister dev1 = m_TestRegister dev"
      "key \<noteq> SENSOR_PROPERTY_TEST_DATA_SIZE \<longrightarrow> m_TestDataSize dev1 = m_TestDataSize dev"
      using item_test [OF test, of other appId var dev] by (simp_all add: i)
    then show ?thesis
      using ready f by simp
  next
    case interval
    show ?thesis
    proof (cases "valid_report_interval (m_pClientManager dev) var")
      case True
      obtain cm' where e: "SetProperties_item other appId (SENSOR_PROPERTY_CURRENT_REPORT_INTERVAL, var) dev
           = (S_OK, var, dev \<lparr> m_pClientManager := cm' \<rparr>)"
        and r: "cm_ready cm'"
        and c: "m_pClientList cm' =
           assign appId (entry \<lparr> desiredReportInterval := ulVal var \<rparr>) (m_pClientList (m_pClientManager dev))"
        and m: "m_minSupportedReportInterval cm' = m_minSupportedReportInterval (m_pClientManager dev)"
        and d: "m_spDefaultSensitivityValues cm' = m_spDefaultSensitivityValues (m_pClientManager dev)"
        using item_interval_valid [OF ready p f True] by blast
      have d1: "dev1 = dev \<lparr> m_pClientManager := cm' \<rparr>"
        using i e by (simp add: interval)
      show ?thesis
        using r m d f
        by (simp add: d1 c find_client_def map_of_assign desired_values_def interval)
    next
      case False
      have "dev1 = dev"
        using item_interval_invalid [OF p False, of other] i by (simp add: interval)
      then show ?thesis by (rule same)
    qed
  next
    case sensitivity
    show ?thesis
    proof (cases "vt var = vt (VT_UNKNOWN [])")
      case True
      then obtain vs where vs: "var = VT_UNKNOWN vs"
        by (cases var) simp_all
      obtain desired results fError where
        l: "sensitivity_loop (m_spMinSensitivityValues (m_pClientManager dev)) vs
              (pDesiredSensitivityValues entry, [], False) = (desired, results, fError)"
        by (cases "sensitivity_loop (m_spMinSensitivityValues (m_pClientManager dev)) vs
              (pDesiredSensitivityValues entry, [], False)") auto
      obtain cm' where e: "SetProperties_item other appId (SENSOR_PROPERTY_CHANGE_SENSITIVITY, VT_UNKNOWN vs) dev
           = (if fError then S_FALSE else S_OK, VT_UNKNOWN results, dev \<lparr> m_pClientManager := cm' \<rparr>)"
        and r: "cm_ready cm'"
        and c: "m_pClientList cm' =
           assign appId (entry \<lparr> pDesiredSensitivityValues := desired \<rparr>) (m_pClientList (m_pClientManager dev))"
        and m: "m_minSupportedReportInterval cm' = m_minSupportedReportInterval (m_pClientManager dev)"
        and d: "m_spDefaultSensitivityValues cm' = m_spDefaultSensitivityValues (m_pClientManager dev)"
        using item_sensitivity [OF ready p f l] by blast
      have d1: "dev1 = dev \<lparr> m_pClientManager := cm' \<rparr>"
        using i e by (simp add: sensitivity vs)
      show ?thesis
        using r m d f
        by (simp add: d1 c find_client_def map_of_assign desired_interval_def sensitivity)
    next
      case False
      have "dev1 = dev"
        using item_sensitivity_invalid [OF p False, of other] i by (simp add: sensitivity)
      then show ?thesis by (rule same)
    qed
  next
    case other
    have "dev1 = dev"
      using item_other [OF other p, of other var dev] i by simp
    then show ?thesis by (rule same)
  qed
qed

lemma loop_step:
  assumes "SetProperties_item other appId kv dev = (hrTemp, varResult, dev1)"
  shows "SetProperties_loop other appId (kv # items) (results, fError, dev) =
           SetProperties_loop other appId items
             (SetValue (fst kv) (if SUCCEEDED hrTemp then varResult else VT_ERROR hrTemp) results,
              fError \<or> hrTemp \<noteq> S_OK, dev1)"
proof (cases "SUCCEEDED hrTemp")
  case True
  then show ?thesis
    by (simp add: assms)
next
  case False
  then have "hrTemp \<noteq> S_OK"
    by auto
  then show ?thesis
    using False by (simp add: assms SetErrorValue_def)
qed

lemma loop_append:
  "SetProperties_loop other appId (xs @ ys) s =
     SetProperties_loop other appId ys (SetProperties_loop other appId xs s)"
proof (induction xs arbitrary: s)
  case Nil
  then show ?case by simp
next
  case (Cons kv xs)
  obtain results fError dev where s: "s = (results, fError, dev)"
    by (cases s) auto
  obtain hrTemp varResult dev1 where i: "SetProperties_item other appId kv dev = (hrTemp, varResult, dev1)"
    by (cases "SetProperties_item other appId kv dev") auto
  show ?case
    unfolding s append_Cons loop_step [OF i] by (rule Cons.IH)
qed

lemma loop_keeps:
  assumes p: "appId \<noteq> nullptr" and ready: "cm_ready (m_pClientManager dev)"
    and f: "find_client appId (m_pClientList (m_pClientManager dev)) = Some entry"
    and l: "SetProperties_loop other appId items (results, fError, dev) = (results', fError', dev')"
  shows "cm_ready (m_pClientManager dev') \<and>
         (\<exists>entry'. find_client appId (m_pClientList (m_pClientManager dev')) = Some entry') \<and>
         m_minSupportedReportInterval (m_pClientManager dev') = m_minSupportedReportInterval (m_pClientManager dev) \<and>
         m_spDefaultSensitivityValues (m_pClientManager dev') = m_spDefaultSensitivityValues (m_pClientManager dev) \<and>
         m_fInitialized dev' = m_fInitialized dev \<and>
         (fError \<longrightarrow> fError') \<and>
         (SENSOR_PROPERTY_CURRENT_REPORT_INTERVAL \<notin> fst ` set items \<longrightarrow>
            desired_interval appId (m_pClientManager dev') = desired_interval appId (m_pClientManager dev)) \<and>
         (SENSOR_PROPERTY_CHANGE_SENSITIVITY \<notin> fst ` set items \<longrightarrow>
            desired_values appId (m_pClientManager dev') = desired_values appId (m_pClientManager dev)) \<and>
         (SENSOR_PROPERTY_TEST_REGISTER \<notin> fst ` set items \<longrightarrow> m_TestRegister dev' = m_TestRegister dev) \<and>
         (SENSOR_PROPERTY_TEST_DATA_SIZE \<notin> fst ` set items \<longrightarrow> m_TestDataSize dev' = m_TestDataSize dev) \<and>
         (\<forall>k. k \<notin> fst ` set items \<longrightarrow> map_of results' k = map_of results k)"
  using ready f l
proof (induction items arbitrary: results fError dev entry)
  case Nil
  then show ?case by simp
next
  case (Cons kv items)
  obtain hrTemp varResult dev1 where i: "SetProperties_item other appId kv dev = (hrTemp, varResult, dev1)"
    by (cases "SetProperties_item other appId kv dev") auto
  have i': "SetProperties_item other appId (fst kv, snd kv) dev = (hrTemp, varResult, dev1)"
    using i by simp
  note k = item_keeps [OF p Cons.prems(1) Cons.prems(2) i']
  obtain entry1 where f1: "find_client appId (m_pClientList (m_pClientManager dev1)) = Some entry1"
    using k by blast
  have l1: "SetProperties_loop other appId items
             (SetValue (fst kv) (if SUCCEEDED hrTemp then varResult else VT_ERROR hrTemp) results,
              fError \<or> hrTemp \<noteq> S_OK, dev1) = (results', fError', dev')"
    using Cons.prems(3) by (simp only: loop_step [OF i])
  have r1: "cm_ready (m_pClientManager dev1)"
    using k by blast
  note ih = Cons.IH [OF r1 f1 l1]
  have m: "map_of results' key = map_of results key" if "key \<notin> fst ` set (kv # items)" for key
  proof -
    have "map_of results' key =
            map_of (SetValue (fst kv) (if SUCCEEDED hrTemp then varResult else VT_ERROR hrTemp) results) key"
      using ih that by simp
    then show ?thesis
      using that by (simp add: map_of_SetValue)
  qed
  have k5: "m_minSupportedReportInterval (m_pClientManager dev1) = m_minSupportedReportInterval (m_pClientManager dev)"
    "m_spDefaultSensitivityValues (m_pClientManager dev1) = m_spDefaultSensitivityValues (m_pClientManager dev)"
    "m_fInitialized dev1 = m_fInitialized dev"
    using k by blast+
  have c1: "cm_ready (m_pClientManager dev')"
    and c2: "\<exists>entry'. find_client appId (m_pClientList (m_pClientManager dev')) = Some entry'"
    using ih by blast+
  have c3: "m_minSupportedReportInterval (m_pClientManager dev') = m_minSupportedReportInterval (m_pClientManager dev)"
    and c4: "m_spDefaultSensitivityValues (m_pClientManager dev') = m_spDefaultSensitivityValues (m_pClientManager dev)"
    and c5: "m_fInitialized dev' = m_fInitialized dev"
    using ih k5 by simp_all
  have c6: "fError \<longrightarrow> fError'"
    using ih by blast
  have c7: "SENSOR_PROPERTY_CURRENT_REPORT_INTERVAL \<notin> fst ` set (kv # items) \<longrightarrow>
            desired_interval appId (m_pClientManager dev') = desired_interval appId (m_pClientManager dev)"
  proof
    assume "SENSOR_PROPERTY_CURRENT_REPORT_INTERVAL \<notin> fst ` set (kv # items)"
    then have "fst kv \<noteq> SENSOR_PROPERTY_CURRENT_REPORT_INTERVAL"
      "SENSOR_PROPERTY_CURRENT_REPORT_INTERVAL \<notin> fst ` set items"
      by auto
    then have "desired_interval appId (m_pClientManager dev1) = desired_interval appId (m_pClientManager dev)"
      "desired_interval appId (m_pClientManager dev') = desired_interval appId (m_pClientManager dev1)"
      using k ih by blast+
    then show "desired_interval appId (m_pClientManager dev') = desired_interval appId (m_pClientManager dev)"
      by simp
  qed
  have c8: "SENSOR_PROPERTY_CHANGE_SENSITIVITY \<notin> fst ` set (kv # items) \<longrightarrow>
            desired_values appId (m_pClientManager dev') = desired_values appId (m_pClientManager dev)"
  proof
    assume "SENSOR_PROPERTY_CHANGE_SENSITIVITY \<notin> fst ` set (kv # items)"
    then have "fst kv \<noteq> SENSOR_PROPERTY_CHANGE_SENSITIVITY"
      "SENSOR_PROPERTY_CHANGE_SENSITIVITY \<notin> fst ` set items"
      by auto
    then have "desired_values appId (m_pClientManager dev1) = desired_values appId (m_pClientManager dev)"
      "desired_values appId (m_pClientManager dev') = desired_values appId (m_pClientManager dev1)"
      using k ih by blast+
    then show "desired_values appId (m_pClientManager dev') = desired_values appId (m_pClientManager dev)"
      by simp
  qed
  have c9: "SENSOR_PROPERTY_TEST_REGISTER \<notin> fst ` set (kv # items) \<longrightarrow> m_TestRegister dev' = m_TestRegister dev"
  proof
    assume "SENSOR_PROPERTY_TEST_REGISTER \<notin> fst ` set (kv # items)"
    then have "fst kv \<noteq> SENSOR_PROPERTY_TEST_REGISTER"
      "SENSOR_PROPERTY_TEST_REGISTER \<notin> fst ` set items"
      by auto
    then have "m_TestRegister dev1 = m_TestRegister dev" "m_TestRegister dev' = m_TestRegister dev1"
      using k ih by blast+
    then show "m_TestRegister dev' = m_TestRegister dev"
      by simp
  qed
  have c10: "SENSOR_PROPERTY_TEST_DATA_SIZE \<notin> fst ` set (kv # items) \<longrightarrow> m_TestDataSize dev' = m_TestDataSize dev"
  proof
    assume "SENSOR_PROPERTY_TEST_DATA_SIZE \<notin> fst ` set (kv # items)"
    then have "fst kv \<noteq> SENSOR_PROPERTY_TEST_DATA_SIZE"
      "SENSOR_PROPERTY_TEST_DATA_SIZE \<notin> fst ` set items"
      by auto
    then have "m_TestDataSize dev1 = m_TestDataSize dev" "m_TestDataSize dev' = m_TestDataSize dev1"
      using k ih by blast+
    then show "m_TestDataSize dev' = m_TestDataSize dev"
      by simp
  qed
  have c11: "\<forall>key. key \<notin> fst ` set (kv # items) \<longrightarrow> map_of results' key = map_of results key"
    using m by blast
  show ?case
    using c1 c2 c3 c4 c5 c6 c7 c8 c9 c10 c11 by blast
qed

lemma SetProperties_at:
  assumes p: "appId \<noteq> nullptr" and ready: "cm_ready (m_pClientManager dev)"
    and f: "find_client appId (m_pClientList (m_pClientManager dev)) = Some entry"
    and d: "distinct (map fst pProperties)"
    and i: "(key, var) \<in> set pProperties"
  obtains d1 entry1 hrTemp varResult d2 where
    "cm_ready (m_pClientManager d1)"
    "find_client appId (m_pClientList (m_pClientManager d1)) = Some entry1"
    "m_minSupportedReportInterval (m_pClientManager d1) = m_minSupportedReportInterval (m_pClientManager dev)"
    "m_spDefaultSensitivityValues (m_pClientManager d1) = m_spDefaultSensitivityValues (m_pClientManager dev)"
    "m_fInitialized d1 = m_fInitialized dev"
    "desired_interval appId (m_pClientManager d1) = desired_interval appId (m_pClientManager dev)
       \<or> key \<noteq> SENSOR_PROPERTY_CURRENT_REPORT_INTERVAL"
    "desired_values appId (m_pClientManager d1) = desired_values appId (m_pClientManager dev)
       \<or> key \<noteq> SENSOR_PROPERTY_CHANGE_SENSITIVITY"
    "SetProperties_item other appId (key, var) d1 = (hrTemp, varResult, d2)"
    "GetValue key (fst (snd (SetProperties other appId pProperties dev)))
       = (S_OK, if SUCCEEDED hrTemp then varResult else VT_ERROR hrTemp)"
    "desired_interval appId (m_pClientManager (snd (snd (SetProperties other appId pProperties dev))))
       = desired_interval appId (m_pClientManager d2) \<or> key \<noteq> SENSOR_PROPERTY_CURRENT_REPORT_INTERVAL"
    "desired_values appId (m_pClientManager (snd (snd (SetProperties other appId pProperties dev))))
       = desired_values appId (m_pClientManager d2) \<or> key \<noteq> SENSOR_PROPERTY_CHANGE_SENSITIVITY"
    "m_TestRegister (snd (snd (SetProperties other appId pProperties dev))) = m_TestRegister d2
       \<or> key \<noteq> SENSOR_PROPERTY_TEST_REGISTER"
    "m_TestDataSize (snd (snd (SetProperties other appId pProperties dev))) = m_TestDataSize d2
       \<or> key \<noteq> SENSOR_PROPERTY_TEST_DATA_SIZE"
    "hrTemp = S_OK \<or> \<not> SUCCEEDED (fst (SetProperties other appId pProperties dev))
       \<or> fst (SetProperties other appId pProperties dev) = S_FALSE"
proof -
  obtain pre post where sp: "pProperties = pre @ (key, var) # post"
    using split_list [OF i] by blast
  have npre: "key \<notin> fst ` set pre" and npost: "key \<notin> fst ` set post"
    using d by (auto simp: sp)
  obtain r1 f1 d1 where l1: "SetProperties_loop other appId pre ([], False, dev) = (r1, f1, d1)"
    by (cases "SetProperties_loop other appId pre ([], False, dev)") auto
  note k1 = loop_keeps [OF p ready f l1]
  have ready1: "cm_ready (m_pClientManager d1)"
    using k1 by blast
  obtain entry1 where e1: "find_client appId (m_pClientList (m_pClientManager d1)) = Some entry1"
    using k1 by blast
  obtain hrTemp varResult d2 where it: "SetProperties_item other appId (key, var) d1 = (hrTemp, varResult, d2)"
    by (cases "SetProperties_item other appId (key, var) d1") auto
  note k2 = item_keeps [OF p ready1 e1 it]
  have ready2: "cm_ready (m_pClientManager d2)"
    using k2 by blast
  obtain entry2 where e2: "find_client appId (m_pClientList (m_pClientManager d2)) = Some entry2"
    using k2 by blast
  define r2 where "r2 = SetValue key (if SUCCEEDED hrTemp then varResult else VT_ERROR hrTemp) r1"
  obtain r3 f3 d3 where l3: "SetProperties_loop other appId post (r2, f1 \<or> hrTemp \<noteq> S_OK, d2) = (r3, f3, d3)"
    by (cases "SetProperties_loop other appId post (r2, f1 \<or> hrTemp \<noteq> S_OK, d2)") auto
  note k3 = loop_keeps [OF p ready2 e2 l3]
  have whole: "SetProperties_loop other appId pProperties ([], False, dev) = (r3, f3, d3)"
    unfolding sp loop_append l1 loop_step [OF it] fst_conv using l3 by (simp only: r2_def)
  obtain hr d4 where a: "ApplyUpdatedProperties d3 = (hr, d4)"
    by (cases "ApplyUpdatedProperties d3") auto
  have "kept_by_hardware d4 = kept_by_hardware d3"
    using ApplyUpdatedProperties_kept [of d3] by (simp add: a)
  then have k4: "m_pClientManager d4 = m_pClientManager d3" "m_TestRegister d4 = m_TestRegister d3"
    "m_TestDataSize d4 = m_TestDataSize d3"
    by (simp_all add: kept_by_hardware_def)
  have s: "SetProperties other appId pProperties dev = (if SUCCEEDED hr \<and> f3 then S_FALSE else hr, r3, d4)"
    by (simp add: SetProperties_def whole a)
  have t1: "m_minSupportedReportInterval (m_pClientManager d1) = m_minSupportedReportInterval (m_pClientManager dev)"
    and t2: "m_spDefaultSensitivityValues (m_pClientManager d1) = m_spDefaultSensitivityValues (m_pClientManager dev)"
    and t3: "m_fInitialized d1 = m_fInitialized dev"
    using k1 by blast+
  have t4: "desired_interval appId (m_pClientManager d1) = desired_interval appId (m_pClientManager dev)
       \<or> key \<noteq> SENSOR_PROPERTY_CURRENT_REPORT_INTERVAL"
    and t5: "desired_values appId (m_pClientManager d1) = desired_values appId (m_pClientManager dev)
       \<or> key \<noteq> SENSOR_PROPERTY_CHANGE_SENSITIVITY"
    using k1 npre by blast+
  have "map_of r3 key = map_of r2 key"
    using k3 npost by blast
  then have "map_of r3 key = Some (if SUCCEEDED hrTemp then varResult else VT_ERROR hrTemp)"
    by (simp add: r2_def map_of_SetValue)
  then have t6: "GetValue key (fst (snd (SetProperties other appId pProperties dev)))
       = (S_OK, if SUCCEEDED hrTemp then varResult else VT_ERROR hrTemp)"
    unfolding s by (simp only: fst_conv snd_conv GetValue_map_of)
  have t7: "desired_interval appId (m_pClientManager (snd (snd (SetProperties other appId pProperties dev))))
       = desired_interval appId (m_pClientManager d2) \<or> key \<noteq> SENSOR_PROPERTY_CURRENT_REPORT_INTERVAL"
    and t8: "desired_values appId (m_pClientManager (snd (snd (SetProperties other appId pProperties dev))))
       = desired_values appId (m_pClientManager d2) \<or> key \<noteq> SENSOR_PROPERTY_CHANGE_SENSITIVITY"
    and t9: "m_TestRegister (snd (snd (SetProperties other appId pProperties dev))) = m_TestRegister d2
       \<or> key \<noteq> SENSOR_PROPERTY_TEST_REGISTER"
    and t10: "m_TestDataSize (snd (snd (SetProperties other appId pProperties dev))) = m_TestDataSize d2
       \<or> key \<noteq> SENSOR_PROPERTY_TEST_DATA_SIZE"
    using k3 npost unfolding s snd_conv k4 by blast+
  have "f3" if "hrTemp \<noteq> S_OK"
    using k3 that by blast
  then have t11: "hrTemp = S_OK \<or> \<not> SUCCEEDED (fst (SetProperties other appId pProperties dev))
       \<or> fst (SetProperties other appId pProperties dev) = S_FALSE"
    unfolding s by auto
  show ?thesis
    by (rule that [OF ready1 e1 t1 t2 t3 t4 t5 it t6 t7 t8 t9 t10 t11])
qed

lemma SetProperties_items:
  assumes p: "appId \<noteq> nullptr" and ready: "cm_ready (m_pClientManager dev)"
    and f: "find_client appId (m_pClientList (m_pClientManager dev)) = Some entry"
    and d: "distinct (map fst pProperties)"
    and i: "(key, var) \<in> set pProperties"
  shows "(key = SENSOR_PROPERTY_CURRENT_REPORT_INTERVAL \<and> valid_report_interval (m_pClientManager dev) var \<longrightarrow>
            GetValue key (fst (snd (SetProperties other appId pProperties dev))) = (S_OK, var) \<and>
            desired_interval appId (m_pClientManager (snd (snd (SetProperties other appId pProperties dev))))
              = ulVal var) \<and>
         (key = SENSOR_PROPERTY_CURRENT_REPORT_INTERVAL \<and> \<not> valid_report_interval (m_pClientManager dev) var \<longrightarrow>
            GetValue key (fst (snd (SetProperties other appId pProperties dev))) = (S_OK, VT_ERROR E_INVALIDARG) \<and>
            desired_interval appId (m_pClientManager (snd (snd (SetProperties other appId pProperties dev))))
              = desired_interval appId (m_pClientManager dev) \<and>
            (SUCCEEDED (fst (SetProperties other appId pProperties dev)) \<longrightarrow>
               fst (SetProperties other appId pProperties dev) = S_FALSE)) \<and>
         (key = SENSOR_PROPERTY_CHANGE_SENSITIVITY \<and> var = VT_UNKNOWN perField \<and>
          distinct (map fst perField) \<and> (field, x) \<in> set perField \<longrightarrow>
            (\<exists>r. GetValue key (fst (snd (SetProperties other appId pProperties dev))) = (S_OK, VT_UNKNOWN r) \<and>
               (valid_sensitivity (m_pClientManager dev) field x \<longrightarrow>
                  GetValue field r = (S_OK, x) \<and>
                  GetValue field
                    (desired_values appId (m_pClientManager (snd (snd (SetProperties other appId pProperties dev)))))
                    = (S_OK, x)) \<and>
               (\<not> valid_sensitivity (m_pClientManager dev) field x \<longrightarrow>
                  GetValue field r = (S_OK, VT_ERROR (sensitivity_error (m_pClientManager dev) field)) \<and>
                  GetValue field
                    (desired_values appId (m_pClientManager (snd (snd (SetProperties other appId pProperties dev)))))
                    = GetValue field (desired_values appId (m_pClientManager dev)) \<and>
                  (SUCCEEDED (fst (SetProperties other appId pProperties dev)) \<longrightarrow>
                     fst (SetProperties other appId pProperties dev) = S_FALSE)))) \<and>
         (key = SENSOR_PROPERTY_CHANGE_SENSITIVITY \<and> vt var \<noteq> vt (VT_UNKNOWN []) \<longrightarrow>
            GetValue key (fst (snd (SetProperties other appId pProperties dev))) = (S_OK, VT_ERROR E_INVALIDARG) \<and>
            desired_values appId (m_pClientManager (snd (snd (SetProperties other appId pProperties dev))))
              = desired_values appId (m_pClientManager dev) \<and>
            (SUCCEEDED (fst (SetProperties other appId pProperties dev)) \<longrightarrow>
               fst (SetProperties other appId pProperties dev) = S_FALSE)) \<and>
         (\<not> IsTestProperty key \<and> key \<noteq> SENSOR_PROPERTY_CURRENT_REPORT_INTERVAL \<and>
          key \<noteq> SENSOR_PROPERTY_CHANGE_SENSITIVITY \<longrightarrow>
            GetValue key (fst (snd (SetProperties other appId pProperties dev)))
              = (S_OK, VT_ERROR (HRESULT_FROM_WIN32 ERROR_NOT_FOUND)) \<and>
            (SUCCEEDED (fst (SetProperties other appId pProperties dev)) \<longrightarrow>
               fst (SetProperties other appId pProperties dev) = S_FALSE)) \<and>
         (key = SENSOR_PROPERTY_TEST_REGISTER \<and> m_fInitialized dev \<longrightarrow>
            GetValue key (fst (snd (SetProperties other appId pProperties dev))) = (S_OK, VT_EMPTY) \<and>
            m_TestRegister (snd (snd (SetProperties other appId pProperties dev))) = read_ulVal other var) \<and>
         (key = SENSOR_PROPERTY_TEST_DATA_SIZE \<and> m_fInitialized dev \<longrightarrow>
            GetValue key (fst (snd (SetProperties other appId pProperties dev))) = (S_OK, VT_EMPTY) \<and>
            m_TestDataSize (snd (snd (SetProperties other appId pProperties dev))) = read_ulVal other var) \<and>
         (key = SENSOR_PROPERTY_TEST_DATA \<and> m_fInitialized dev \<and> read_pElems other var = None \<longrightarrow>
            GetValue key (fst (snd (SetProperties other appId pProperties dev))) = (S_OK, VT_ERROR E_INVALIDARG) \<and>
            (SUCCEEDED (fst (SetProperties other appId pProperties dev)) \<longrightarrow>
               fst (SetProperties other appId pProperties dev) = S_FALSE))"
proof -
  let ?R = "SetProperties other appId pProperties dev"
  let ?cm = "m_pClientManager dev"
  obtain d1 entry1 hrTemp varResult d2 where
    a1: "cm_ready (m_pClientManager d1)"
    and a2: "find_client appId (m_pClientList (m_pClientManager d1)) = Some entry1"
    and a3: "m_minSupportedReportInterval (m_pClientManager d1) = m_minSupportedReportInterval ?cm"
    and a4: "m_spDefaultSensitivityValues (m_pClientManager d1) = m_spDefaultSensitivityValues ?cm"
    and a5: "m_fInitialized d1 = m_fInitialized dev"
    and a6: "desired_interval appId (m_pClientManager d1) = desired_interval appId ?cm
               \<or> key \<noteq> SENSOR_PROPERTY_CURRENT_REPORT_INTERVAL"
    and a7: "desired_values appId (m_pClientManager d1) = desired_values appId ?cm
               \<or> key \<noteq> SENSOR_PROPERTY_CHANGE_SENSITIVITY"
    and a8: "SetProperties_item other appId (key, var) d1 = (hrTemp, varResult, d2)"
    and a9: "GetValue key (fst (snd ?R)) = (S_OK, if SUCCEEDED hrTemp then varResult else VT_ERROR hrTemp)"
    and a10: "desired_interval appId (m_pClientManager (snd (snd ?R))) = desired_interval appId (m_pClientManager d2)
               \<or> key \<noteq> SENSOR_PROPERTY_CURRENT_REPORT_INTERVAL"
    and a11: "desired_values appId (m_pClientManager (snd (snd ?R))) = desired_values appId (m_pClientManager d2)
               \<or> key \<noteq> SENSOR_PROPERTY_CHANGE_SENSITIVITY"
    and a12: "m_TestRegister (snd (snd ?R)) = m_TestRegister d2 \<or> key \<noteq> SENSOR_PROPERTY_TEST_REGISTER"
    and a13: "m_TestDataSize (snd (snd ?R)) = m_TestDataSize d2 \<or> key \<noteq> SENSOR_PROPERTY_TEST_DATA_SIZE"
    and a14: "hrTemp = S_OK \<or> \<not> SUCCEEDED (fst ?R) \<or> fst ?R = S_FALSE"
    using SetProperties_at [OF p ready f d i, of other] by blast
  have nf: "\<not> SUCCEEDED E_INVALIDARG" "\<not> SUCCEEDED (HRESULT_FROM_WIN32 ERROR_NOT_FOUND)"
    "E_INVALIDARG \<noteq> S_OK" "HRESULT_FROM_WIN32 ERROR_NOT_FOUND \<noteq> S_OK" "S_FALSE \<noteq> S_OK"
    by (simp_all add: SUCCEEDED_def E_INVALIDARG_def HRESULT_FROM_WIN32_def ERROR_NOT_FOUND_def S_OK_def S_FALSE_def)
  have vr: "valid_report_interval (m_pClientManager d1) v = valid_report_interval ?cm v" for v
    by (cases v) (simp_all add: valid_report_interval_def a3)
  have vs: "valid_sensitivity (m_pClientManager d1) k v = valid_sensitivity ?cm k v"
    and se: "sensitivity_error (m_pClientManager d1) k = sensitivity_error ?cm k" for k v
    by (simp_all add: valid_sensitivity_def sensitivity_error_def a4)
  have cA: "GetValue key (fst (snd ?R)) = (S_OK, var) \<and>
            desired_interval appId (m_pClientManager (snd (snd ?R))) = ulVal var"
    if k: "key = SENSOR_PROPERTY_CURRENT_REPORT_INTERVAL" and v: "valid_report_interval ?cm var"
  proof -
    have v1: "valid_report_interval (m_pClientManager d1) var"
      using v by (simp add: vr)
    obtain cm' where e: "SetProperties_item other appId (SENSOR_PROPERTY_CURRENT_REPORT_INTERVAL, var) d1
           = (S_OK, var, d1 \<lparr> m_pClientManager := cm' \<rparr>)"
      and c: "m_pClientList cm' =
           assign appId (entry1 \<lparr> desiredReportInterval := ulVal var \<rparr>) (m_pClientList (m_pClientManager d1))"
      using item_interval_valid [OF a1 p a2 v1, of other] by blast
    have h: "hrTemp = S_OK" "varResult = var" "d2 = d1 \<lparr> m_pClientManager := cm' \<rparr>"
      using a8 e by (simp_all add: k)
    have "desired_interval appId (m_pClientManager d2) = ulVal var"
      by (simp add: h desired_interval_def c find_client_def map_of_assign)
    then show ?thesis
      using a9 a10 k by (simp add: h)
  qed
  have cB: "GetValue key (fst (snd ?R)) = (S_OK, VT_ERROR E_INVALIDARG) \<and>
            desired_interval appId (m_pClientManager (snd (snd ?R))) = desired_interval appId ?cm \<and>
            (SUCCEEDED (fst ?R) \<longrightarrow> fst ?R = S_FALSE)"
    if k: "key = SENSOR_PROPERTY_CURRENT_REPORT_INTERVAL" and v: "\<not> valid_report_interval ?cm var"
  proof -
    have v1: "\<not> valid_report_interval (m_pClientManager d1) var"
      using v by (simp add: vr)
    have h: "hrTemp = E_INVALIDARG" "d2 = d1"
      using a8 item_interval_invalid [OF p v1, of other] by (simp_all add: k)
    show ?thesis
      using a9 a10 a6 a14 k nf by (simp add: h)
  qed
  have cC: "\<exists>r. GetValue key (fst (snd ?R)) = (S_OK, VT_UNKNOWN r) \<and>
               (valid_sensitivity ?cm field x \<longrightarrow>
                  GetValue field r = (S_OK, x) \<and>
                  GetValue field (desired_values appId (m_pClientManager (snd (snd ?R)))) = (S_OK, x)) \<and>
               (\<not> valid_sensitivity ?cm field x \<longrightarrow>
                  GetValue field r = (S_OK, VT_ERROR (sensitivity_error ?cm field)) \<and>
                  GetValue field (desired_values appId (m_pClientManager (snd (snd ?R))))
                    = GetValue field (desired_values appId ?cm) \<and>
                  (SUCCEEDED (fst ?R) \<longrightarrow> fst ?R = S_FALSE))"
    if k: "key = SENSOR_PROPERTY_CHANGE_SENSITIVITY" and v: "var = VT_UNKNOWN perField"
      and dv: "distinct (map fst perField)" and fx: "(field, x) \<in> set perField"
  proof -
    let ?mins = "m_spMinSensitivityValues (m_pClientManager d1)"
    obtain desired results fError where
      l: "sensitivity_loop ?mins perField (pDesiredSensitivityValues entry1, [], False) = (desired, results, fError)"
      by (cases "sensitivity_loop ?mins perField (pDesiredSensitivityValues entry1, [], False)") auto
    obtain cm' where e: "SetProperties_item other appId (SENSOR_PROPERTY_CHANGE_SENSITIVITY, VT_UNKNOWN perField) d1
           = (if fError then S_FALSE else S_OK, VT_UNKNOWN results, d1 \<lparr> m_pClientManager := cm' \<rparr>)"
      and c: "m_pClientList cm' =
           assign appId (entry1 \<lparr> pDesiredSensitivityValues := desired \<rparr>) (m_pClientList (m_pClientManager d1))"
      using item_sensitivity [OF a1 p a2 l, of other] by blast
    have h: "hrTemp = (if fError then S_FALSE else S_OK)" "varResult = VT_UNKNOWN results"
      "d2 = d1 \<lparr> m_pClientManager := cm' \<rparr>"
      using a8 e by (simp_all add: k v)
    have ok: "SUCCEEDED hrTemp"
      by (simp add: h SUCCEEDED_def S_FALSE_def S_OK_def)
    have val: "validate_sensitivity ?mins field x =
                 (if valid_sensitivity ?cm field x then S_OK else sensitivity_error ?cm field)"
      using validate_sensitivity_ready [OF a1, of field x] by (simp add: vs se)
    have fs: "\<not> SUCCEEDED (sensitivity_error ?cm field)"
      using FAILED_sensitivity_error [of ?cm field] by (simp add: SUCCEEDED_def FAILED_def)
    have mx: "map_of perField field = Some x"
      using dv fx by simp
    note maps = sensitivity_loop_maps [OF dv, of ?mins "pDesiredSensitivityValues entry1" "[]" False, unfolded l fst_conv snd_conv]
    have mr: "map_of results field =
                Some (if valid_sensitivity ?cm field x then x else VT_ERROR (sensitivity_error ?cm field))"
      using maps mx val fs by simp
    have md: "map_of desired field =
                (if valid_sensitivity ?cm field x then Some x else map_of (pDesiredSensitivityValues entry1) field)"
      using maps mx val fs by simp
    have fe: "fError" if "\<not> valid_sensitivity ?cm field x"
    proof -
      have "\<not> SUCCEEDED (validate_sensitivity ?mins (fst (field, x)) (snd (field, x)))"
        using that val fs by simp
      then have "\<exists>kv \<in> set perField. \<not> SUCCEEDED (validate_sensitivity ?mins (fst kv) (snd kv))"
        using fx by blast
      then show ?thesis
        using maps by simp
    qed
    have dv2: "desired_values appId (m_pClientManager d2) = desired"
      by (simp add: h desired_values_def c find_client_def map_of_assign)
    have dv1: "desired_values appId (m_pClientManager d1) = pDesiredSensitivityValues entry1"
      by (simp add: desired_values_def a2)
    have fin: "desired_values appId (m_pClientManager (snd (snd ?R))) = desired"
      using a11 k dv2 by simp
    have old: "desired_values appId ?cm = pDesiredSensitivityValues entry1"
      using a7 k dv1 by simp
    have g: "GetValue key (fst (snd ?R)) = (S_OK, VT_UNKNOWN results)"
      using a9 ok by (simp add: h)
    have good: "GetValue field results = (S_OK, x) \<and>
                GetValue field (desired_values appId (m_pClientManager (snd (snd ?R)))) = (S_OK, x)"
      if "valid_sensitivity ?cm field x"
      using that mr md by (simp add: fin GetValue_map_of)
    have bad: "GetValue field results = (S_OK, VT_ERROR (sensitivity_error ?cm field)) \<and>
               GetValue field (desired_values appId (m_pClientManager (snd (snd ?R))))
                 = GetValue field (desired_values appId ?cm) \<and>
               (SUCCEEDED (fst ?R) \<longrightarrow> fst ?R = S_FALSE)"
      if n: "\<not> valid_sensitivity ?cm field x"
    proof -
      have "hrTemp \<noteq> S_OK"
        using fe [OF n] nf by (simp add: h)
      then have "SUCCEEDED (fst ?R) \<longrightarrow> fst ?R = S_FALSE"
        using a14 by blast
      moreover have "GetValue field desired = GetValue field (pDesiredSensitivityValues entry1)"
        using md n by (intro GetValue_cong) simp
      ultimately show ?thesis
        using n mr by (simp add: fin old GetValue_map_of)
    qed
    show ?thesis
      using g good bad by blast
  qed
  have cD: "GetValue key (fst (snd ?R)) = (S_OK, VT_ERROR E_INVALIDARG) \<and>
            desired_values appId (m_pClientManager (snd (snd ?R))) = desired_values appId ?cm \<and>
            (SUCCEEDED (fst ?R) \<longrightarrow> fst ?R = S_FALSE)"
    if k: "key = SENSOR_PROPERTY_CHANGE_SENSITIVITY" and v: "vt var \<noteq> vt (VT_UNKNOWN [])"
  proof -
    have h: "hrTemp = E_INVALIDARG" "d2 = d1"
      using a8 item_sensitivity_invalid [OF p v, of other] by (simp_all add: k)
    show ?thesis
      using a9 a11 a7 a14 k nf by (simp add: h)
  qed
  have cE: "GetValue key (fst (snd ?R)) = (S_OK, VT_ERROR (HRESULT_FROM_WIN32 ERROR_NOT_FOUND)) \<and>
            (SUCCEEDED (fst ?R) \<longrightarrow> fst ?R = S_FALSE)"
    if k: "\<not> IsTestProperty key" "key \<noteq> SENSOR_PROPERTY_CURRENT_REPORT_INTERVAL"
          "key \<noteq> SENSOR_PROPERTY_CHANGE_SENSITIVITY"
  proof -
    have h: "hrTemp = HRESULT_FROM_WIN32 ERROR_NOT_FOUND"
      using a8 item_other [OF k p, of other var d1] by simp
    show ?thesis
      using a9 a14 nf by (simp add: h)
  qed
  have cF: "GetValue key (fst (snd ?R)) = (S_OK, VT_EMPTY) \<and>
            m_TestRegister (snd (snd ?R)) = read_ulVal other var"
    if k: "key = SENSOR_PROPERTY_TEST_REGISTER" and ini: "m_fInitialized dev"
  proof -
    have "m_fInitialized d1"
      using ini a5 by simp
    then have h: "hrTemp = S_OK" "varResult = VT_EMPTY" "d2 = d1 \<lparr> m_TestRegister := read_ulVal other var \<rparr>"
      using a8 item_test_register(1) [of d1 other appId var] by (simp_all add: k)
    show ?thesis
      using a9 a12 k by (simp add: h)
  qed
  have cG: "GetValue key (fst (snd ?R)) = (S_OK, VT_EMPTY) \<and>
            m_TestDataSize (snd (snd ?R)) = read_ulVal other var"
    if k: "key = SENSOR_PROPERTY_TEST_DATA_SIZE" and ini: "m_fInitialized dev"
  proof -
    have "m_fInitialized d1"
      using ini a5 by simp
    then have h: "hrTemp = S_OK" "varResult = VT_EMPTY" "d2 = d1 \<lparr> m_TestDataSize := read_ulVal other var \<rparr>"
      using a8 item_test_register(2) [of d1 other appId var] by (simp_all add: k)
    show ?thesis
      using a9 a13 k by (simp add: h)
  qed
  have cH: "GetValue key (fst (snd ?R)) = (S_OK, VT_ERROR E_INVALIDARG) \<and>
            (SUCCEEDED (fst ?R) \<longrightarrow> fst ?R = S_FALSE)"
    if k: "key = SENSOR_PROPERTY_TEST_DATA" and ini: "m_fInitialized dev" and n: "read_pElems other var = None"
  proof -
    have "m_fInitialized d1"
      using ini a5 by simp
    then have h: "hrTemp = E_INVALIDARG"
      using a8 item_test_data_null [OF _ n, of d1 appId] by (simp add: k)
    show ?thesis
      using a9 a14 nf by (simp add: h)
  qed
  show ?thesis
    by (intro conjI; (rule impI, elim conjE, (rule cA cB cC cD cE cF cG cH; assumption)))
qed

text \<open>
  C5. In a batch with distinct keys every item is validated and applied on its own.
  For a batch of desired sensitivities of a registered client: an item that passes the
  validation is stored for the client and gets a success entry with its value; an item
  that fails it gets an error entry with the failure code, leaves the client's value as
  it was, and makes the overall status S\_FALSE whenever the call as a whole succeeds.
  For a batch SetProperties call of a connected client, whatever the other items of the
  batch are and whether or not they fail: a valid report interval gets a success entry
  and is the client's desired interval afterwards; an invalid one gets the error entry
  E\_INVALIDARG and leaves the desired interval as it was; in a sensitivity collection
  every valid field gets a success entry and is stored for the client, every invalid
  field gets its error entry and leaves the client's value as it was; a sensitivity item
  that is no collection gets E\_INVALIDARG; a key that is neither a test property nor a
  settable property gets the error entry ERROR\_NOT\_FOUND; the test register and the
  test data size are stored with an empty success entry; test data with a null buffer
  gets E\_INVALIDARG. Whenever one of these items fails and the call as a whole
  succeeds, the overall status is S\_FALSE.
\<close>

theorem batch_items_are_applied_individually:
  "(pClientFile \<noteq> nullptr \<and> find_client pClientFile (m_pClientList cm) = Some entry \<and>
    distinct (map fst pValues) \<and> (key, var) \<in> set pValues \<longrightarrow>
      (SUCCEEDED (validate_sensitivity (m_spMinSensitivityValues cm) key var) \<longrightarrow>
         GetValue key (fst (snd (SetDesiredChangeSensitivity pClientFile pValues cm))) = (S_OK, var) \<and>
         GetValue key (desired_values pClientFile (snd (snd (SetDesiredChangeSensitivity pClientFile pValues cm))))
           = (S_OK, var)) \<and>
      (\<not> SUCCEEDED (validate_sensitivity (m_spMinSensitivityValues cm) key var) \<longrightarrow>
         FAILED (validate_sensitivity (m_spMinSensitivityValues cm) key var) \<and>
         GetValue key (fst (snd (SetDesiredChangeSensitivity pClientFile pValues cm)))
           = (S_OK, VT_ERROR (validate_sensitivity (m_spMinSensitivityValues cm) key var)) \<and>
         GetValue key (desired_values pClientFile (snd (snd (SetDesiredChangeSensitivity pClientFile pValues cm))))
           = GetValue key (desired_values pClientFile cm) \<and>
         (SUCCEEDED (fst (SetDesiredChangeSensitivity pClientFile pValues cm)) \<longrightarrow>
            fst (SetDesiredChangeSensitivity pClientFile pValues cm) = S_FALSE))) \<and>
   (appId \<noteq> nullptr \<and> cm_ready (m_pClientManager dev) \<and>
    find_client appId (m_pClientList (m_pClientManager dev)) = Some appEntry \<and>
    distinct (map fst pProperties) \<and> (propKey, propVar) \<in> set pProperties \<longrightarrow>
      (propKey = SENSOR_PROPERTY_CURRENT_REPORT_INTERVAL \<and> valid_report_interval (m_pClientManager dev) propVar \<longrightarrow>
         GetValue propKey (fst (snd (SetProperties other appId pProperties dev))) = (S_OK, propVar) \<and>
         desired_interval appId (m_pClientManager (snd (snd (SetProperties other appId pProperties dev))))
           = ulVal propVar) \<and>
      (propKey = SENSOR_PROPERTY_CURRENT_REPORT_INTERVAL \<and> \<not> valid_report_interval (m_pClientManager dev) propVar \<longrightarrow>
         GetValue propKey (fst (snd (SetProperties other appId pProperties dev))) = (S_OK, VT_ERROR E_INVALIDARG) \<and>
         desired_interval appId (m_pClientManager (snd (snd (SetProperties other appId pProperties dev))))
           = desired_interval appId (m_pClientManager dev) \<and>
         (SUCCEEDED (fst (SetProperties other appId pProperties dev)) \<longrightarrow>
            fst (SetProperties other appId pProperties dev) = S_FALSE)) \<and>
      (propKey = SENSOR_PROPERTY_CHANGE_SENSITIVITY \<and> propVar = VT_UNKNOWN perField \<and>
       distinct (map fst perField) \<and> (field, x) \<in> set perField \<longrightarrow>
         (\<exists>r. GetValue propKey (fst (snd (SetProperties other appId pProperties dev))) = (S_OK, VT_UNKNOWN r) \<and>
            (valid_sensitivity (m_pClientManager dev) field x \<longrightarrow>
               GetValue field r = (S_OK, x) \<and>
               GetValue field
                 (desired_values appId (m_pClientManager (snd (snd (SetProperties other appId pProperties dev)))))
                 = (S_OK, x)) \<and>
            (\<not> valid_sensitivity (m_pClientManager dev) field x \<longrightarrow>
               GetValue field r = (S_OK, VT_ERROR (sensitivity_error (m_pClientManager dev) field)) \<and>
               GetValue field
                 (desired_values appId (m_pClientManager (snd (snd (SetProperties other appId pProperties dev)))))
                 = GetValue field (desired_values appId (m_pClientManager dev)) \<and>
               (SUCCEEDED (fst (SetProperties other appId pProperties dev)) \<longrightarrow>
                  fst (SetProperties other appId pProperties dev) = S_FALSE)))) \<and>
      (propKey = SENSOR_PROPERTY_CHANGE_SENSITIVITY \<and> vt propVar \<noteq> vt (VT_UNKNOWN []) \<longrightarrow>
         GetValue propKey (fst (snd (SetProperties other appId pProperties dev))) = (S_OK, VT_ERROR E_INVALIDARG) \<and>
         desired_values appId (m_pClientManager (snd (snd (SetProperties other appId pProperties dev))))
           = desired_values appId (m_pClientManager dev) \<and>
         (SUCCEEDED (fst (SetProperties other appId pProperties dev)) \<longrightarrow>
            fst (SetProperties other appId pProperties dev) = S_FALSE)) \<and>
      (\<not> IsTestProperty propKey \<and> propKey \<noteq> SENSOR_PROPERTY_CURRENT_REPORT_INTERVAL \<and>
       propKey \<noteq> SENSOR_PROPERTY_CHANGE_SENSITIVITY \<longrightarrow>
         GetValue propKey (fst (snd (SetProperties other appId pProperties dev)))
           = (S_OK, VT_ERROR (HRESULT_FROM_WIN32 ERROR_NOT_FOUND)) \<and>
         (SUCCEEDED (fst (SetProperties other appId pProperties dev)) \<longrightarrow>
            fst (SetProperties other appId pProperties dev) = S_FALSE)) \<and>
      (propKey = SENSOR_PROPERTY_TEST_REGISTER \<and> m_fInitialized dev \<longrightarrow>
         GetValue propKey (fst (snd (SetProperties other appId pProperties dev))) = (S_OK, VT_EMPTY) \<and>
         m_TestRegister (snd (snd (SetProperties other appId pProperties dev))) = read_ulVal other propVar) \<and>
      (propKey = SENSOR_PROPERTY_TEST_DATA_SIZE \<and> m_fInitialized dev \<longrightarrow>
         GetValue propKey (fst (snd (SetProperties other appId pProperties dev))) = (S_OK, VT_EMPTY) \<and>
         m_TestDataSize (snd (snd (SetProperties other appId pProperties dev))) = read_ulVal other propVar) \<and>
      (propKey = SENSOR_PROPERTY_TEST_DATA \<and> m_fInitialized dev \<and> read_pElems other propVar = None \<longrightarrow>
         GetValue propKey (fst (snd (SetProperties other appId pProperties dev))) = (S_OK, VT_ERROR E_INVALIDARG) \<and>
         (SUCCEEDED (fst (SetProperties other appId pProperties dev)) \<longrightarrow>
            fst (SetProperties other appId pProperties dev) = S_FALSE)))"
proof (rule conjI; rule impI)
  assume "pClientFile \<noteq> nullptr \<and> find_client pClientFile (m_pClientList cm) = Some entry \<and>
          distinct (map fst pValues) \<and> (key, var) \<in> set pValues"
  then have a: "pClientFile \<noteq> nullptr" "find_client pClientFile (m_pClientList cm) = Some entry"
    "distinct (map fst pValues)" "(key, var) \<in> set pValues"
    by simp_all
  show "(SUCCEEDED (validate_sensitivity (m_spMinSensitivityValues cm) key var) \<longrightarrow>
         GetValue key (fst (snd (SetDesiredChangeSensitivity pClientFile pValues cm))) = (S_OK, var) \<and>
         GetValue key (desired_values pClientFile (snd (snd (SetDesiredChangeSensitivity pClientFile pValues cm))))
           = (S_OK, var)) \<and>
      (\<not> SUCCEEDED (validate_sensitivity (m_spMinSensitivityValues cm) key var) \<longrightarrow>
         FAILED (validate_sensitivity (m_spMinSensitivityValues cm) key var) \<and>
         GetValue key (fst (snd (SetDesiredChangeSensitivity pClientFile pValues cm)))
           = (S_OK, VT_ERROR (validate_sensitivity (m_spMinSensitivityValues cm) key var)) \<and>
         GetValue key (desired_values pClientFile (snd (snd (SetDesiredChangeSensitivity pClientFile pValues cm))))
           = GetValue key (desired_values pClientFile cm) \<and>
         (SUCCEEDED (fst (SetDesiredChangeSensitivity pClientFile pValues cm)) \<longrightarrow>
            fst (SetDesiredChangeSensitivity pClientFile pValues cm) = S_FALSE))"
    by (rule SetDesiredChangeSensitivity_items [OF a])
next
  assume "appId \<noteq> nullptr \<and> cm_ready (m_pClientManager dev) \<and>
    find_client appId (m_pClientList (m_pClientManager dev)) = Some appEntry \<and>
    distinct (map fst pProperties) \<and> (propKey, propVar) \<in> set pProperties"
  then have b: "appId \<noteq> nullptr" "cm_ready (m_pClientManager dev)"
    "find_client appId (m_pClientList (m_pClientManager dev)) = Some appEntry"
    "distinct (map fst pProperties)" "(propKey, propVar) \<in> set pProperties"
    by simp_all
  show "(propKey = SENSOR_PROPERTY_CURRENT_REPORT_INTERVAL \<and> valid_report_interval (m_pClientManager dev) propVar \<longrightarrow>
         GetValue propKey (fst (snd (SetProperties other appId pProperties dev))) = (S_OK, propVar) \<and>
         desired_interval appId (m_pClientManager (snd (snd (SetProperties other appId pProperties dev))))
           = ulVal propVar) \<and>
      (propKey = SENSOR_PROPERTY_CURRENT_REPORT_INTERVAL \<and> \<not> valid_report_interval (m_pClientManager dev) propVar \<longrightarrow>
         GetValue propKey (fst (snd (SetProperties other appId pProperties dev))) = (S_OK, VT_ERROR E_INVALIDARG) \<and>
         desired_interval appId (m_pClientManager (snd (snd (SetProperties other appId pProperties dev))))
           = desired_interval appId (m_pClientManager dev) \<and>
         (SUCCEEDED (fst (SetProperties other appId pProperties dev)) \<longrightarrow>
            fst (SetProperties other appId pProperties dev) = S_FALSE)) \<and>
      (propKey = SENSOR_PROPERTY_CHANGE_SENSITIVITY \<and> propVar = VT_UNKNOWN perField \<and>
       distinct (map fst perField) \<and> (field, x) \<in> set perField \<longrightarrow>
         (\<exists>r. GetValue propKey (fst (snd (SetProperties other appId pProperties dev))) = (S_OK, VT_UNKNOWN r) \<and>
            (valid_sensitivity (m_pClientManager dev) field x \<longrightarrow>
               GetValue field r = (S_OK, x) \<and>
               GetValue field
                 (desired_values appId (m_pClientManager (snd (snd (SetProperties other appId pProperties dev)))))
                 = (S_OK, x)) \<and>
            (\<not> valid_sensitivity (m_pClientManager dev) field x \<longrightarrow>
               GetValue field r = (S_OK, VT_ERROR (sensitivity_error (m_pClientManager dev) field)) \<and>
               GetValue field
                 (desired_values appId (m_pClientManager (snd (snd (SetProperties other appId pProperties dev)))))
                 = GetValue field (desired_values appId (m_pClientManager dev)) \<and>
               (SUCCEEDED (fst (SetProperties other appId pProperties dev)) \<longrightarrow>
                  fst (SetProperties other appId pProperties dev) = S_FALSE)))) \<and>
      (propKey = SENSOR_PROPERTY_CHANGE_SENSITIVITY \<and> vt propVar \<noteq> vt (VT_UNKNOWN []) \<longrightarrow>
         GetValue propKey (fst (snd (SetProperties other appId pProperties dev))) = (S_OK, VT_ERROR E_INVALIDARG) \<and>
         desired_values appId (m_pClientManager (snd (snd (SetProperties other appId pProperties dev))))
           = desired_values appId (m_pClientManager dev) \<and>
         (SUCCEEDED (fst (SetProperties other appId pProperties dev)) \<longrightarrow>
            fst (SetProperties other appId pProperties dev) = S_FALSE)) \<and>
      (\<not> IsTestProperty propKey \<and> propKey \<noteq> SENSOR_PROPERTY_CURRENT_REPORT_INTERVAL \<and>
       propKey \<noteq> SENSOR_PROPERTY_CHANGE_SENSITIVITY \<longrightarrow>
         GetValue propKey (fst (snd (SetProperties other appId pProperties dev)))
           = (S_OK, VT_ERROR (HRESULT_FROM_WIN32 ERROR_NOT_FOUND)) \<and>
         (SUCCEEDED (fst (SetProperties other appId pProperties dev)) \<longrightarrow>
            fst (SetProperties other appId pProperties dev) = S_FALSE)) \<and>
      (propKey = SENSOR_PROPERTY_TEST_REGISTER \<and> m_fInitialized dev \<longrightarrow>
         GetValue propKey (fst (snd (SetProperties other appId pProperties dev))) = (S_OK, VT_EMPTY) \<and>
         m_TestRegister (snd (snd (SetProperties other appId pProperties dev))) = read_ulVal other propVar) \<and>
      (propKey = SENSOR_PROPERTY_TEST_DATA_SIZE \<and> m_fInitialized dev \<longrightarrow>
         GetValue propKey (fst (snd (SetProperties other appId pProperties dev))) = (S_OK, VT_EMPTY) \<and>
         m_TestDataSize (snd (snd (SetProperties other appId pProperties dev))) = read_ulVal other propVar) \<and>
      (propKey = SENSOR_PROPERTY_TEST_DATA \<and> m_fInitialized dev \<and> read_pElems other propVar = None \<longrightarrow>
         GetValue propKey (fst (snd (SetProperties other appId pProperties dev))) = (S_OK, VT_ERROR E_INVALIDARG) \<and>
         (SUCCEEDED (fst (SetProperties other appId pProperties dev)) \<longrightarrow>
            fst (SetProperties other appId pProperties dev) = S_FALSE))"
    by (rule SetProperties_items [OF b])
qed

theorem batch_items_are_applied_individually_witness:
  "GetValue (Other_key 9) (fst (snd (SetDesiredChangeSensitivity 1 example_sensitivities example_one_client)))
     = (S_OK, VT_ERROR (HRESULT_FROM_WIN32 ERROR_NOT_FOUND)) \<and>
   GetValue SENSOR_DATA_TYPE_ACCELERATION_Z_G
     (fst (snd (SetDesiredChangeSensitivity 1 example_sensitivities example_one_client)))
     = (S_OK, VT_R8 (1 / 5)) \<and>
   GetValue SENSOR_DATA_TYPE_ACCELERATION_Z_G
     (desired_values 1 (snd (snd (SetDesiredChangeSensitivity 1 example_sensitivities example_one_client))))
     = (S_OK, VT_R8 (1 / 5)) \<and>
   fst (SetDesiredChangeSensitivity 1 example_sensitivities example_one_client) = S_FALSE \<and>
   GetValue SENSOR_PROPERTY_CURRENT_REPORT_INTERVAL
     (fst (snd (SetProperties zeroed_members 1 example_properties example_connected_device)))
     = (S_OK, VT_UI4 200) \<and>
   desired_interval 1
     (m_pClientManager (snd (snd (SetProperties zeroed_members 1 example_properties example_connected_device))))
     = 200 \<and>
   GetValue (Other_key 7) (fst (snd (SetProperties zeroed_members 1 example_properties example_connected_device)))
     = (S_OK, VT_ERROR (HRESULT_FROM_WIN32 ERROR_NOT_FOUND)) \<and>
   GetValue SENSOR_PROPERTY_CHANGE_SENSITIVITY
     (fst (snd (SetProperties zeroed_members 1 example_properties example_connected_device)))
     = (S_OK, VT_UNKNOWN [(SENSOR_DATA_TYPE_ACCELERATION_X_G, VT_R8 (1 / 10))]) \<and>
   GetValue SENSOR_DATA_TYPE_ACCELERATION_X_G
     (desired_values 1
        (m_pClientManager (snd (snd (SetProperties zeroed_members 1 example_properties example_connected_device)))))
     = (S_OK, VT_R8 (1 / 10)) \<and>
   fst (SetProperties zeroed_members 1 example_properties example_connected_device) = S_FALSE \<and>
   m_TestRegister (snd (snd (SetProperties zeroed_members 1 example_mixed_properties example_connected_device)))
     = 45 \<and>
   m_TestDataSize (snd (snd (SetProperties zeroed_members 1 example_mixed_properties example_connected_device)))
     = 1 \<and>
   GetValue SENSOR_PROPERTY_CURRENT_REPORT_INTERVAL
     (fst (snd (SetProperties zeroed_members 1 example_mixed_properties example_connected_device)))
     = (S_OK, VT_ERROR E_INVALIDARG) \<and>
   desired_interval 1
     (m_pClientManager (snd (snd (SetProperties zeroed_members 1 example_mixed_properties example_connected_device))))
     = 0 \<and>
   GetValue SENSOR_PROPERTY_TEST_DATA
     (fst (snd (SetProperties zeroed_members 1 example_mixed_properties example_connected_device)))
     = (S_OK, VT_ERROR E_INVALIDARG) \<and>
   GetValue SENSOR_PROPERTY_CHANGE_SENSITIVITY
     (fst (snd (SetProperties zeroed_members 1 example_mixed_properties example_connected_device)))
     = (S_OK, VT_UNKNOWN [(SENSOR_DATA_TYPE_ACCELERATION_X_G, VT_ERROR E_INVALIDARG),
                          (Other_key 3, VT_ERROR (HRESULT_FROM_WIN32 ERROR_NOT_FOUND)),
                          (SENSOR_DATA_TYPE_ACCELERATION_Y_G, VT_NULL)]) \<and>
   desired_values 1
     (m_pClientManager (snd (snd (SetProperties zeroed_members 1 example_mixed_properties example_connected_device))))
     = [(SENSOR_DATA_TYPE_ACCELERATION_Y_G, VT_NULL)] \<and>
   GetValue SENSOR_DATA_TYPE_ACCELERATION_Y_G
     (desired_values 1
        (m_pClientManager (snd (snd (SetProperties zeroed_members 1 example_mixed_properties example_connected_device)))))
     = (S_OK, VT_NULL) \<and>
   GetValue SENSOR_DATA_TYPE_ACCELERATION_X_G
     (desired_values 1
        (m_pClientManager (snd (snd (SetProperties zeroed_members 1 example_mixed_properties example_connected_device)))))
     = (HRESULT_FROM_WIN32 ERROR_NOT_FOUND, VT_EMPTY) \<and>
   fst (SetProperties zeroed_members 1 example_mixed_properties example_connected_device) = S_FALSE \<and>
   GetValue SENSOR_PROPERTY_CHANGE_SENSITIVITY
     (fst (snd (SetProperties zeroed_members 1 example_wrong_sensitivity example_connected_device)))
     = (S_OK, VT_ERROR E_INVALIDARG) \<and>
   GetValue SENSOR_PROPERTY_CURRENT_REPORT_INTERVAL
     (fst (snd (SetProperties zeroed_members 1 example_wrong_sensitivity example_connected_device)))
     = (S_OK, VT_UI4 0) \<and>
   fst (SetProperties zeroed_members 1 example_wrong_sensitivity example_connected_device) = S_FALSE"
proof -
  let ?entry = "\<lparr> fSubscribed = False, pDesiredSensitivityValues = [], desiredReportInterval = 0 \<rparr>"
  let ?mins = "m_spMinSensitivityValues example_one_client"
  let ?cm = "m_pClientManager example_connected_device"
  let ?X = SENSOR_DATA_TYPE_ACCELERATION_X_G
  let ?Y = SENSOR_DATA_TYPE_ACCELERATION_Y_G
  let ?vs1 = "[(?X, VT_R8 (1 / 10))]"
  let ?vs2 = "[(?X, VT_R8 (- 1)), (Other_key 3, VT_R8 1), (?Y, VT_NULL)]"
  note T = batch_items_are_applied_individually
             [where pClientFile = 1 and cm = example_one_client and entry = ?entry
                and pValues = example_sensitivities and appId = 1 and dev = example_connected_device
                and appEntry = ?entry and other = zeroed_members]
  have h: "(1::nat) \<noteq> nullptr \<and> find_client 1 (m_pClientList example_one_client) = Some ?entry \<and>
           distinct (map fst example_sensitivities)"
    by (simp add: nullptr_def example_one_client_eq find_client_def example_sensitivities_def)
  have i9: "(Other_key 9, VT_R8 1) \<in> set example_sensitivities"
    and iz: "(SENSOR_DATA_TYPE_ACCELERATION_Z_G, VT_R8 (1 / 5)) \<in> set example_sensitivities"
    by (simp_all add: example_sensitivities_def)
  have v9: "validate_sensitivity ?mins (Other_key 9) (VT_R8 1) = HRESULT_FROM_WIN32 ERROR_NOT_FOUND"
    unfolding example_one_client_def by code_simp
  have f9: "\<not> SUCCEEDED (HRESULT_FROM_WIN32 ERROR_NOT_FOUND)"
    by (simp add: SUCCEEDED_def HRESULT_FROM_WIN32_def ERROR_NOT_FOUND_def)
  have vz: "SUCCEEDED (validate_sensitivity ?mins SENSOR_DATA_TYPE_ACCELERATION_Z_G (VT_R8 (1 / 5)))"
    unfolding example_one_client_def by code_simp
  have sa: "SUCCEEDED (fst (SetDesiredChangeSensitivity 1 example_sensitivities example_one_client))"
    unfolding example_one_client_def example_sensitivities_def by code_simp
  have cmx: "?cm = example_one_client"
    by (simp add: example_connected_device_def)
  have ready: "cm_ready ?cm"
    unfolding cmx cm_ready_def cm_inv_def values_ok_def example_one_client_eq example_manager_eq by simp
  have f: "find_client 1 (m_pClientList ?cm) = Some ?entry"
    by (simp add: cmx example_one_client_eq find_client_def)
  have ini: "m_fInitialized example_connected_device"
    by (simp add: example_connected_device_def example_device_def)
  have d: "distinct (map fst example_properties)" "distinct (map fst example_mixed_properties)"
    "distinct (map fst example_wrong_sensitivity)"
    by (simp_all add: example_properties_def example_mixed_properties_def example_wrong_sensitivity_def)
  have m1: "(SENSOR_PROPERTY_CURRENT_REPORT_INTERVAL, VT_UI4 200) \<in> set example_properties"
    "(Other_key 7, VT_UI4 1) \<in> set example_properties"
    "(SENSOR_PROPERTY_CHANGE_SENSITIVITY, VT_UNKNOWN ?vs1) \<in> set example_properties"
    by (simp_all add: example_properties_def)
  have m2: "(SENSOR_PROPERTY_TEST_REGISTER, VT_UI4 45) \<in> set example_mixed_properties"
    "(SENSOR_PROPERTY_CURRENT_REPORT_INTERVAL, VT_R8 5) \<in> set example_mixed_properties"
    "(SENSOR_PROPERTY_TEST_DATA, VT_EMPTY) \<in> set example_mixed_properties"
    "(SENSOR_PROPERTY_CHANGE_SENSITIVITY, VT_UNKNOWN ?vs2) \<in> set example_mixed_properties"
    "(SENSOR_PROPERTY_TEST_DATA_SIZE, VT_UI4 1) \<in> set example_mixed_properties"
    by (simp_all add: example_mixed_properties_def)
  have m3: "(SENSOR_PROPERTY_CHANGE_SENSITIVITY, VT_UI4 3) \<in> set example_wrong_sensitivity"
    "(SENSOR_PROPERTY_CURRENT_REPORT_INTERVAL, VT_UI4 0) \<in> set example_wrong_sensitivity"
    by (simp_all add: example_wrong_sensitivity_def)
  have val: "valid_report_interval ?cm (VT_UI4 200)" "\<not> valid_report_interval ?cm (VT_R8 5)"
    "valid_report_interval ?cm (VT_UI4 0)"
    "valid_sensitivity ?cm ?X (VT_R8 (1 / 10))" "\<not> valid_sensitivity ?cm ?X (VT_R8 (- 1))"
    "\<not> valid_sensitivity ?cm (Other_key 3) (VT_R8 1)" "valid_sensitivity ?cm ?Y VT_NULL"
    "sensitivity_error ?cm ?X = E_INVALIDARG"
    "sensitivity_error ?cm (Other_key 3) = HRESULT_FROM_WIN32 ERROR_NOT_FOUND"
    "read_pElems zeroed_members VT_EMPTY = None"
    "desired_interval 1 ?cm = 0" "desired_values 1 ?cm = []"
    by (simp_all add: cmx example_one_client_eq example_manager_eq valid_report_interval_def
          valid_sensitivity_def sensitivity_error_def read_pElems_def zeroed_members_def
          desired_interval_def desired_values_def find_client_def)
  have sb: "SUCCEEDED (fst (SetProperties zeroed_members 1 example_properties example_connected_device))"
    "SUCCEEDED (fst (SetProperties zeroed_members 1 example_mixed_properties example_connected_device))"
    "SUCCEEDED (fst (SetProperties zeroed_members 1 example_wrong_sensitivity example_connected_device))"
    unfolding example_properties_def example_mixed_properties_def example_wrong_sensitivity_def
      example_connected_device_def example_device_def example_one_client_def
    by code_simp+
  have e1: "GetValue SENSOR_PROPERTY_CHANGE_SENSITIVITY
     (fst (snd (SetProperties zeroed_members 1 example_properties example_connected_device)))
     = (S_OK, VT_UNKNOWN ?vs1)"
    unfolding example_properties_def example_connected_device_def example_device_def example_one_client_def
    by code_simp
  have e2: "GetValue SENSOR_PROPERTY_CHANGE_SENSITIVITY
     (fst (snd (SetProperties zeroed_members 1 example_mixed_properties example_connected_device)))
     = (S_OK, VT_UNKNOWN [(?X, VT_ERROR E_INVALIDARG),
                          (Other_key 3, VT_ERROR (HRESULT_FROM_WIN32 ERROR_NOT_FOUND)),
                          (?Y, VT_NULL)])"
    "desired_values 1
     (m_pClientManager (snd (snd (SetProperties zeroed_members 1 example_mixed_properties example_connected_device))))
     = [(?Y, VT_NULL)]"
    unfolding example_mixed_properties_def example_connected_device_def example_device_def example_one_client_def
    by code_simp+
  have c1: "GetValue (Other_key 9) (fst (snd (SetDesiredChangeSensitivity 1 example_sensitivities example_one_client)))
     = (S_OK, VT_ERROR (HRESULT_FROM_WIN32 ERROR_NOT_FOUND)) \<and>
     fst (SetDesiredChangeSensitivity 1 example_sensitivities example_one_client) = S_FALSE \<and>
     GetValue (Other_key 7) (fst (snd (SetProperties zeroed_members 1 example_properties example_connected_device)))
     = (S_OK, VT_ERROR (HRESULT_FROM_WIN32 ERROR_NOT_FOUND)) \<and>
     fst (SetProperties zeroed_members 1 example_properties example_connected_device) = S_FALSE"
    using T [where key = "Other_key 9" and var = "VT_R8 1" and pProperties = example_properties
               and propKey = "Other_key 7" and propVar = "VT_UI4 1"]
      h i9 v9 f9 sa ready f d(1) m1(2) sb(1)
    by (simp add: IsTestProperty_def)
  have c2: "GetValue SENSOR_DATA_TYPE_ACCELERATION_Z_G
       (fst (snd (SetDesiredChangeSensitivity 1 example_sensitivities example_one_client)))
       = (S_OK, VT_R8 (1 / 5)) \<and>
     GetValue SENSOR_DATA_TYPE_ACCELERATION_Z_G
       (desired_values 1 (snd (snd (SetDesiredChangeSensitivity 1 example_sensitivities example_one_client))))
       = (S_OK, VT_R8 (1 / 5)) \<and>
     GetValue SENSOR_PROPERTY_CURRENT_REPORT_INTERVAL
       (fst (snd (SetProperties zeroed_members 1 example_properties example_connected_device)))
       = (S_OK, VT_UI4 200) \<and>
     desired_interval 1
       (m_pClientManager (snd (snd (SetProperties zeroed_members 1 example_properties example_connected_device))))
       = 200"
    using T [where key = SENSOR_DATA_TYPE_ACCELERATION_Z_G and var = "VT_R8 (1 / 5)"
               and pProperties = example_properties
               and propKey = SENSOR_PROPERTY_CURRENT_REPORT_INTERVAL and propVar = "VT_UI4 200"]
      h iz vz ready f d(1) m1(1) val(1)
    by (simp add: ulVal_def)
  have c3: "GetValue ?X
       (desired_values 1
          (m_pClientManager (snd (snd (SetProperties zeroed_members 1 example_properties example_connected_device)))))
       = (S_OK, VT_R8 (1 / 10))"
    using T [where key = SENSOR_DATA_TYPE_ACCELERATION_Z_G and var = "VT_R8 (1 / 5)"
               and pProperties = example_properties
               and propKey = SENSOR_PROPERTY_CHANGE_SENSITIVITY and propVar = "VT_UNKNOWN ?vs1"
               and perField = ?vs1 and field = ?X and x = "VT_R8 (1 / 10)"]
      h iz vz ready f d(1) m1(3) val(4)
    by auto
  have c4: "m_TestRegister (snd (snd (SetProperties zeroed_members 1 example_mixed_properties example_connected_device)))
       = 45"
    using T [where key = SENSOR_DATA_TYPE_ACCELERATION_Z_G and var = "VT_R8 (1 / 5)"
               and pProperties = example_mixed_properties
               and propKey = SENSOR_PROPERTY_TEST_REGISTER and propVar = "VT_UI4 45"]
      h iz vz ready f d(2) m2(1) ini
    by (simp add: read_ulVal_def IsTestProperty_def)
  have c5: "m_TestDataSize (snd (snd (SetProperties zeroed_members 1 example_mixed_properties example_connected_device)))
       = 1"
    using T [where key = SENSOR_DATA_TYPE_ACCELERATION_Z_G and var = "VT_R8 (1 / 5)"
               and pProperties = example_mixed_properties
               and propKey = SENSOR_PROPERTY_TEST_DATA_SIZE and propVar = "VT_UI4 1"]
      h iz vz ready f d(2) m2(5) ini
    by (simp add: read_ulVal_def IsTestProperty_def)
  have c6: "GetValue SENSOR_PROPERTY_CURRENT_REPORT_INTERVAL
       (fst (snd (SetProperties zeroed_members 1 example_mixed_properties example_connected_device)))
       = (S_OK, VT_ERROR E_INVALIDARG) \<and>
     desired_interval 1
       (m_pClientManager (snd (snd (SetProperties zeroed_members 1 example_mixed_properties example_connected_device))))
       = 0 \<and>
     fst (SetProperties zeroed_members 1 example_mixed_properties example_connected_device) = S_FALSE"
    using T [where key = SENSOR_DATA_TYPE_ACCELERATION_Z_G and var = "VT_R8 (1 / 5)"
               and pProperties = example_mixed_properties
               and propKey = SENSOR_PROPERTY_CURRENT_REPORT_INTERVAL and propVar = "VT_R8 5"]
      h iz vz ready f d(2) m2(2) val(2) val(11) sb(2)
    by simp
  have c7: "GetValue SENSOR_PROPERTY_TEST_DATA
       (fst (snd (SetProperties zeroed_members 1 example_mixed_properties example_connected_device)))
       = (S_OK, VT_ERROR E_INVALIDARG)"
    using T [where key = SENSOR_DATA_TYPE_ACCELERATION_Z_G and var = "VT_R8 (1 / 5)"
               and pProperties = example_mixed_properties
               and propKey = SENSOR_PROPERTY_TEST_DATA and propVar = VT_EMPTY]
      h iz vz ready f d(2) m2(3) ini val(10)
    by (simp add: IsTestProperty_def)
  have c8: "GetValue SENSOR_PROPERTY_CHANGE_SENSITIVITY
       (fst (snd (SetProperties zeroed_members 1 example_wrong_sensitivity example_connected_device)))
       = (S_OK, VT_ERROR E_INVALIDARG) \<and>
     fst (SetProperties zeroed_members 1 example_wrong_sensitivity example_connected_device) = S_FALSE"
    using T [where key = SENSOR_DATA_TYPE_ACCELERATION_Z_G and var = "VT_R8 (1 / 5)"
               and pProperties = example_wrong_sensitivity
               and propKey = SENSOR_PROPERTY_CHANGE_SENSITIVITY and propVar = "VT_UI4 3"]
      h iz vz ready f d(3) m3(1) sb(3)
    by simp
  have c9: "GetValue SENSOR_PROPERTY_CURRENT_REPORT_INTERVAL
       (fst (snd (SetProperties zeroed_members 1 example_wrong_sensitivity example_connected_device)))
       = (S_OK, VT_UI4 0)"
    using T [where key = SENSOR_DATA_TYPE_ACCELERATION_Z_G and var = "VT_R8 (1 / 5)"
               and pProperties = example_wrong_sensitivity
               and propKey = SENSOR_PROPERTY_CURRENT_REPORT_INTERVAL and propVar = "VT_UI4 0"]
      h iz vz ready f d(3) m3(2) val(3)
    by simp
  have dm: "distinct (map fst ?vs2)"
    "(?X, VT_R8 (- 1)) \<in> set ?vs2" "(?Y, VT_NULL) \<in> set ?vs2"
    by simp_all
  have c10: "GetValue ?X
       (desired_values 1
          (m_pClientManager (snd (snd (SetProperties zeroed_members 1 example_mixed_properties example_connected_device)))))
       = (HRESULT_FROM_WIN32 ERROR_NOT_FOUND, VT_EMPTY)"
    using T [where key = SENSOR_DATA_TYPE_ACCELERATION_Z_G and var = "VT_R8 (1 / 5)"
               and pProperties = example_mixed_properties
               and propKey = SENSOR_PROPERTY_CHANGE_SENSITIVITY and propVar = "VT_UNKNOWN ?vs2"
               and perField = ?vs2 and field = ?X and x = "VT_R8 (- 1)"]
      h iz vz ready f d(2) m2(4) val(5) val(12) dm(1,2)
    by (auto simp: GetValue_def)
  have c11: "GetValue ?Y
       (desired_values 1
          (m_pClientManager (snd (snd (SetProperties zeroed_members 1 example_mixed_properties example_connected_device)))))
       = (S_OK, VT_NULL)"
    using T [where key = SENSOR_DATA_TYPE_ACCELERATION_Z_G and var = "VT_R8 (1 / 5)"
               and pProperties = example_mixed_properties
               and propKey = SENSOR_PROPERTY_CHANGE_SENSITIVITY and propVar = "VT_UNKNOWN ?vs2"
               and perField = ?vs2 and field = ?Y and x = VT_NULL]
      h iz vz ready f d(2) m2(4) val(7) dm(1,3)
    by auto
  show ?thesis
    using c1 c2 c3 c4 c5 c6 c7 c8 c9 c10 c11 e1 e2 by (intro conjI) (simp_all only:)
qed

section \<open>The report throttle\<close>

lemma throttle_run_spaced:
  assumes "sorted (wake_times events)" and "\<forall>t \<in> set (wake_times events). last_report_time s \<le> t"
  shows "well_spaced (last_report_time s) (throttle_run s events)"
  using assms
proof (induction events arbitrary: s)
  case Nil
  then show ?case by simp
next
  case (Cons e events)
  show ?case
  proof (cases e)
    case (Wake now)
    have le: "last_report_time s \<le> now"
      using Cons.prems(2) by (simp add: Wake)
    have srt: "sorted (wake_times events)" and ge: "\<forall>t \<in> set (wake_times events). now \<le> t"
      using Cons.prems(1) by (simp_all add: Wake)
    show ?thesis
    proof (cases "active s \<and> report_interval s \<le> now - last_report_time s \<and> pending_data s")
      case True
      have "well_spaced (last_report_time (s \<lparr> pending_data := False, last_report_time := now \<rparr>))
              (throttle_run (s \<lparr> pending_data := False, last_report_time := now \<rparr>) events)"
        using ge by (intro Cons.IH [OF srt]) simp
      moreover have "last_report_time s + report_interval s \<le> now"
        using True le by arith
      ultimately show ?thesis
        using True by (simp add: Wake)
    next
      case False
      have "well_spaced (last_report_time s) (throttle_run s events)"
        using ge le by (intro Cons.IH [OF srt]) auto
      then show ?thesis
        using False by (auto simp: Wake)
    qed
  next
    case (Start v)
    have "well_spaced (last_report_time (s \<lparr> active := True, report_interval := v \<rparr>))
            (throttle_run (s \<lparr> active := True, report_interval := v \<rparr>) events)"
      using Cons.prems by (intro Cons.IH) (simp_all add: Start)
    moreover have "well_spaced (last_report_time s) (throttle_run s events)"
      using Cons.prems by (intro Cons.IH) (simp_all add: Start)
    ultimately show ?thesis
      by (simp add: Start)
  next
    case Stop
    have "well_spaced (last_report_time (s \<lparr> active := False \<rparr>)) (throttle_run (s \<lparr> active := False \<rparr>) events)"
      using Cons.prems by (intro Cons.IH) (simp_all add: Stop)
    then show ?thesis
      by (simp add: Stop)
  next
    case (Set_report_interval v)
    have "well_spaced (last_report_time (s \<lparr> report_interval := v \<rparr>))
            (throttle_run (s \<lparr> report_interval := v \<rparr>) events)"
      using Cons.prems by (intro Cons.IH) (simp_all add: Set_report_interval)
    then show ?thesis
      by (simp add: Set_report_interval)
  next
    case Notify_new_data
    have "well_spaced (last_report_time (s \<lparr> pending_data := True \<rparr>))
            (throttle_run (s \<lparr> pending_data := True \<rparr>) events)"
      using Cons.prems by (intro Cons.IH) (simp_all add: Notify_new_data)
    then show ?thesis
      by (simp add: Notify_new_data)
  qed
qed

lemma throttle_run_inactive:
  assumes "\<not> active s" and "\<not> list_ex is_Start events"
  shows "throttle_run s events = []"
  using assms
proof (induction events arbitrary: s)
  case Nil
  then show ?case by simp
next
  case (Cons e events)
  then show ?case
    by (cases e) simp_all
qed

lemma throttle_run_append:
  "throttle_run s (xs @ ys) = throttle_run s xs @ throttle_run (throttle_state s xs) ys"
  by (induction xs arbitrary: s) (auto split: prod.splits option.splits)

text \<open>
  C9. On the throttle as the spec describes it, with a clock that does not run backwards:
  every report is emitted at least the report interval in effect at its emission after
  the report before it (and the first one after the initial last-report time); and once
  \<open>stop\<close> has been processed, no report is emitted whatever new-data signals and wakes
  follow, as long as the throttle is not started again.
\<close>

theorem throttle_spacing_and_stop:
  assumes "sorted (wake_times (before @ Stop # after))"
    and "\<forall>t \<in> set (wake_times (before @ Stop # after)). last_report_time s \<le> t"
    and "\<not> list_ex is_Start after"
  shows "well_spaced (last_report_time s) (throttle_run s (before @ Stop # after)) \<and>
         throttle_run (throttle_state s (before @ [Stop])) after = [] \<and>
         throttle_run s (before @ Stop # after) = throttle_run s before"
proof -
  have a: "\<not> active (throttle_state s (before @ [Stop]))"
    by (induction before arbitrary: s) simp_all
  have e: "throttle_run (throttle_state s (before @ [Stop])) after = []"
    using throttle_run_inactive [OF a assms(3)] .
  have "throttle_run s ((before @ [Stop]) @ after) = throttle_run s (before @ [Stop]) @ []"
    using e by (simp only: throttle_run_append)
  then have "throttle_run s (before @ Stop # after) = throttle_run s before"
    by (simp add: throttle_run_append)
  then show ?thesis
    using throttle_run_spaced [OF assms(1,2)] e by simp
qed

theorem throttle_spacing_and_stop_witness:
  "throttle_run example_throttle example_events = [(100, 100), (150, 50)] \<and>
   well_spaced 0 (throttle_run example_throttle example_events) \<and>
   throttle_run (throttle_state example_throttle
      [Notify_new_data, Wake 40, Wake 100, Notify_new_data, Set_report_interval 50, Wake 120, Wake 150,
       Notify_new_data, Stop]) [Notify_new_data, Wake 400] = []"
proof -
  have ev: "example_events =
      [Notify_new_data, Wake 40, Wake 100, Notify_new_data, Set_report_interval 50, Wake 120, Wake 150,
       Notify_new_data] @ Stop # [Notify_new_data, Wake 400]"
    by (simp add: example_events_def)
  have h1: "sorted (wake_times example_events)"
    by code_simp
  have h2: "\<forall>t \<in> set (wake_times example_events). last_report_time example_throttle \<le> t"
    by code_simp
  have h3: "\<not> list_ex is_Start [Notify_new_data, Wake 400]"
    by simp
  have r: "throttle_run example_throttle example_events = [(100, 100), (150, 50)]"
    by code_simp
  have l: "last_report_time example_throttle = 0"
    by (simp add: example_throttle_def)
  note T = throttle_spacing_and_stop [OF h1 [unfolded ev] h2 [unfolded ev] h3]
  have c2: "well_spaced 0 (throttle_run example_throttle example_events)"
    using T [THEN conjunct1] by (simp only: ev l)
  have c3: "throttle_run (throttle_state example_throttle
      [Notify_new_data, Wake 40, Wake 100, Notify_new_data, Set_report_interval 50, Wake 120, Wake 150,
       Notify_new_data, Stop]) [Notify_new_data, Wake 400] = []"
    using T [THEN conjunct2, THEN conjunct1] by (simp only: append.simps)
  show ?thesis
    using r c2 c3 by (intro conjI)
qed

end
